theory Spec2Isabelle
  imports Complex_Main "HOL-Library.Multiset" "HOL-Library.Log_Nat"
begin

section \<open>Data model\<close>

text \<open>
  A JavaScript number is an IEEE-754 double.  Quantities, prices and amounts are
  rationals here (every finite double is one), and \<open>roundDouble\<close> is the rounding of an
  exact result to the nearest double, ties to even: the result is rounded to 53
  significant bits.  Overflow and gradual underflow are not represented.  The engine
  rounds differences \<open>a - b\<close> with \<open>0 \<le> b \<le> a\<close> only: these do not overflow, and where
  such a difference of two doubles is below the normal range it is a double itself and
  has less than 53 significant bits.
\<close>

definition binaryExponent :: "rat \<Rightarrow> int" where
  "binaryExponent x =
     (case quotient_of \<bar>x\<bar> of
        (a, b) \<Rightarrow> (let e = bitlen a - bitlen b in if 2 powi e \<le> \<bar>x\<bar> then e else e - 1))"

definition roundHalfEven :: "rat \<Rightarrow> int" where
  "roundHalfEven y =
     (let f = \<lfloor>y\<rfloor>; d = y - of_int f
      in if d < 1 / 2 then f else if 1 / 2 < d then f + 1 else if even f then f else f + 1)"

definition roundDouble :: "rat \<Rightarrow> rat" where
  "roundDouble x =
     (if x = 0 then 0
      else (let ulp = 2 powi (binaryExponent x - 52)
            in of_int (roundHalfEven (x / ulp)) * ulp))"

text \<open>
  The price overlay computes with a value that can be \<open>undefined\<close>, so its numbers can be
  \<open>NaN\<close>: an operation with a \<open>NaN\<close> operand gives \<open>NaN\<close>, a comparison with \<open>NaN\<close> is
  false, and \<open>undefined\<close> (\<open>None\<close>) converts to \<open>NaN\<close>.  \<open>jsDivide\<close> is only used with a
  positive divisor.
\<close>

datatype JsNumber = Number rat | NaN

fun jsTimes :: "JsNumber \<Rightarrow> JsNumber \<Rightarrow> JsNumber" where
  "jsTimes (Number x) (Number y) = Number (x * y)"
| "jsTimes _ _ = NaN"

fun jsMinus :: "JsNumber \<Rightarrow> JsNumber \<Rightarrow> JsNumber" where
  "jsMinus (Number x) (Number y) = Number (x - y)"
| "jsMinus _ _ = NaN"

fun jsDivide :: "JsNumber \<Rightarrow> rat \<Rightarrow> JsNumber" where
  "jsDivide (Number x) y = Number (x / y)"
| "jsDivide NaN y = NaN"

fun jsLess :: "JsNumber \<Rightarrow> rat \<Rightarrow> bool" where
  "jsLess (Number x) y \<longleftrightarrow> x < y"
| "jsLess NaN y \<longleftrightarrow> False"

fun jsGreater :: "JsNumber \<Rightarrow> rat \<Rightarrow> bool" where
  "jsGreater (Number x) y \<longleftrightarrow> x > y"
| "jsGreater NaN y \<longleftrightarrow> False"

fun toNumber :: "JsNumber option \<Rightarrow> JsNumber" where
  "toNumber None = NaN"
| "toNumber (Some x) = x"

text \<open>
  A JavaScript \<open>Date\<close> is represented by what its local getters read: the local
  calendar day, as a day number counted from 1970-01-01, times 86400000, plus the local
  time of day in milliseconds.  \<open>getFullYear\<close>, \<open>getMonth\<close>, \<open>new Date(y, m, d)\<close> and the
  functions of date-fns work on these local fields, in whatever zone the program runs.
  The dates the program compares by \<open>getTime()\<close> are trade dates and the start of the
  financial year, which are local midnights (\<open>parseTradeDate\<close> builds
  \<open>new Date(text + 'T00:00:00')\<close>), and two local midnights are in the order of their
  calendar days; so \<open><\<close> and \<open>>=\<close> on dates and the sort by \<open>getTime()\<close> are comparisons of
  these readings.
\<close>

type_synonym Date = int

definition msPerDay :: int where
  "msPerDay = 86400000"

datatype TradeType = Buy | Sell

datatype Classification = SHORT_TERM | LONG_TERM

record TradeRecord =
  tradeId :: string
  symbol :: string
  isin :: string
  tradeDate :: Date
  exchange :: string
  tradeType :: TradeType
  quantity :: rat
  price :: rat

record HoldingLot =
  quantity :: rat
  purchaseDate :: Date
  purchasePrice :: rat

record FifoSellResult =
  consumedLots :: "HoldingLot list"
  avgPurchasePrice :: rat
  oldestPurchaseDate :: Date

record HoldingAccumulator =
  symbol :: string
  isin :: string
  exchange :: string
  lots :: "HoldingLot list"

record RealizedGainEntry =
  symbol :: string
  exchange :: string
  quantity :: rat
  sellDate :: Date
  sellPrice :: rat
  purchasePrice :: rat
  purchaseDate :: Date
  gainLoss :: rat
  classification :: Classification

record RealizedGainsSummary =
  stcg :: rat
  stcl :: rat
  ltcg :: rat
  ltcl :: rat
  netShortTerm :: rat
  netLongTerm :: rat
  entries :: "RealizedGainEntry list"

text \<open>
  A \<open>Holding\<close> carries the fields the calculator fills in and the optional fields
  (\<open>currentPrice?\<close>, \<open>pnl?\<close>, ...) that exist only after the price overlay has run;
  \<open>undefined\<close> is \<open>None\<close>.
\<close>

record Holding =
  symbol :: string
  isin :: string
  exchange :: string
  lots :: "HoldingLot list"
  totalQuantity :: rat
  avgPurchasePrice :: rat
  oldestPurchaseDate :: Date
  newestPurchaseDate :: Date
  classification :: Classification
  currentPrice :: "JsNumber option"
  pnl :: "JsNumber option"
  pnlPercent :: "JsNumber option"
  isLoss :: "bool option"
  stQuantity :: "JsNumber option"
  ltQuantity :: "JsNumber option"
  stAvgPrice :: "JsNumber option"
  ltAvgPrice :: "JsNumber option"
  stPnl :: "JsNumber option"
  ltPnl :: "JsNumber option"

record NseQuote =
  lastPrice :: rat

record HoldingWithGains =
  accumulator :: "HoldingAccumulator option"
  realizedGains :: "RealizedGainEntry list"

record PortfolioAnalysis =
  holdings :: "Holding list"
  realizedGains :: RealizedGainsSummary


section \<open>Day arithmetic (date-fns)\<close>

text \<open>
  \<open>differenceInDays\<close> of date-fns counts full days on the local calendar: it takes the
  difference in calendar days and takes one off when the time of day of the later date
  is before that of the earlier one, keeping the sign.  The definition follows the
  library function step by step.  \<open>compareLocalAsc\<close> compares the local fields year,
  month, day, hours, minutes, seconds and milliseconds in this order, which is the
  comparison of the two readings; \<open>startOfDay\<close> is the local midnight;
  \<open>differenceInCalendarDays\<close> is the difference of the two local day numbers; and
  \<open>setDate(getDate() - n)\<close> moves the local calendar day and keeps the local time of day.
\<close>

definition compareLocalAsc :: "Date \<Rightarrow> Date \<Rightarrow> int" where
  "compareLocalAsc dateLeft dateRight = sgn (dateLeft - dateRight)"

definition startOfDay :: "Date \<Rightarrow> Date" where
  "startOfDay d = (d div msPerDay) * msPerDay"

definition differenceInCalendarDays :: "Date \<Rightarrow> Date \<Rightarrow> int" where
  "differenceInCalendarDays laterDate earlierDate =
     (startOfDay laterDate - startOfDay earlierDate) div msPerDay"

definition differenceInDays :: "Date \<Rightarrow> Date \<Rightarrow> int" where
  "differenceInDays laterDate earlierDate =
     (let sign = compareLocalAsc laterDate earlierDate;
          difference = \<bar>differenceInCalendarDays laterDate earlierDate\<bar>;
          shifted = laterDate - sign * difference * msPerDay;
          isLastDayNotFull = (if compareLocalAsc shifted earlierDate = - sign then 1 else 0)
      in sign * (difference - isLastDayNotFull))"


section \<open>The FIFO engine (holdings calculator)\<close>

definition createHoldingKey :: "string \<Rightarrow> string \<Rightarrow> string" where
  "createHoldingKey symb exch = symb @ '':'' @ exch"

text \<open>
  The comparator \<open>a.tradeDate.getTime() - b.tradeDate.getTime()\<close> orders by one integer
  key and \<open>Array.prototype.sort\<close> is stable, so the copy it returns is the stable sort by
  that key.
\<close>

definition sortTradesChronologically :: "TradeRecord list \<Rightarrow> TradeRecord list" where
  "sortTradesChronologically trades = sort_key tradeDate trades"

text \<open>
  The \<open>Map\<close> of groups iterates in insertion order, so it is an association list in the
  order in which the keys first occur; a trade is pushed on the end of its group.
\<close>

fun pushToGroup :: "string \<Rightarrow> TradeRecord \<Rightarrow> (string \<times> TradeRecord list) list
    \<Rightarrow> (string \<times> TradeRecord list) list" where
  "pushToGroup key trade [] = [(key, [trade])]"
| "pushToGroup key trade ((k, existing) # groups) =
     (if k = key then (k, existing @ [trade]) # groups
      else (k, existing) # pushToGroup key trade groups)"

definition groupTradesByHolding :: "TradeRecord list \<Rightarrow> (string \<times> TradeRecord list) list" where
  "groupTradesByHolding trades =
     foldl (\<lambda>groups trade.
        pushToGroup (createHoldingKey (TradeRecord.symbol trade) (TradeRecord.exchange trade))
          trade groups) [] trades"

text \<open>
  The engine is written once, with the rounding of a computed quantity as a parameter
  \<open>rnd\<close>: \<open>remainingToSell -= lot.quantity\<close> stores
  \<open>rnd (remainingToSell - lot.quantity)\<close> and \<open>lot.quantity -= remainingToSell\<close> stores
  \<open>rnd (lot.quantity - remainingToSell)\<close>.  The program runs with \<open>roundDouble\<close> for
  \<open>rnd\<close>.  With the identity for \<open>rnd\<close> the same text is the calculation in exact
  arithmetic; the functions without \<open>With\<close> in their names, defined after the engine, are
  that instance.  The sums, products and quotients behind the averages, the gains and
  the total quantity are written without rounding.

  The loop of \<open>applyFifoSell\<close> over the lots, oldest first, while something remains to
  be sold.  It returns the lots as the loop leaves them (the array is mutated in place),
  the consumed lots in the order they were pushed, and what is left of
  \<open>remainingToSell\<close>.
\<close>

fun fifoLoopWith :: "(rat \<Rightarrow> rat) \<Rightarrow> HoldingLot list \<Rightarrow> rat
    \<Rightarrow> HoldingLot list \<times> HoldingLot list \<times> rat" where
  "fifoLoopWith rnd [] remainingToSell = ([], [], remainingToSell)"
| "fifoLoopWith rnd (lot # rest) remainingToSell =
     (if remainingToSell > 0 then
        (if HoldingLot.quantity lot \<le> remainingToSell then
           (case fifoLoopWith rnd rest (rnd (remainingToSell - HoldingLot.quantity lot)) of
              (rest', consumed, r) \<Rightarrow>
                (lot\<lparr>HoldingLot.quantity := 0\<rparr> # rest',
                 \<lparr>HoldingLot.quantity = HoldingLot.quantity lot,
                  HoldingLot.purchaseDate = HoldingLot.purchaseDate lot,
                  HoldingLot.purchasePrice = HoldingLot.purchasePrice lot\<rparr> # consumed, r))
         else
           (case fifoLoopWith rnd rest 0 of
              (rest', consumed, r) \<Rightarrow>
                (lot\<lparr>HoldingLot.quantity := rnd (HoldingLot.quantity lot - remainingToSell)\<rparr> # rest',
                 \<lparr>HoldingLot.quantity = remainingToSell,
                  HoldingLot.purchaseDate = HoldingLot.purchaseDate lot,
                  HoldingLot.purchasePrice = HoldingLot.purchasePrice lot\<rparr> # consumed, r)))
      else (lot # rest, [], remainingToSell))"

text \<open>
  \<open>applyFifoSell\<close> returns the mutated lots, its result record, and the lines it writes
  with \<open>console.warn\<close>: the unmatched quantity, when the sell asks for more than is held.
  \<open>now\<close> is the clock (\<open>new Date()\<close>).
\<close>

definition applyFifoSellWith :: "(rat \<Rightarrow> rat) \<Rightarrow> Date \<Rightarrow> HoldingLot list \<Rightarrow> rat
    \<Rightarrow> HoldingLot list \<times> FifoSellResult \<times> rat list" where
  "applyFifoSellWith rnd now lots0 sellQuantity =
     (case fifoLoopWith rnd lots0 sellQuantity of
        (lots', consumed, remainingToSell) \<Rightarrow>
          (let warnings = (if remainingToSell > 0 then [remainingToSell] else []);
               oldest0 = (case consumed of [] \<Rightarrow> now | c # _ \<Rightarrow> HoldingLot.purchaseDate c);
               totals = foldl (\<lambda>(totalValue, totalQty, oldestDate) c.
                   (totalValue + HoldingLot.quantity c * HoldingLot.purchasePrice c,
                    totalQty + HoldingLot.quantity c,
                    if HoldingLot.purchaseDate c < oldestDate then HoldingLot.purchaseDate c
                    else oldestDate))
                 (0, 0, oldest0) consumed
           in (case totals of
                 (totalValue, totalQty, oldestDate) \<Rightarrow>
                   (lots',
                    \<lparr>consumedLots = consumed,
                     FifoSellResult.avgPurchasePrice =
                       (if totalQty > 0 then totalValue / totalQty else 0),
                     FifoSellResult.oldestPurchaseDate = oldestDate\<rparr>,
                    warnings))))"

definition removeEmptyLots :: "HoldingLot list \<Rightarrow> HoldingLot list" where
  "removeEmptyLots ls = filter (\<lambda>lot. HoldingLot.quantity lot > 0) ls"

definition calculateAvgPurchasePrice :: "HoldingLot list \<Rightarrow> rat" where
  "calculateAvgPurchasePrice ls =
     (if ls = [] then 0
      else (case foldl (\<lambda>(totalValue, totalQty) lot.
                    (totalValue + HoldingLot.quantity lot * HoldingLot.purchasePrice lot,
                     totalQty + HoldingLot.quantity lot)) (0, 0) ls of
              (totalValue, totalQty) \<Rightarrow>
                (if totalQty > 0 then totalValue / totalQty else 0)))"

definition calculateTotalQuantity :: "HoldingLot list \<Rightarrow> rat" where
  "calculateTotalQuantity ls = foldl (\<lambda>sum lot. sum + HoldingLot.quantity lot) 0 ls"

definition findOldestPurchaseDate :: "Date \<Rightarrow> HoldingLot list \<Rightarrow> Date" where
  "findOldestPurchaseDate now ls =
     (case ls of [] \<Rightarrow> now
      | first # _ \<Rightarrow>
          foldl (\<lambda>oldest lot.
             if HoldingLot.purchaseDate lot < oldest then HoldingLot.purchaseDate lot else oldest)
            (HoldingLot.purchaseDate first) ls)"

definition findNewestPurchaseDate :: "Date \<Rightarrow> HoldingLot list \<Rightarrow> Date" where
  "findNewestPurchaseDate now ls =
     (case ls of [] \<Rightarrow> now
      | first # _ \<Rightarrow>
          foldl (\<lambda>newest lot.
             if HoldingLot.purchaseDate lot > newest then HoldingLot.purchaseDate lot else newest)
            (HoldingLot.purchaseDate first) ls)"

text \<open>\<open>classifyHolding\<close> reads the clock; \<open>now\<close> is its value.\<close>

definition classifyHolding :: "Date \<Rightarrow> Date \<Rightarrow> Classification" where
  "classifyHolding now oldest =
     (let holdingDays = differenceInDays now oldest
      in if holdingDays \<le> 365 then SHORT_TERM else LONG_TERM)"

text \<open>The entries one sell trade pushes: one for each consumed lot.\<close>

definition sellEntries :: "TradeRecord \<Rightarrow> HoldingLot list \<Rightarrow> RealizedGainEntry list" where
  "sellEntries trade consumed =
     map (\<lambda>consumedLot.
        (let sellValue = HoldingLot.quantity consumedLot * TradeRecord.price trade;
             costBasis = HoldingLot.quantity consumedLot * HoldingLot.purchasePrice consumedLot;
             gl = sellValue - costBasis;
             holdingDays = differenceInDays (tradeDate trade) (HoldingLot.purchaseDate consumedLot);
             cls = (if holdingDays \<le> 365 then SHORT_TERM else LONG_TERM)
         in \<lparr>RealizedGainEntry.symbol = TradeRecord.symbol trade,
             RealizedGainEntry.exchange = TradeRecord.exchange trade,
             RealizedGainEntry.quantity = HoldingLot.quantity consumedLot,
             sellDate = tradeDate trade,
             sellPrice = TradeRecord.price trade,
             RealizedGainEntry.purchasePrice = HoldingLot.purchasePrice consumedLot,
             RealizedGainEntry.purchaseDate = HoldingLot.purchaseDate consumedLot,
             gainLoss = gl,
             RealizedGainEntry.classification = cls\<rparr>)) consumed"

text \<open>
  The body of the loop over the sorted trades of one group.  The state is the
  accumulator, the realized gains pushed so far, and the console warnings so far.
\<close>

definition processTradeWith :: "(rat \<Rightarrow> rat) \<Rightarrow> Date
    \<Rightarrow> HoldingAccumulator \<times> RealizedGainEntry list \<times> rat list
    \<Rightarrow> TradeRecord \<Rightarrow> HoldingAccumulator \<times> RealizedGainEntry list \<times> rat list" where
  "processTradeWith rnd now st trade =
     (case st of (acc0, gains, warnings) \<Rightarrow>
        (let acc = (if TradeRecord.isin trade \<noteq> [] \<and> HoldingAccumulator.isin acc0 = []
                    then acc0\<lparr>HoldingAccumulator.isin := TradeRecord.isin trade\<rparr> else acc0)
         in (case tradeType trade of
               Buy \<Rightarrow>
                 (acc\<lparr>HoldingAccumulator.lots := HoldingAccumulator.lots acc @
                    [\<lparr>HoldingLot.quantity = TradeRecord.quantity trade,
                      HoldingLot.purchaseDate = tradeDate trade,
                      HoldingLot.purchasePrice = TradeRecord.price trade\<rparr>]\<rparr>,
                  gains, warnings)
             | Sell \<Rightarrow>
                 (case applyFifoSellWith rnd now (HoldingAccumulator.lots acc)
                         (TradeRecord.quantity trade) of
                    (lots', fifoResult, w) \<Rightarrow>
                      (acc\<lparr>HoldingAccumulator.lots := removeEmptyLots lots'\<rparr>,
                       gains @ sellEntries trade (consumedLots fifoResult),
                       warnings @ w)))))"

text \<open>
  One group.  Sorting keeps the length, so the early return on an empty group is the
  empty case of the sorted list; otherwise the first sorted trade seeds the accumulator.
  The second component is what the run writes with \<open>console.warn\<close>.
\<close>

definition processTradesForHoldingWith :: "(rat \<Rightarrow> rat) \<Rightarrow> Date \<Rightarrow> TradeRecord list
    \<Rightarrow> HoldingWithGains \<times> rat list" where
  "processTradesForHoldingWith rnd now trades =
     (case sortTradesChronologically trades of
        [] \<Rightarrow> (\<lparr>accumulator = None, HoldingWithGains.realizedGains = []\<rparr>, [])
      | firstTrade # _ \<Rightarrow>
          (case foldl (processTradeWith rnd now)
                  (\<lparr>HoldingAccumulator.symbol = TradeRecord.symbol firstTrade,
                    HoldingAccumulator.isin = TradeRecord.isin firstTrade,
                    HoldingAccumulator.exchange = TradeRecord.exchange firstTrade,
                    HoldingAccumulator.lots = []\<rparr>, [], [])
                  (sortTradesChronologically trades) of
             (acc, gains, warnings) \<Rightarrow>
               (if HoldingAccumulator.lots acc = []
                then (\<lparr>accumulator = None, HoldingWithGains.realizedGains = gains\<rparr>, warnings)
                else (\<lparr>accumulator = Some acc, HoldingWithGains.realizedGains = gains\<rparr>, warnings))))"


text \<open>
  The calendar of the clock, for \<open>getMonth()\<close>, \<open>getFullYear()\<close> and
  \<open>new Date(year, monthIndex, day)\<close>: the proleptic Gregorian calendar, by day number
  counted from 1970-01-01.  Months are counted from 1 here and from 0 in \<open>getMonth\<close>.
\<close>

definition daysFromCivil :: "int \<Rightarrow> int \<Rightarrow> int \<Rightarrow> int" where
  "daysFromCivil y m d =
     (let y' = (if m \<le> 2 then y - 1 else y);
          era = y' div 400;
          yoe = y' - era * 400;
          doy = (153 * (if m > 2 then m - 3 else m + 9) + 2) div 5 + d - 1;
          doe = yoe * 365 + yoe div 4 - yoe div 100 + doy
      in era * 146097 + doe - 719468)"

definition civilFromDays :: "int \<Rightarrow> int \<times> int \<times> int" where
  "civilFromDays z0 =
     (let z = z0 + 719468;
          era = z div 146097;
          doe = z - era * 146097;
          yoe = (doe - doe div 1460 + doe div 36524 - doe div 146096) div 365;
          doy = doe - (365 * yoe + yoe div 4 - yoe div 100);
          mp = (5 * doy + 2) div 153;
          d = doy - (153 * mp + 2) div 5 + 1;
          m = (if mp < 10 then mp + 3 else mp - 9)
      in ((if m \<le> 2 then yoe + era * 400 + 1 else yoe + era * 400), m, d))"

definition getFullYear :: "Date \<Rightarrow> int" where
  "getFullYear t = fst (civilFromDays (t div msPerDay))"

definition getMonth :: "Date \<Rightarrow> int" where
  "getMonth t = fst (snd (civilFromDays (t div msPerDay))) - 1"

definition newDate :: "int \<Rightarrow> int \<Rightarrow> int \<Rightarrow> Date" where
  "newDate y monthIndex d = daysFromCivil y (monthIndex + 1) d * msPerDay"

definition getCurrentFyStartDate :: "Date \<Rightarrow> Date" where
  "getCurrentFyStartDate now =
     (let m = getMonth now;
          y = getFullYear now;
          fyStartYear = (if m < 3 then y - 1 else y)
      in newDate fyStartYear 3 1)"

definition summarizeRealizedGains :: "Date \<Rightarrow> RealizedGainEntry list \<Rightarrow> RealizedGainsSummary" where
  "summarizeRealizedGains now es =
     (let fyStart = getCurrentFyStartDate now;
          fyEntries = filter (\<lambda>e. sellDate e \<ge> fyStart) es;
          buckets = foldl (\<lambda>(sg, sl, lg, ll) entry.
              if RealizedGainEntry.classification entry = SHORT_TERM then
                (if gainLoss entry \<ge> 0 then (sg + gainLoss entry, sl, lg, ll)
                 else (sg, sl + \<bar>gainLoss entry\<bar>, lg, ll))
              else
                (if gainLoss entry \<ge> 0 then (sg, sl, lg + gainLoss entry, ll)
                 else (sg, sl, lg, ll + \<bar>gainLoss entry\<bar>)))
            (0, 0, 0, 0) fyEntries
      in (case buckets of
            (sg, sl, lg, ll) \<Rightarrow>
              \<lparr>stcg = sg, stcl = sl, ltcg = lg, ltcl = ll,
               netShortTerm = sg - sl, netLongTerm = lg - ll,
               entries = fyEntries\<rparr>))"

text \<open>
  \<open>holdings.sort((a, b) => a.symbol.localeCompare(b.symbol))\<close>: a stable sort by a
  comparator.  \<open>localeCompare\<close> belongs to the platform and is a parameter here.
\<close>

fun insertByCompare :: "('a \<Rightarrow> 'a \<Rightarrow> int) \<Rightarrow> 'a \<Rightarrow> 'a list \<Rightarrow> 'a list" where
  "insertByCompare cmp x [] = [x]"
| "insertByCompare cmp x (y # ys) =
     (if cmp x y \<le> 0 then x # y # ys else y # insertByCompare cmp x ys)"

definition sortByCompare :: "('a \<Rightarrow> 'a \<Rightarrow> int) \<Rightarrow> 'a list \<Rightarrow> 'a list" where
  "sortByCompare cmp xs = foldr (insertByCompare cmp) xs []"

text \<open>The Holding that \<open>analyzePortfolio\<close> pushes for a group whose accumulator is not null.\<close>

definition makeHolding :: "Date \<Rightarrow> HoldingAccumulator \<Rightarrow> Holding" where
  "makeHolding now acc =
     \<lparr>Holding.symbol = HoldingAccumulator.symbol acc,
      Holding.isin = HoldingAccumulator.isin acc,
      Holding.exchange = HoldingAccumulator.exchange acc,
      Holding.lots = HoldingAccumulator.lots acc,
      totalQuantity = calculateTotalQuantity (HoldingAccumulator.lots acc),
      Holding.avgPurchasePrice = calculateAvgPurchasePrice (HoldingAccumulator.lots acc),
      Holding.oldestPurchaseDate = findOldestPurchaseDate now (HoldingAccumulator.lots acc),
      newestPurchaseDate = findNewestPurchaseDate now (HoldingAccumulator.lots acc),
      Holding.classification =
        classifyHolding now (findOldestPurchaseDate now (HoldingAccumulator.lots acc)),
      currentPrice = None, pnl = None, pnlPercent = None, isLoss = None,
      stQuantity = None, ltQuantity = None, stAvgPrice = None, ltAvgPrice = None,
      stPnl = None, ltPnl = None\<rparr>"

text \<open>The body of the loop over the groups: collect the gains, push a Holding unless
  the position is fully sold.\<close>

definition processGroupWith :: "(rat \<Rightarrow> rat) \<Rightarrow> Date
    \<Rightarrow> Holding list \<times> RealizedGainEntry list \<Rightarrow> TradeRecord list
    \<Rightarrow> Holding list \<times> RealizedGainEntry list" where
  "processGroupWith rnd now st groupTrades =
     (case st of (hs, allRealizedGains) \<Rightarrow>
        (let r = fst (processTradesForHoldingWith rnd now groupTrades);
             allRealizedGains' = allRealizedGains @ HoldingWithGains.realizedGains r
         in (case accumulator r of
               None \<Rightarrow> (hs, allRealizedGains')
             | Some acc \<Rightarrow> (hs @ [makeHolding now acc], allRealizedGains'))))"

text \<open>
  The whole calculation.  A missing list (\<open>null\<close>, \<open>undefined\<close>) takes the same branch as
  the empty list and is not a separate input here.
\<close>

definition analyzePortfolioWith :: "(rat \<Rightarrow> rat) \<Rightarrow> (string \<Rightarrow> string \<Rightarrow> int) \<Rightarrow> Date
    \<Rightarrow> TradeRecord list \<Rightarrow> PortfolioAnalysis" where
  "analyzePortfolioWith rnd localeCompare now trades =
     (if trades = [] then
        \<lparr>holdings = [],
         PortfolioAnalysis.realizedGains =
           \<lparr>stcg = 0, stcl = 0, ltcg = 0, ltcl = 0, netShortTerm = 0, netLongTerm = 0,
            entries = []\<rparr>\<rparr>
      else
        (case foldl (processGroupWith rnd now) ([], []) (map snd (groupTradesByHolding trades)) of
           (hs, allRealizedGains) \<Rightarrow>
             \<lparr>holdings =
                sortByCompare (\<lambda>a b. localeCompare (Holding.symbol a) (Holding.symbol b)) hs,
              PortfolioAnalysis.realizedGains = summarizeRealizedGains now allRealizedGains\<rparr>))"

definition calculateHoldingsWith :: "(rat \<Rightarrow> rat) \<Rightarrow> (string \<Rightarrow> string \<Rightarrow> int) \<Rightarrow> Date
    \<Rightarrow> TradeRecord list \<Rightarrow> Holding list" where
  "calculateHoldingsWith rnd localeCompare now trades =
     holdings (analyzePortfolioWith rnd localeCompare now trades)"


section \<open>The engine in exact arithmetic\<close>

text \<open>
  The engine with the identity for the rounding: every quantity is the exact difference
  the program writes down.
\<close>

definition fifoLoop :: "HoldingLot list \<Rightarrow> rat \<Rightarrow> HoldingLot list \<times> HoldingLot list \<times> rat" where
  "fifoLoop = fifoLoopWith (\<lambda>x. x)"

definition applyFifoSell :: "Date \<Rightarrow> HoldingLot list \<Rightarrow> rat
    \<Rightarrow> HoldingLot list \<times> FifoSellResult \<times> rat list" where
  "applyFifoSell = applyFifoSellWith (\<lambda>x. x)"

definition processTrade :: "Date \<Rightarrow> HoldingAccumulator \<times> RealizedGainEntry list \<times> rat list
    \<Rightarrow> TradeRecord \<Rightarrow> HoldingAccumulator \<times> RealizedGainEntry list \<times> rat list" where
  "processTrade = processTradeWith (\<lambda>x. x)"

definition processTradesForHolding :: "Date \<Rightarrow> TradeRecord list \<Rightarrow> HoldingWithGains \<times> rat list" where
  "processTradesForHolding = processTradesForHoldingWith (\<lambda>x. x)"

definition processGroup :: "Date \<Rightarrow> Holding list \<times> RealizedGainEntry list \<Rightarrow> TradeRecord list
    \<Rightarrow> Holding list \<times> RealizedGainEntry list" where
  "processGroup = processGroupWith (\<lambda>x. x)"

definition analyzePortfolio :: "(string \<Rightarrow> string \<Rightarrow> int) \<Rightarrow> Date \<Rightarrow> TradeRecord list
    \<Rightarrow> PortfolioAnalysis" where
  "analyzePortfolio = analyzePortfolioWith (\<lambda>x. x)"

definition calculateHoldings :: "(string \<Rightarrow> string \<Rightarrow> int) \<Rightarrow> Date \<Rightarrow> TradeRecord list
    \<Rightarrow> Holding list" where
  "calculateHoldings localeCompare now trades = holdings (analyzePortfolio localeCompare now trades)"


section \<open>The trade merger (CSV parser module)\<close>

text \<open>
  The \<open>Map\<close> from tradeId to trade keeps insertion order and is only added to when the
  id is new; \<open>Array.from(map.values())\<close> lists it in that order.
\<close>

definition addUnique :: "(string \<times> TradeRecord) list \<Rightarrow> TradeRecord \<Rightarrow> (string \<times> TradeRecord) list" where
  "addUnique uniqueTradesMap trade =
     (if tradeId trade \<in> set (map fst uniqueTradesMap) then uniqueTradesMap
      else uniqueTradesMap @ [(tradeId trade, trade)])"

definition mergeTradebooks :: "TradeRecord list list \<Rightarrow> TradeRecord list" where
  "mergeTradebooks tradeLists =
     (let allTrades = concat tradeLists;
          uniqueTradesMap = foldl addUnique [] allTrades;
          uniqueTrades = map snd uniqueTradesMap
      in sort_key tradeDate uniqueTrades)"


section \<open>The price overlay and the harvesting opportunities (stores)\<close>

text \<open>
  \<open>currentPrice\<close> is what the caller read from \<open>quote.lastPrice\<close>; where that is
  \<open>undefined\<close> the two products with it are \<open>NaN\<close>.
\<close>

record LotClassification =
  stQuantity :: rat
  ltQuantity :: rat
  stAvgPrice :: rat
  ltAvgPrice :: rat
  stPnl :: JsNumber
  ltPnl :: JsNumber

definition classifyLotsByHoldingPeriod :: "Date \<Rightarrow> HoldingLot list \<Rightarrow> JsNumber \<Rightarrow> LotClassification" where
  "classifyLotsByHoldingPeriod now ls price0 =
     (case foldl (\<lambda>(stQ, ltQ, stTotalCost, ltTotalCost) lot.
               (let holdingDays = differenceInDays now (HoldingLot.purchaseDate lot);
                    lotCost = HoldingLot.quantity lot * HoldingLot.purchasePrice lot
                in if holdingDays \<le> 365
                   then (stQ + HoldingLot.quantity lot, ltQ, stTotalCost + lotCost, ltTotalCost)
                   else (stQ, ltQ + HoldingLot.quantity lot, stTotalCost, ltTotalCost + lotCost)))
             (0, 0, 0, 0) ls of
        (stQ, ltQ, stTotalCost, ltTotalCost) \<Rightarrow>
          (let stAvg = (if stQ > 0 then stTotalCost / stQ else 0);
               ltAvg = (if ltQ > 0 then ltTotalCost / ltQ else 0);
               stCurrentValue = jsTimes (Number stQ) price0;
               ltCurrentValue = jsTimes (Number ltQ) price0
           in \<lparr>LotClassification.stQuantity = stQ,
               LotClassification.ltQuantity = ltQ,
               LotClassification.stAvgPrice = stAvg,
               LotClassification.ltAvgPrice = ltAvg,
               LotClassification.stPnl = jsMinus stCurrentValue (Number stTotalCost),
               LotClassification.ltPnl = jsMinus ltCurrentValue (Number ltTotalCost)\<rparr>))"

text \<open>
  \<open>quotes\<close> is a plain object (\<open>mergedQuotes = {}\<close>, filled by \<open>Object.assign\<close>), given
  here by its own properties.  Reading \<open>quotes[name]\<close> finds the own property if there is
  one, otherwise the member of \<open>Object.prototype\<close> of that name if there is one, and
  otherwise gives \<open>undefined\<close>.  The members of \<open>Object.prototype\<close> are functions, and
  \<open>__proto__\<close> reads as \<open>Object.prototype\<close> itself: all of them are truthy, and reading
  \<open>lastPrice\<close> from any of them gives \<open>undefined\<close>.
\<close>

datatype QuoteLookup = Undefined | OwnQuote NseQuote | InheritedMember

definition objectPrototypeNames :: "string list" where
  "objectPrototypeNames =
     [''constructor'', ''__defineGetter__'', ''__defineSetter__'', ''hasOwnProperty'',
      ''__lookupGetter__'', ''__lookupSetter__'', ''isPrototypeOf'', ''propertyIsEnumerable'',
      ''toString'', ''valueOf'', ''__proto__'', ''toLocaleString'']"

definition getProperty :: "(string \<rightharpoonup> NseQuote) \<Rightarrow> string \<Rightarrow> QuoteLookup" where
  "getProperty quotes name =
     (case quotes name of
        Some quote \<Rightarrow> OwnQuote quote
      | None \<Rightarrow> if name \<in> set objectPrototypeNames then InheritedMember else Undefined)"

fun lastPriceOf :: "QuoteLookup \<Rightarrow> JsNumber option" where
  "lastPriceOf (OwnQuote quote) = Some (Number (lastPrice quote))"
| "lastPriceOf _ = None"

text \<open>The function mapped over the holdings by \<open>updateHoldingsWithPrices\<close>.\<close>

definition updateHoldingWithPrice :: "Date \<Rightarrow> (string \<rightharpoonup> NseQuote) \<Rightarrow> Holding \<Rightarrow> Holding" where
  "updateHoldingWithPrice now quotes holding =
     (case getProperty quotes (Holding.symbol holding) of
        Undefined \<Rightarrow> holding
      | quote \<Rightarrow>
          (let price0 = lastPriceOf quote;
               totalCost = Holding.avgPurchasePrice holding * totalQuantity holding;
               currentValue = jsTimes (toNumber price0) (Number (totalQuantity holding));
               pnl0 = jsMinus currentValue (Number totalCost);
               pnlPercent0 = (if totalCost > 0 then jsTimes (jsDivide pnl0 totalCost) (Number 100)
                              else Number 0);
               lotClassification =
                 classifyLotsByHoldingPeriod now (Holding.lots holding) (toNumber price0)
           in holding\<lparr>currentPrice := price0,
                pnl := Some pnl0,
                pnlPercent := Some pnlPercent0,
                isLoss := Some (jsLess pnl0 0),
                Holding.stQuantity := Some (Number (LotClassification.stQuantity lotClassification)),
                Holding.ltQuantity := Some (Number (LotClassification.ltQuantity lotClassification)),
                Holding.stAvgPrice := Some (Number (LotClassification.stAvgPrice lotClassification)),
                Holding.ltAvgPrice := Some (Number (LotClassification.ltAvgPrice lotClassification)),
                Holding.stPnl := Some (LotClassification.stPnl lotClassification),
                Holding.ltPnl := Some (LotClassification.ltPnl lotClassification)\<rparr>))"

definition updateHoldingsWithPrices :: "Date \<Rightarrow> (string \<rightharpoonup> NseQuote) \<Rightarrow> Holding list \<Rightarrow> Holding list" where
  "updateHoldingsWithPrices now quotes currentHoldings =
     map (updateHoldingWithPrice now quotes) currentHoldings"

definition stclOpportunities :: "Holding list \<Rightarrow> Holding list" where
  "stclOpportunities hs =
     filter (\<lambda>holding.
        (case Holding.stQuantity holding of None \<Rightarrow> False | Some q \<Rightarrow> jsGreater q 0) \<and>
        (case Holding.stPnl holding of None \<Rightarrow> False | Some p \<Rightarrow> jsLess p 0)) hs"

definition ltclOpportunities :: "Holding list \<Rightarrow> Holding list" where
  "ltclOpportunities hs =
     filter (\<lambda>holding.
        (case Holding.ltQuantity holding of None \<Rightarrow> False | Some q \<Rightarrow> jsGreater q 0) \<and>
        (case Holding.ltPnl holding of None \<Rightarrow> False | Some p \<Rightarrow> jsLess p 0)) hs"


section \<open>Auxiliary notions for the statements\<close>

text \<open>
  Names for things the calculator writes inline: the accumulator a group starts from,
  the key of a trade, the trades of one key in input order, the Holding one group
  contributes, and the quantities bought and sold in a list of trades.
\<close>

definition initAccumulator :: "TradeRecord \<Rightarrow> HoldingAccumulator" where
  "initAccumulator firstTrade =
     \<lparr>HoldingAccumulator.symbol = TradeRecord.symbol firstTrade,
      HoldingAccumulator.isin = TradeRecord.isin firstTrade,
      HoldingAccumulator.exchange = TradeRecord.exchange firstTrade,
      HoldingAccumulator.lots = []\<rparr>"

definition holdingKey :: "TradeRecord \<Rightarrow> string" where
  "holdingKey trade = createHoldingKey (TradeRecord.symbol trade) (TradeRecord.exchange trade)"

definition groupOf :: "string \<Rightarrow> TradeRecord list \<Rightarrow> TradeRecord list" where
  "groupOf key trades = filter (\<lambda>t. holdingKey t = key) trades"

definition groupHolding :: "Date \<Rightarrow> TradeRecord list \<Rightarrow> Holding list" where
  "groupHolding now groupTrades =
     (case accumulator (fst (processTradesForHolding now groupTrades)) of
        None \<Rightarrow> [] | Some acc \<Rightarrow> [makeHolding now acc])"

definition totalBought :: "TradeRecord list \<Rightarrow> rat" where
  "totalBought ts = sum_list (map TradeRecord.quantity (filter (\<lambda>t. tradeType t = Buy) ts))"

definition totalSold :: "TradeRecord list \<Rightarrow> rat" where
  "totalSold ts = sum_list (map TradeRecord.quantity (filter (\<lambda>t. tradeType t = Sell) ts))"


definition groupHoldingWith :: "(rat \<Rightarrow> rat) \<Rightarrow> Date \<Rightarrow> TradeRecord list \<Rightarrow> Holding list" where
  "groupHoldingWith rnd now groupTrades =
     (case accumulator (fst (processTradesForHoldingWith rnd now groupTrades)) of
        None \<Rightarrow> [] | Some acc \<Rightarrow> [makeHolding now acc])"

text \<open>The trades of one (symbol, venue) pair, in input order.\<close>

definition tradesOfPair :: "string \<Rightarrow> string \<Rightarrow> TradeRecord list \<Rightarrow> TradeRecord list" where
  "tradesOfPair symb exch trades =
     filter (\<lambda>t. TradeRecord.symbol t = symb \<and> TradeRecord.exchange t = exch) trades"

text \<open>
  A whole quantity: a whole number from 0 to \<open>2^53\<close>.  Whole numbers in this range, and
  the differences of two of them, are doubles.
\<close>

definition wholeQuantity :: "rat \<Rightarrow> bool" where
  "wholeQuantity q \<longleftrightarrow> q = of_int \<lfloor>q\<rfloor> \<and> 0 \<le> q \<and> q \<le> 2 ^ 53"

text \<open>The key of a returned Holding.\<close>

definition keyOfHolding :: "Holding \<Rightarrow> string" where
  "keyOfHolding h = createHoldingKey (Holding.symbol h) (Holding.exchange h)"

text \<open>
  The cost of a lot, and the test the overlay applies to each lot: held for at most 365
  days as of the given date.
\<close>

definition lotCost :: "HoldingLot \<Rightarrow> rat" where
  "lotCost lot = HoldingLot.quantity lot * HoldingLot.purchasePrice lot"

definition isShortTermLot :: "Date \<Rightarrow> HoldingLot \<Rightarrow> bool" where
  "isShortTermLot now lot \<longleftrightarrow> differenceInDays now (HoldingLot.purchaseDate lot) \<le> 365"


section \<open>Reference definitions taken from the specification\<close>

text \<open>
  The realized-gains summary as the specification words it, for comparison with
  \<open>summarizeRealizedGains\<close>: keep the entries sold on or after the fiscal-year start;
  each bucket is the sum of the magnitudes of the retained entries of one classification
  and one sign; the nets are gain minus loss.
\<close>

definition specBucket :: "Classification \<Rightarrow> bool \<Rightarrow> RealizedGainEntry list \<Rightarrow> rat" where
  "specBucket c positive retained =
     sum_list (map (\<lambda>e. \<bar>gainLoss e\<bar>)
       (filter (\<lambda>e. RealizedGainEntry.classification e = c \<and>
                     (if positive then gainLoss e > 0 else gainLoss e < 0)) retained))"

definition specSummary :: "Date \<Rightarrow> RealizedGainEntry list \<Rightarrow> RealizedGainsSummary" where
  "specSummary fiscalYearStart es =
     (let retained = filter (\<lambda>e. fiscalYearStart \<le> sellDate e) es
      in \<lparr>stcg = specBucket SHORT_TERM True retained,
          stcl = specBucket SHORT_TERM False retained,
          ltcg = specBucket LONG_TERM True retained,
          ltcl = specBucket LONG_TERM False retained,
          netShortTerm = specBucket SHORT_TERM True retained - specBucket SHORT_TERM False retained,
          netLongTerm = specBucket LONG_TERM True retained - specBucket LONG_TERM False retained,
          entries = retained\<rparr>)"


section \<open>Example inputs\<close>

text \<open>
  A Holding with a lot on each side of the 365-day boundary (as of day 500), first as
  the calculator returns it and then with the overlay of a price of 1400 applied.
\<close>

definition exampleLots :: "HoldingLot list" where
  "exampleLots =
     [\<lparr>HoldingLot.quantity = 10, HoldingLot.purchaseDate = 0, HoldingLot.purchasePrice = 1500\<rparr>,
      \<lparr>HoldingLot.quantity = 5, HoldingLot.purchaseDate = 400 * msPerDay,
       HoldingLot.purchasePrice = 1600\<rparr>]"

definition exampleHolding :: Holding where
  "exampleHolding =
     \<lparr>Holding.symbol = ''INFY'', Holding.isin = ''INE009A01021'', Holding.exchange = ''NSE'',
      Holding.lots = exampleLots,
      totalQuantity = 15, Holding.avgPurchasePrice = 4600 / 3,
      Holding.oldestPurchaseDate = 0, newestPurchaseDate = 400 * msPerDay,
      Holding.classification = LONG_TERM,
      currentPrice = Some (Number 1400), pnl = Some (Number (- 2000)),
      pnlPercent = Some (Number (- 200 / 23)), isLoss = Some True,
      Holding.stQuantity = Some (Number 5), Holding.ltQuantity = Some (Number 10),
      Holding.stAvgPrice = Some (Number 1600), Holding.ltAvgPrice = Some (Number 1500),
      Holding.stPnl = Some (Number (- 1000)), Holding.ltPnl = Some (Number (- 1000))\<rparr>"

definition exampleQuotes :: "string \<rightharpoonup> NseQuote" where
  "exampleQuotes = [''TCS'' \<mapsto> \<lparr>lastPrice = 3500\<rparr>]"


text \<open>
  The trades of the specification's scenario (2024-01-10, 2024-02-15 and 2024-03-01 are
  days 19732, 19768 and 19783 counted from 1970-01-01), a copy of the first with another price, as
  an overlapping export would carry it, and three realized-gain entries.
\<close>

definition buy1 :: TradeRecord where
  "buy1 = \<lparr>tradeId = ''T1'', TradeRecord.symbol = ''RELIANCE'', TradeRecord.isin = ''INE002A01018'',
            tradeDate = 19732 * msPerDay, TradeRecord.exchange = ''NSE'', tradeType = Buy,
            TradeRecord.quantity = 50, price = 2400\<rparr>"

definition buy2 :: TradeRecord where
  "buy2 = \<lparr>tradeId = ''T2'', TradeRecord.symbol = ''RELIANCE'', TradeRecord.isin = ''INE002A01018'',
            tradeDate = 19768 * msPerDay, TradeRecord.exchange = ''NSE'', tradeType = Buy,
            TradeRecord.quantity = 50, price = 2600\<rparr>"

definition sell1 :: TradeRecord where
  "sell1 = \<lparr>tradeId = ''T3'', TradeRecord.symbol = ''RELIANCE'', TradeRecord.isin = ''INE002A01018'',
            tradeDate = 19783 * msPerDay, TradeRecord.exchange = ''NSE'', tradeType = Sell,
            TradeRecord.quantity = 30, price = 2700\<rparr>"

definition buy1Repriced :: TradeRecord where
  "buy1Repriced = buy1\<lparr>price := 2450\<rparr>"

definition exampleGains :: "RealizedGainEntry list" where
  "exampleGains =
     [\<lparr>RealizedGainEntry.symbol = ''RELIANCE'', RealizedGainEntry.exchange = ''NSE'',
       RealizedGainEntry.quantity = 30, sellDate = 19783 * msPerDay, sellPrice = 2700,
       RealizedGainEntry.purchasePrice = 2400, RealizedGainEntry.purchaseDate = 19732 * msPerDay,
       gainLoss = 9000, RealizedGainEntry.classification = SHORT_TERM\<rparr>,
      \<lparr>RealizedGainEntry.symbol = ''TCS'', RealizedGainEntry.exchange = ''NSE'',
       RealizedGainEntry.quantity = 10, sellDate = 19900 * msPerDay, sellPrice = 3400,
       RealizedGainEntry.purchasePrice = 3500, RealizedGainEntry.purchaseDate = 19800 * msPerDay,
       gainLoss = - 1000, RealizedGainEntry.classification = SHORT_TERM\<rparr>,
      \<lparr>RealizedGainEntry.symbol = ''INFY'', RealizedGainEntry.exchange = ''BSE'',
       RealizedGainEntry.quantity = 20, sellDate = 20000 * msPerDay, sellPrice = 1400,
       RealizedGainEntry.purchasePrice = 1500, RealizedGainEntry.purchaseDate = 19000 * msPerDay,
       gainLoss = - 2000, RealizedGainEntry.classification = LONG_TERM\<rparr>]"


text \<open>
  A comparator for the final sort of the examples (by code unit), three more sells of
  the scenario's stock (of exactly the first lot, of more than is held, and before any
  buy), and a buy of another stock.
\<close>

fun compareCodeUnits :: "string \<Rightarrow> string \<Rightarrow> int" where
  "compareCodeUnits [] [] = 0"
| "compareCodeUnits [] (y # ys) = - 1"
| "compareCodeUnits (x # xs) [] = 1"
| "compareCodeUnits (x # xs) (y # ys) =
     (if (of_char x :: nat) < of_char y then - 1
      else if (of_char y :: nat) < of_char x then 1
      else compareCodeUnits xs ys)"

definition sellFirstLot :: TradeRecord where
  "sellFirstLot = sell1\<lparr>TradeRecord.quantity := 50\<rparr>"

definition sellOver :: TradeRecord where
  "sellOver = sell1\<lparr>TradeRecord.quantity := 120\<rparr>"

definition sellEarly :: TradeRecord where
  "sellEarly = \<lparr>tradeId = ''T0'', TradeRecord.symbol = ''RELIANCE'', TradeRecord.isin = ''INE002A01018'',
            tradeDate = 19700 * msPerDay, TradeRecord.exchange = ''NSE'', tradeType = Sell,
            TradeRecord.quantity = 50, price = 2300\<rparr>"

definition buyTcs :: TradeRecord where
  "buyTcs = \<lparr>tradeId = ''T5'', TradeRecord.symbol = ''TCS'', TradeRecord.isin = ''INE467B01029'',
            tradeDate = 19740 * msPerDay, TradeRecord.exchange = ''BSE'', tradeType = Buy,
            TradeRecord.quantity = 10, price = 3500\<rparr>"


text \<open>
  Two buys of one stock, 508 and 108 days before 2025-01-20 (day 20108), a quote for it,
  and the Holding the calculator returns for them; a buy of a stock whose symbol is
  \<open>toString\<close> and the Holding returned for it; and a buy and a sell whose symbols and
  venues differ but whose keys are the same string.
\<close>

definition infyOld :: TradeRecord where
  "infyOld = \<lparr>tradeId = ''T6'', TradeRecord.symbol = ''INFY'', TradeRecord.isin = ''INE009A01021'',
            tradeDate = 19600 * msPerDay, TradeRecord.exchange = ''NSE'', tradeType = Buy,
            TradeRecord.quantity = 10, price = 1500\<rparr>"

definition infyNew :: TradeRecord where
  "infyNew = \<lparr>tradeId = ''T7'', TradeRecord.symbol = ''INFY'', TradeRecord.isin = ''INE009A01021'',
            tradeDate = 20000 * msPerDay, TradeRecord.exchange = ''NSE'', tradeType = Buy,
            TradeRecord.quantity = 5, price = 1600\<rparr>"

definition toStringBuy :: TradeRecord where
  "toStringBuy = \<lparr>tradeId = ''T10'', TradeRecord.symbol = ''toString'', TradeRecord.isin = [],
            tradeDate = 19600 * msPerDay, TradeRecord.exchange = ''NSE'', tradeType = Buy,
            TradeRecord.quantity = 10, price = 1500\<rparr>"

definition toStringHolding :: Holding where
  "toStringHolding = hd (holdings (analyzePortfolio compareCodeUnits (20108 * msPerDay) [toStringBuy]))"

definition infyQuotes :: "string \<rightharpoonup> NseQuote" where
  "infyQuotes = [''INFY'' \<mapsto> \<lparr>lastPrice = 1400\<rparr>]"

definition infyHolding :: Holding where
  "infyHolding = hd (holdings (analyzePortfolio compareCodeUnits (20108 * msPerDay) [infyOld, infyNew]))"

definition colonBuy :: TradeRecord where
  "colonBuy = \<lparr>tradeId = ''T8'', TradeRecord.symbol = ''A:B'', TradeRecord.isin = [],
            tradeDate = 19700 * msPerDay, TradeRecord.exchange = ''C'', tradeType = Buy,
            TradeRecord.quantity = 10, price = 100\<rparr>"

definition colonSell :: TradeRecord where
  "colonSell = \<lparr>tradeId = ''T9'', TradeRecord.symbol = ''A'', TradeRecord.isin = [],
            tradeDate = 19710 * msPerDay, TradeRecord.exchange = ''B:C'', tradeType = Sell,
            TradeRecord.quantity = 4, price = 100\<rparr>"


text \<open>
  Trades of the scenario's stock with quantities around \<open>2^53 = 9007199254740992\<close>, and
  two more trades of the colliding pairs: a sell of all that was bought of the first
  pair, and a buy of the second pair.
\<close>

definition roundBuy1 :: TradeRecord where
  "roundBuy1 = buy1\<lparr>TradeRecord.quantity := 1\<rparr>"

definition roundBuy2 :: TradeRecord where
  "roundBuy2 = buy2\<lparr>TradeRecord.quantity := 9007199254740994\<rparr>"

definition roundSell1 :: TradeRecord where
  "roundSell1 = sell1\<lparr>TradeRecord.quantity := 9007199254740994\<rparr>"

definition roundSell2 :: TradeRecord where
  "roundSell2 = \<lparr>tradeId = ''T4'', TradeRecord.symbol = ''RELIANCE'', TradeRecord.isin = ''INE002A01018'',
            tradeDate = 19790 * msPerDay, TradeRecord.exchange = ''NSE'', tradeType = Sell,
            TradeRecord.quantity = 1, price = 2700\<rparr>"

definition colonSellAll :: TradeRecord where
  "colonSellAll = \<lparr>tradeId = ''T11'', TradeRecord.symbol = ''A:B'', TradeRecord.isin = [],
            tradeDate = 19705 * msPerDay, TradeRecord.exchange = ''C'', tradeType = Sell,
            TradeRecord.quantity = 10, price = 100\<rparr>"

definition colonBuyOther :: TradeRecord where
  "colonBuyOther = \<lparr>tradeId = ''T12'', TradeRecord.symbol = ''A'', TradeRecord.isin = [],
            tradeDate = 19710 * msPerDay, TradeRecord.exchange = ''B:C'', tradeType = Buy,
            TradeRecord.quantity = 5, price = 100\<rparr>"


section \<open>The defining equations of the engine in exact arithmetic\<close>

lemma fifoLoop_simps [simp]:
  "fifoLoop [] remainingToSell = ([], [], remainingToSell)"
  "fifoLoop (lot # rest) remainingToSell =
     (if remainingToSell > 0 then
        (if HoldingLot.quantity lot \<le> remainingToSell then
           (case fifoLoop rest (remainingToSell - HoldingLot.quantity lot) of
              (rest', consumed, r) \<Rightarrow>
                (lot\<lparr>HoldingLot.quantity := 0\<rparr> # rest',
                 \<lparr>HoldingLot.quantity = HoldingLot.quantity lot,
                  HoldingLot.purchaseDate = HoldingLot.purchaseDate lot,
                  HoldingLot.purchasePrice = HoldingLot.purchasePrice lot\<rparr> # consumed, r))
         else
           (case fifoLoop rest 0 of
              (rest', consumed, r) \<Rightarrow>
                (lot\<lparr>HoldingLot.quantity := HoldingLot.quantity lot - remainingToSell\<rparr> # rest',
                 \<lparr>HoldingLot.quantity = remainingToSell,
                  HoldingLot.purchaseDate = HoldingLot.purchaseDate lot,
                  HoldingLot.purchasePrice = HoldingLot.purchasePrice lot\<rparr> # consumed, r)))
      else (lot # rest, [], remainingToSell))"
  by (simp_all add: fifoLoop_def)

lemma applyFifoSell_unfold:
  "applyFifoSell now lots0 sellQuantity =
     (case fifoLoop lots0 sellQuantity of
        (lots', consumed, remainingToSell) \<Rightarrow>
          (let warnings = (if remainingToSell > 0 then [remainingToSell] else []);
               oldest0 = (case consumed of [] \<Rightarrow> now | c # _ \<Rightarrow> HoldingLot.purchaseDate c);
               totals = foldl (\<lambda>(totalValue, totalQty, oldestDate) c.
                   (totalValue + HoldingLot.quantity c * HoldingLot.purchasePrice c,
                    totalQty + HoldingLot.quantity c,
                    if HoldingLot.purchaseDate c < oldestDate then HoldingLot.purchaseDate c
                    else oldestDate))
                 (0, 0, oldest0) consumed
           in (case totals of
                 (totalValue, totalQty, oldestDate) \<Rightarrow>
                   (lots',
                    \<lparr>consumedLots = consumed,
                     FifoSellResult.avgPurchasePrice =
                       (if totalQty > 0 then totalValue / totalQty else 0),
                     FifoSellResult.oldestPurchaseDate = oldestDate\<rparr>,
                    warnings))))"
  by (simp only: applyFifoSell_def applyFifoSellWith_def fifoLoop_def)

lemma processTrade_unfold:
  "processTrade now st trade =
     (case st of (acc0, gains, warnings) \<Rightarrow>
        (let acc = (if TradeRecord.isin trade \<noteq> [] \<and> HoldingAccumulator.isin acc0 = []
                    then acc0\<lparr>HoldingAccumulator.isin := TradeRecord.isin trade\<rparr> else acc0)
         in (case tradeType trade of
               Buy \<Rightarrow>
                 (acc\<lparr>HoldingAccumulator.lots := HoldingAccumulator.lots acc @
                    [\<lparr>HoldingLot.quantity = TradeRecord.quantity trade,
                      HoldingLot.purchaseDate = tradeDate trade,
                      HoldingLot.purchasePrice = TradeRecord.price trade\<rparr>]\<rparr>,
                  gains, warnings)
             | Sell \<Rightarrow>
                 (case applyFifoSell now (HoldingAccumulator.lots acc) (TradeRecord.quantity trade) of
                    (lots', fifoResult, w) \<Rightarrow>
                      (acc\<lparr>HoldingAccumulator.lots := removeEmptyLots lots'\<rparr>,
                       gains @ sellEntries trade (consumedLots fifoResult),
                       warnings @ w)))))"
  by (simp only: processTrade_def processTradeWith_def applyFifoSell_def)

lemma processTradesForHolding_unfold:
  "processTradesForHolding now trades =
     (case sortTradesChronologically trades of
        [] \<Rightarrow> (\<lparr>accumulator = None, HoldingWithGains.realizedGains = []\<rparr>, [])
      | firstTrade # _ \<Rightarrow>
          (case foldl (processTrade now)
                  (\<lparr>HoldingAccumulator.symbol = TradeRecord.symbol firstTrade,
                    HoldingAccumulator.isin = TradeRecord.isin firstTrade,
                    HoldingAccumulator.exchange = TradeRecord.exchange firstTrade,
                    HoldingAccumulator.lots = []\<rparr>, [], [])
                  (sortTradesChronologically trades) of
             (acc, gains, warnings) \<Rightarrow>
               (if HoldingAccumulator.lots acc = []
                then (\<lparr>accumulator = None, HoldingWithGains.realizedGains = gains\<rparr>, warnings)
                else (\<lparr>accumulator = Some acc, HoldingWithGains.realizedGains = gains\<rparr>, warnings))))"
  by (simp only: processTradesForHolding_def processTradesForHoldingWith_def processTrade_def)

lemma processGroup_unfold:
  "processGroup now st groupTrades =
     (case st of (hs, allRealizedGains) \<Rightarrow>
        (let r = fst (processTradesForHolding now groupTrades);
             allRealizedGains' = allRealizedGains @ HoldingWithGains.realizedGains r
         in (case accumulator r of
               None \<Rightarrow> (hs, allRealizedGains')
             | Some acc \<Rightarrow> (hs @ [makeHolding now acc], allRealizedGains'))))"
  by (simp only: processGroup_def processGroupWith_def processTradesForHolding_def)

lemma analyzePortfolio_unfold:
  "analyzePortfolio localeCompare now trades =
     (if trades = [] then
        \<lparr>holdings = [],
         PortfolioAnalysis.realizedGains =
           \<lparr>stcg = 0, stcl = 0, ltcg = 0, ltcl = 0, netShortTerm = 0, netLongTerm = 0,
            entries = []\<rparr>\<rparr>
      else
        (case foldl (processGroup now) ([], []) (map snd (groupTradesByHolding trades)) of
           (hs, allRealizedGains) \<Rightarrow>
             \<lparr>holdings =
                sortByCompare (\<lambda>a b. localeCompare (Holding.symbol a) (Holding.symbol b)) hs,
              PortfolioAnalysis.realizedGains = summarizeRealizedGains now allRealizedGains\<rparr>))"
  by (simp only: analyzePortfolio_def analyzePortfolioWith_def processGroup_def)


section \<open>Properties of the price overlay and the opportunity filters\<close>

text \<open>
  The overlay keeps the list's length and order, and a Holding whose symbol has no quote
  and is not the name of a member of \<open>Object.prototype\<close> comes back equal to itself in
  every field.
\<close>

lemma overlay_frame_other_names:
  "length (updateHoldingsWithPrices now quotes hs) = length hs \<and>
   (\<forall>i < length hs.
      quotes (Holding.symbol (hs ! i)) = None \<and>
      Holding.symbol (hs ! i) \<notin> set objectPrototypeNames \<longrightarrow>
         updateHoldingsWithPrices now quotes hs ! i = hs ! i)"
  by (simp add: updateHoldingsWithPrices_def updateHoldingWithPrice_def getProperty_def)

text \<open>
  C7.  A Holding of the stock with symbol \<open>toString\<close>, as the calculator returns it
  from one buy, and a price mapping with a quote for another stock only.  The symbol has
  no quote, yet the overlay does not return the Holding unchanged: the lookup finds the
  method \<open>toString\<close> that every object inherits, the test \<open>!quote\<close> lets it pass, and the
  Holding comes back with \<open>currentPrice\<close> still undefined, \<open>pnl\<close>, \<open>pnlPercent\<close>, \<open>stPnl\<close>
  and \<open>ltPnl\<close> set to \<open>NaN\<close>, \<open>isLoss\<close> set to false and the split quantities filled in.
\<close>

theorem overlay_inherited_member:
  "Holding.symbol toStringHolding = ''toString'' \<and>
   exampleQuotes (Holding.symbol toStringHolding) = None \<and>
   pnl toStringHolding = None \<and> isLoss toStringHolding = None \<and>
   Holding.ltQuantity toStringHolding = None \<and>
   map currentPrice (updateHoldingsWithPrices (20108 * msPerDay) exampleQuotes [toStringHolding]) =
     [None] \<and>
   map pnl (updateHoldingsWithPrices (20108 * msPerDay) exampleQuotes [toStringHolding]) =
     [Some NaN] \<and>
   map pnlPercent (updateHoldingsWithPrices (20108 * msPerDay) exampleQuotes [toStringHolding]) =
     [Some NaN] \<and>
   map isLoss (updateHoldingsWithPrices (20108 * msPerDay) exampleQuotes [toStringHolding]) =
     [Some False] \<and>
   map Holding.ltQuantity (updateHoldingsWithPrices (20108 * msPerDay) exampleQuotes [toStringHolding]) =
     [Some (Number 10)] \<and>
   map Holding.ltPnl (updateHoldingsWithPrices (20108 * msPerDay) exampleQuotes [toStringHolding]) =
     [Some NaN] \<and>
   updateHoldingsWithPrices (20108 * msPerDay) exampleQuotes [toStringHolding] \<noteq> [toStringHolding]"
  by code_simp

lemma jsCompare_iff:
  "jsGreater v c \<longleftrightarrow> (\<exists>x. v = Number x \<and> c < x)"
  "jsLess v c \<longleftrightarrow> (\<exists>x. v = Number x \<and> x < c)"
  by (cases v; simp)+

text \<open>
  C8.  A Holding is in the short-term-loss set exactly when it is in the list, its
  short-term quantity is present and positive and its short-term P&L is present and
  negative; the long-term set is the same with the long-term fields.  The two tests are
  independent, so a Holding whose two sub-aggregates are both at a loss is in both sets.
\<close>

theorem opportunities_iff:
  "(h \<in> set (stclOpportunities hs) \<longleftrightarrow>
      h \<in> set hs \<and>
      (\<exists>q p. Holding.stQuantity h = Some (Number q) \<and> Holding.stPnl h = Some (Number p) \<and>
             q > 0 \<and> p < 0)) \<and>
   (h \<in> set (ltclOpportunities hs) \<longleftrightarrow>
      h \<in> set hs \<and>
      (\<exists>q p. Holding.ltQuantity h = Some (Number q) \<and> Holding.ltPnl h = Some (Number p) \<and>
             q > 0 \<and> p < 0)) \<and>
   (h \<in> set hs \<and>
    Holding.stQuantity h = Some (Number sq) \<and> Holding.stPnl h = Some (Number sp) \<and>
    sq > 0 \<and> sp < 0 \<and>
    Holding.ltQuantity h = Some (Number lq) \<and> Holding.ltPnl h = Some (Number lp) \<and>
    lq > 0 \<and> lp < 0
      \<longrightarrow> h \<in> set (stclOpportunities hs) \<and> h \<in> set (ltclOpportunities hs))"
  by (auto simp: stclOpportunities_def ltclOpportunities_def jsCompare_iff split: option.splits)

theorem opportunities_iff_witness:
  "exampleHolding \<in> set [exampleHolding] \<and>
   Holding.stQuantity exampleHolding = Some (Number 5) \<and>
   Holding.stPnl exampleHolding = Some (Number (- 1000)) \<and>
   Holding.ltQuantity exampleHolding = Some (Number 10) \<and>
   Holding.ltPnl exampleHolding = Some (Number (- 1000)) \<and>
   exampleHolding \<in> set (stclOpportunities [exampleHolding]) \<and>
   exampleHolding \<in> set (ltclOpportunities [exampleHolding])"
proof -
  have f: "Holding.stQuantity exampleHolding = Some (Number 5)"
    "Holding.stPnl exampleHolding = Some (Number (- 1000))"
    "Holding.ltQuantity exampleHolding = Some (Number 10)"
    "Holding.ltPnl exampleHolding = Some (Number (- 1000))"
    by (simp_all add: exampleHolding_def)
  show ?thesis
    using opportunities_iff[of exampleHolding "[exampleHolding]" 5 "- 1000" 10 "- 1000"] f
    by simp
qed


section \<open>Properties of the trade merger\<close>

lemma addUnique_fold_keys:
  "\<forall>(k, t)\<in>set acc. k = tradeId t \<Longrightarrow> \<forall>(k, t)\<in>set (foldl addUnique acc ts). k = tradeId t"
proof (induction ts arbitrary: acc)
  case Nil
  then show ?case by simp
next
  case (Cons t ts)
  have "\<forall>(k, u)\<in>set (addUnique acc t). k = tradeId u"
    using Cons.prems by (auto simp: addUnique_def)
  from Cons.IH[OF this] show ?case by simp
qed

lemma addUnique_fold_distinct:
  "distinct (map fst acc) \<Longrightarrow> distinct (map fst (foldl addUnique acc ts))"
  by (induction ts arbitrary: acc) (auto simp: addUnique_def)

lemma addUnique_fold_set:
  "set (map fst (foldl addUnique acc ts)) = set (map fst acc) \<union> tradeId ` set ts"
proof (induction ts arbitrary: acc)
  case Nil
  show ?case by simp
next
  case (Cons t ts)
  show ?case unfolding foldl_Cons Cons.IH by (auto simp: addUnique_def)
qed

lemma addUnique_fold_first:
  "r \<in> snd ` set (foldl addUnique acc ts) \<Longrightarrow>
     r \<in> snd ` set acc \<or>
     (tradeId r \<notin> fst ` set acc \<and> find (\<lambda>t. tradeId t = tradeId r) ts = Some r)"
proof (induction ts arbitrary: acc)
  case Nil
  then show ?case by simp
next
  case (Cons t ts)
  from Cons.prems have "r \<in> snd ` set (foldl addUnique (addUnique acc t) ts)" by simp
  from Cons.IH[OF this]
  consider (old) "r \<in> snd ` set (addUnique acc t)"
    | (new) "tradeId r \<notin> fst ` set (addUnique acc t)" "find (\<lambda>t. tradeId t = tradeId r) ts = Some r"
    by blast
  then show ?case
  proof cases
    case old
    then show ?thesis by (auto simp: addUnique_def split: if_splits)
  next
    case new
    have "tradeId t \<in> fst ` set (addUnique acc t)" by (auto simp: addUnique_def)
    with new(1) have ne: "tradeId t \<noteq> tradeId r" by metis
    have "tradeId r \<notin> fst ` set acc" using new(1) by (auto simp: addUnique_def split: if_splits)
    with ne new(2) show ?thesis by simp
  qed
qed

lemma addUnique_fold_absorb:
  "tradeId ` set ts \<subseteq> set (map fst acc) \<Longrightarrow> foldl addUnique acc ts = acc"
  by (induction ts arbitrary: acc) (auto simp: addUnique_def)

lemma addUnique_fold_ids:
  "map tradeId (map snd (foldl addUnique [] ts)) = map fst (foldl addUnique [] ts)"
  using addUnique_fold_keys[of "[]" ts] by (auto simp: map_eq_conv)

text \<open>
  C4.  The merge returns one record for each tradeId of the flattened input: the ids of
  the result are distinct and are exactly the ids that occur; every returned record is
  the first record with its id in input order (sources left to right, records top to
  bottom), whatever later records with the same id hold; the result is in ascending
  order of tradeDate; and passing a source twice gives the result of passing it once.
\<close>

theorem mergeTradebooks_dedup_sorted:
  "distinct (map tradeId (mergeTradebooks tradeLists)) \<and>
   set (map tradeId (mergeTradebooks tradeLists)) = set (map tradeId (concat tradeLists)) \<and>
   (\<forall>r\<in>set (mergeTradebooks tradeLists).
       find (\<lambda>t. tradeId t = tradeId r) (concat tradeLists) = Some r) \<and>
   sorted (map tradeDate (mergeTradebooks tradeLists)) \<and>
   mergeTradebooks [A, A] = mergeTradebooks [A]"
proof -
  let ?m = "foldl addUnique [] (concat tradeLists)"
  have ids: "map tradeId (map snd ?m) = map fst ?m" by (rule addUnique_fold_ids)
  have d: "distinct (map tradeId (map snd ?m))"
    unfolding ids by (rule addUnique_fold_distinct) simp
  have "mset (map tradeId (sort_key tradeDate (map snd ?m))) = mset (map tradeId (map snd ?m))"
    by (metis mset_map mset_sort)
  then have c1: "distinct (map tradeId (mergeTradebooks tradeLists))"
    using d unfolding mergeTradebooks_def Let_def by (metis distinct_count_atmost_1 set_mset_mset)
  have c2: "set (map tradeId (mergeTradebooks tradeLists)) = set (map tradeId (concat tradeLists))"
  proof -
    have "set (map tradeId (mergeTradebooks tradeLists)) = set (map tradeId (map snd ?m))"
      by (simp add: mergeTradebooks_def image_image)
    also have "\<dots> = set (map fst ?m)" unfolding ids ..
    also have "\<dots> = set (map tradeId (concat tradeLists))"
      unfolding addUnique_fold_set by simp
    finally show ?thesis .
  qed
  have c3: "\<forall>r\<in>set (mergeTradebooks tradeLists).
       find (\<lambda>t. tradeId t = tradeId r) (concat tradeLists) = Some r"
  proof
    fix r assume "r \<in> set (mergeTradebooks tradeLists)"
    then have "r \<in> snd ` set ?m" by (simp add: mergeTradebooks_def)
    from addUnique_fold_first[OF this] show "find (\<lambda>t. tradeId t = tradeId r) (concat tradeLists) = Some r"
      by simp
  qed
  have c4: "sorted (map tradeDate (mergeTradebooks tradeLists))"
    by (simp add: mergeTradebooks_def)
  have "foldl addUnique [] (A @ A) = foldl addUnique [] A"
    unfolding foldl_append by (rule addUnique_fold_absorb) (simp only: addUnique_fold_set, simp)
  then have c5: "mergeTradebooks [A, A] = mergeTradebooks [A]"
    by (simp add: mergeTradebooks_def)
  from c1 c2 c3 c4 c5 show ?thesis by blast
qed

theorem mergeTradebooks_dedup_sorted_witness:
  "mergeTradebooks [[buy2, buy1], [buy1Repriced, sell1]] = [buy1, buy2, sell1] \<and>
   buy1 \<in> set (mergeTradebooks [[buy2, buy1], [buy1Repriced, sell1]]) \<and>
   find (\<lambda>t. tradeId t = tradeId buy1) (concat [[buy2, buy1], [buy1Repriced, sell1]]) = Some buy1"
proof -
  have m: "mergeTradebooks [[buy2, buy1], [buy1Repriced, sell1]] = [buy1, buy2, sell1]"
    by (simp add: mergeTradebooks_def addUnique_def buy1_def buy2_def sell1_def buy1Repriced_def
        msPerDay_def)
  then have "buy1 \<in> set (mergeTradebooks [[buy2, buy1], [buy1Repriced, sell1]])" by simp
  with mergeTradebooks_dedup_sorted[of "[[buy2, buy1], [buy1Repriced, sell1]]"] m
  show ?thesis by blast
qed


section \<open>Properties of the realized-gains summary\<close>

lemma buckets_fold:
  "foldl (\<lambda>(sg, sl, lg, ll) entry.
              if RealizedGainEntry.classification entry = SHORT_TERM then
                (if gainLoss entry \<ge> 0 then (sg + gainLoss entry, sl, lg, ll)
                 else (sg, sl + \<bar>gainLoss entry\<bar>, lg, ll))
              else
                (if gainLoss entry \<ge> 0 then (sg, sl, lg + gainLoss entry, ll)
                 else (sg, sl, lg, ll + \<bar>gainLoss entry\<bar>)))
       (a, b, c, d) es =
     (a + specBucket SHORT_TERM True es, b + specBucket SHORT_TERM False es,
      c + specBucket LONG_TERM True es, d + specBucket LONG_TERM False es)"
proof (induction es arbitrary: a b c d)
  case Nil
  show ?case by (simp add: specBucket_def)
next
  case (Cons e es)
  show ?case
  proof (cases "RealizedGainEntry.classification e")
    case SHORT_TERM
    then show ?thesis by (simp add: Cons.IH specBucket_def)
  next
    case LONG_TERM
    then show ?thesis by (simp add: Cons.IH specBucket_def)
  qed
qed

lemma specBucket_nonneg: "0 \<le> specBucket c p es"
  unfolding specBucket_def by (intro sum_list_nonneg) auto

text \<open>
  C6.  The summary the code computes is the reference summary for the fiscal-year start
  the code derives from the clock (April 1 of this year, or of last year from January to
  March): the entries kept are those sold on or after that date, in their order; the
  four buckets are non-negative; each net is gain minus loss.
\<close>

theorem summarizeRealizedGains_refines:
  "summarizeRealizedGains now es = specSummary (getCurrentFyStartDate now) es \<and>
   entries (summarizeRealizedGains now es) = filter (\<lambda>e. getCurrentFyStartDate now \<le> sellDate e) es \<and>
   0 \<le> stcg (summarizeRealizedGains now es) \<and> 0 \<le> stcl (summarizeRealizedGains now es) \<and>
   0 \<le> ltcg (summarizeRealizedGains now es) \<and> 0 \<le> ltcl (summarizeRealizedGains now es) \<and>
   netShortTerm (summarizeRealizedGains now es) =
     stcg (summarizeRealizedGains now es) - stcl (summarizeRealizedGains now es) \<and>
   netLongTerm (summarizeRealizedGains now es) =
     ltcg (summarizeRealizedGains now es) - ltcl (summarizeRealizedGains now es) \<and>
   getCurrentFyStartDate now =
     newDate (if getMonth now < 3 then getFullYear now - 1 else getFullYear now) 3 1"
proof -
  have eq: "summarizeRealizedGains now es = specSummary (getCurrentFyStartDate now) es"
    by (simp add: summarizeRealizedGains_def specSummary_def Let_def buckets_fold)
  show ?thesis
    unfolding eq
    by (simp add: specSummary_def Let_def specBucket_nonneg getCurrentFyStartDate_def)
qed

theorem summarizeRealizedGains_refines_witness:
  "getCurrentFyStartDate (20108 * msPerDay + 3600000) = 19814 * msPerDay \<and>
   summarizeRealizedGains (20108 * msPerDay + 3600000) exampleGains =
     \<lparr>stcg = 0, stcl = 1000, ltcg = 0, ltcl = 2000, netShortTerm = - 1000, netLongTerm = - 2000,
      entries = tl exampleGains\<rparr>"
proof -
  have fy: "getCurrentFyStartDate (20108 * msPerDay + 3600000) = 19814 * msPerDay"
    by code_simp
  have "specSummary (19814 * msPerDay) exampleGains =
     \<lparr>stcg = 0, stcl = 1000, ltcg = 0, ltcl = 2000, netShortTerm = - 1000, netLongTerm = - 2000,
      entries = tl exampleGains\<rparr>"
    by (simp add: specSummary_def specBucket_def exampleGains_def msPerDay_def)
  with summarizeRealizedGains_refines[of "20108 * msPerDay + 3600000" exampleGains] fy
  show ?thesis by simp
qed


section \<open>Properties of the FIFO engine\<close>

lemma foldl_quantity_sum:
  "foldl (\<lambda>s lot. s + HoldingLot.quantity lot) a ls = a + sum_list (map HoldingLot.quantity ls)"
  by (induction ls arbitrary: a) (simp_all add: add.assoc)

lemma calculateTotalQuantity_sum: "calculateTotalQuantity ls = sum_list (map HoldingLot.quantity ls)"
  by (simp add: calculateTotalQuantity_def foldl_quantity_sum)

lemma fifoLoop_nonpos: "r \<le> 0 \<Longrightarrow> fifoLoop ls r = (ls, [], r)"
  by (cases ls) simp_all

lemma fifoLoop_facts:
  assumes "\<forall>l\<in>set ls. 0 \<le> HoldingLot.quantity l" and "0 \<le> r"
    and "fifoLoop ls r = (ls', cs, r')"
  shows "(\<forall>l\<in>set ls'. 0 \<le> HoldingLot.quantity l)
       \<and> sum_list (map HoldingLot.quantity cs) = min r (sum_list (map HoldingLot.quantity ls))
       \<and> sum_list (map HoldingLot.quantity ls') = sum_list (map HoldingLot.quantity ls) - min r (sum_list (map HoldingLot.quantity ls))
       \<and> r' = r - min r (sum_list (map HoldingLot.quantity ls))
       \<and> map HoldingLot.purchaseDate ls' = map HoldingLot.purchaseDate ls
       \<and> map HoldingLot.purchasePrice ls' = map HoldingLot.purchasePrice ls"
  using assms
proof (induction ls arbitrary: r ls' cs r')
  case Nil
  then show ?case by auto
next
  case (Cons lot rest)
  have nn: "0 \<le> sum_list (map HoldingLot.quantity rest)"
    using Cons.prems(1) by (intro sum_list_nonneg) auto
  show ?case
  proof (cases "r > 0")
    case False
    with Cons.prems have "r = 0" by simp
    with Cons.prems nn show ?thesis by (auto simp: min_def)
  next
    case rpos: True
    show ?thesis
    proof (cases "HoldingLot.quantity lot \<le> r")
      case True
      obtain a b c where rec: "fifoLoop rest (r - HoldingLot.quantity lot) = (a, b, c)"
        by (cases "fifoLoop rest (r - HoldingLot.quantity lot)") auto
      have ih: "(\<forall>l\<in>set a. 0 \<le> HoldingLot.quantity l)
       \<and> sum_list (map HoldingLot.quantity b) = min (r - HoldingLot.quantity lot) (sum_list (map HoldingLot.quantity rest))
       \<and> sum_list (map HoldingLot.quantity a) = sum_list (map HoldingLot.quantity rest) - min (r - HoldingLot.quantity lot) (sum_list (map HoldingLot.quantity rest))
       \<and> c = (r - HoldingLot.quantity lot) - min (r - HoldingLot.quantity lot) (sum_list (map HoldingLot.quantity rest))
       \<and> map HoldingLot.purchaseDate a = map HoldingLot.purchaseDate rest
       \<and> map HoldingLot.purchasePrice a = map HoldingLot.purchasePrice rest"
        using Cons.IH[OF _ _ rec] Cons.prems(1) True by simp
      from Cons.prems(3) rpos True rec
      have eqs: "ls' = lot\<lparr>HoldingLot.quantity := 0\<rparr> # a"
        "cs = \<lparr>HoldingLot.quantity = HoldingLot.quantity lot,
                  HoldingLot.purchaseDate = HoldingLot.purchaseDate lot,
                  HoldingLot.purchasePrice = HoldingLot.purchasePrice lot\<rparr> # b" "r' = c"
        by simp_all
      show ?thesis using ih Cons.prems(1) unfolding eqs by (auto simp: min_def)
    next
      case False
      have rec: "fifoLoop rest 0 = (rest, [], 0)" by (simp add: fifoLoop_nonpos)
      from Cons.prems(3) rpos False rec
      have eqs: "ls' = lot\<lparr>HoldingLot.quantity := HoldingLot.quantity lot - r\<rparr> # rest"
        "cs = [\<lparr>HoldingLot.quantity = r,
                  HoldingLot.purchaseDate = HoldingLot.purchaseDate lot,
                  HoldingLot.purchasePrice = HoldingLot.purchasePrice lot\<rparr>]" "r' = 0"
        by simp_all
      show ?thesis using False nn Cons.prems(1) unfolding eqs by (auto simp: min_def)
    qed
  qed
qed

lemma sellEntries_quantities:
  "map RealizedGainEntry.quantity (sellEntries t cs) = map HoldingLot.quantity cs"
  by (simp add: sellEntries_def Let_def)

lemma removeEmptyLots_sum:
  "\<forall>l\<in>set ls. 0 \<le> HoldingLot.quantity l \<Longrightarrow>
     sum_list (map HoldingLot.quantity (removeEmptyLots ls)) = sum_list (map HoldingLot.quantity ls)"
  by (induction ls) (auto simp: removeEmptyLots_def)

lemma removeEmptyLots_pos: "\<forall>l\<in>set (removeEmptyLots ls). 0 < HoldingLot.quantity l"
  by (simp add: removeEmptyLots_def)

text \<open>What one step does to the lots, the gains and the warnings.\<close>

lemma processTrade_buy:
  "tradeType t = Buy \<Longrightarrow> processTrade now (acc, gains, ws) t = (acc', gains', ws') \<Longrightarrow>
     HoldingAccumulator.lots acc' = HoldingAccumulator.lots acc @
        [\<lparr>HoldingLot.quantity = TradeRecord.quantity t, HoldingLot.purchaseDate = tradeDate t,
          HoldingLot.purchasePrice = TradeRecord.price t\<rparr>] \<and> gains' = gains \<and> ws' = ws"
  by (auto simp: processTrade_unfold Let_def split: if_splits)

lemma processTrade_sell:
  "tradeType t = Sell \<Longrightarrow> processTrade now (acc, gains, ws) t = (acc', gains', ws') \<Longrightarrow>
     HoldingAccumulator.lots acc' =
        removeEmptyLots (fst (fifoLoop (HoldingAccumulator.lots acc) (TradeRecord.quantity t))) \<and>
     gains' = gains @ sellEntries t (fst (snd (fifoLoop (HoldingAccumulator.lots acc) (TradeRecord.quantity t)))) \<and>
     ws' = ws @ (if snd (snd (fifoLoop (HoldingAccumulator.lots acc) (TradeRecord.quantity t))) > 0
                 then [snd (snd (fifoLoop (HoldingAccumulator.lots acc) (TradeRecord.quantity t)))] else [])"
  apply (simp add: processTrade_unfold Let_def split: prod.splits if_splits)
  apply (auto simp: applyFifoSell_unfold Let_def split: prod.splits if_splits)
  done

lemma processTrade_meta:
  "processTrade now (acc, gains, ws) t = (acc', gains', ws') \<Longrightarrow>
     HoldingAccumulator.symbol acc' = HoldingAccumulator.symbol acc \<and>
     HoldingAccumulator.exchange acc' = HoldingAccumulator.exchange acc"
  by (cases "tradeType t") (auto simp: processTrade_unfold Let_def split: prod.splits if_splits)

lemma processTrade_positive:
  assumes "0 < TradeRecord.quantity t" and "\<forall>l\<in>set (HoldingAccumulator.lots acc). 0 < HoldingLot.quantity l"
    and "processTrade now (acc, gains, ws) t = (acc', gains', ws')"
  shows "\<forall>l\<in>set (HoldingAccumulator.lots acc'). 0 < HoldingLot.quantity l"
proof (cases "tradeType t")
  case Buy
  from processTrade_buy[OF Buy assms(3)] assms(1,2) show ?thesis by auto
next
  case Sell
  from processTrade_sell[OF Sell assms(3)] show ?thesis by (simp add: removeEmptyLots_pos)
qed

lemma foldl_processTrade_positive:
  assumes "\<forall>u\<in>set ts. 0 < TradeRecord.quantity u"
    and "\<forall>l\<in>set (HoldingAccumulator.lots acc). 0 < HoldingLot.quantity l"
    and "foldl (processTrade now) (acc, gains, ws) ts = (acc', gains', ws')"
  shows "\<forall>l\<in>set (HoldingAccumulator.lots acc'). 0 < HoldingLot.quantity l"
  using assms
proof (induction ts arbitrary: acc gains ws)
  case Nil
  then show ?case by simp
next
  case (Cons t ts)
  obtain a g w where st: "processTrade now (acc, gains, ws) t = (a, g, w)"
    by (cases "processTrade now (acc, gains, ws) t") auto
  have "\<forall>l\<in>set (HoldingAccumulator.lots a). 0 < HoldingLot.quantity l"
    using processTrade_positive[OF _ Cons.prems(2) st] Cons.prems(1) by simp
  moreover have "foldl (processTrade now) (a, g, w) ts = (acc', gains', ws')"
    using Cons.prems(3) st by simp
  ultimately show ?case using Cons.IH Cons.prems(1) by simp
qed


lemma processTradesForHolding_result:
  assumes "sortTradesChronologically trades = first # rest"
    and "foldl (processTrade now) (initAccumulator first, [], []) (first # rest) = (acc, g, w)"
  shows "processTradesForHolding now trades =
     (if HoldingAccumulator.lots acc = []
      then (\<lparr>accumulator = None, HoldingWithGains.realizedGains = g\<rparr>, w)
      else (\<lparr>accumulator = Some acc, HoldingWithGains.realizedGains = g\<rparr>, w))"
  unfolding processTradesForHolding_unfold assms(1) list.case
  using assms(2) unfolding initAccumulator_def by (simp only: prod.case)


lemma sum_filter_mset_cong:
  "mset xs = mset ys \<Longrightarrow> sum_list (map g (filter P xs)) = sum_list (map (g :: 'a \<Rightarrow> rat) (filter P ys))"
proof -
  assume "mset xs = mset ys"
  then have "mset (map g (filter P xs)) = mset (map g (filter P ys))"
    by (metis mset_filter mset_map)
  then show ?thesis by (metis sum_mset_sum_list)
qed

lemma totals_sorted:
  "totalBought (sortTradesChronologically ts) = totalBought ts"
  "totalSold (sortTradesChronologically ts) = totalSold ts"
  unfolding totalBought_def totalSold_def sortTradesChronologically_def
  by (rule sum_filter_mset_cong, simp)+

lemma processTrade_balance:
  assumes "0 < TradeRecord.quantity t"
    and "\<forall>l\<in>set (HoldingAccumulator.lots acc). 0 < HoldingLot.quantity l"
    and "processTrade now (acc, gains, ws) t = (acc', gains', ws')"
  shows "sum_list (map HoldingLot.quantity (HoldingAccumulator.lots acc')) - sum_list ws' =
         sum_list (map HoldingLot.quantity (HoldingAccumulator.lots acc)) - sum_list ws
           + totalBought [t] - totalSold [t]"
    and "(\<forall>w\<in>set ws. 0 < w) \<longrightarrow> (\<forall>w\<in>set ws'. 0 < w)"
proof -
  have nn: "\<forall>l\<in>set (HoldingAccumulator.lots acc). 0 \<le> HoldingLot.quantity l"
    using assms(2) by (simp add: less_imp_le)
  show "sum_list (map HoldingLot.quantity (HoldingAccumulator.lots acc')) - sum_list ws' =
         sum_list (map HoldingLot.quantity (HoldingAccumulator.lots acc)) - sum_list ws
           + totalBought [t] - totalSold [t]"
  proof (cases "tradeType t")
    case Buy
    with processTrade_buy[OF Buy assms(3)] show ?thesis
      by (simp add: totalBought_def totalSold_def)
  next
    case Sell
    obtain ls' cs r' where loop:
      "fifoLoop (HoldingAccumulator.lots acc) (TradeRecord.quantity t) = (ls', cs, r')"
      by (cases "fifoLoop (HoldingAccumulator.lots acc) (TradeRecord.quantity t)") auto
    note facts = fifoLoop_facts[OF nn less_imp_le[OF assms(1)] loop]
    note step = processTrade_sell[OF Sell assms(3), unfolded loop, simplified]
    have "0 \<le> r'" using facts by (simp add: min_def split: if_splits)
    then have "sum_list ws' = sum_list ws + r'" using step by auto
    moreover have "sum_list (map HoldingLot.quantity (HoldingAccumulator.lots acc')) =
        sum_list (map HoldingLot.quantity ls')"
      using step facts by (simp add: removeEmptyLots_sum)
    ultimately show ?thesis using facts Sell by (simp add: totalBought_def totalSold_def)
  qed
  show "(\<forall>w\<in>set ws. 0 < w) \<longrightarrow> (\<forall>w\<in>set ws'. 0 < w)"
  proof (cases "tradeType t")
    case Buy
    with processTrade_buy[OF Buy assms(3)] show ?thesis by simp
  next
    case Sell
    from processTrade_sell[OF Sell assms(3)] show ?thesis by auto
  qed
qed

lemma sum_list_positive:
  "ws \<noteq> [] \<Longrightarrow> \<forall>w\<in>set ws. 0 < (w :: rat) \<Longrightarrow> 0 < sum_list ws"
proof (induction ws)
  case Nil
  then show ?case by simp
next
  case (Cons w ws)
  have "0 \<le> sum_list ws" using Cons.prems(2) by (intro sum_list_nonneg) (simp add: less_imp_le)
  moreover have "0 < w" using Cons.prems(2) by simp
  ultimately show ?case by simp
qed

lemma totals_Cons:
  "totalBought (t # ts) = totalBought [t] + totalBought ts"
  "totalSold (t # ts) = totalSold [t] + totalSold ts"
  by (simp_all add: totalBought_def totalSold_def)

lemma foldl_processTrade_balance:
  assumes "\<forall>u\<in>set ts. 0 < TradeRecord.quantity u"
    and "\<forall>l\<in>set (HoldingAccumulator.lots acc). 0 < HoldingLot.quantity l"
    and "\<forall>w\<in>set ws. 0 < w"
    and "foldl (processTrade now) (acc, gains, ws) ts = (acc', gains', ws')"
  shows "sum_list (map HoldingLot.quantity (HoldingAccumulator.lots acc')) - sum_list ws' =
         sum_list (map HoldingLot.quantity (HoldingAccumulator.lots acc)) - sum_list ws
           + totalBought ts - totalSold ts \<and> (\<forall>w\<in>set ws'. 0 < w)"
  using assms
proof (induction ts arbitrary: acc gains ws)
  case Nil
  then show ?case by (simp add: totalBought_def totalSold_def)
next
  case (Cons t ts)
  obtain a g w where st: "processTrade now (acc, gains, ws) t = (a, g, w)"
    by (cases "processTrade now (acc, gains, ws) t") auto
  have tpos: "0 < TradeRecord.quantity t" using Cons.prems(1) by simp
  have p: "\<forall>l\<in>set (HoldingAccumulator.lots a). 0 < HoldingLot.quantity l"
    by (rule processTrade_positive[OF tpos Cons.prems(2) st])
  have b: "sum_list (map HoldingLot.quantity (HoldingAccumulator.lots a)) - sum_list w =
         sum_list (map HoldingLot.quantity (HoldingAccumulator.lots acc)) - sum_list ws
           + totalBought [t] - totalSold [t]"
    by (rule processTrade_balance(1)[OF tpos Cons.prems(2) st])
  have wp: "\<forall>x\<in>set w. 0 < x"
    using processTrade_balance(2)[OF tpos Cons.prems(2) st] Cons.prems(3) by simp
  have f: "foldl (processTrade now) (a, g, w) ts = (acc', gains', ws')"
    using Cons.prems(4) st by simp
  have tl: "\<forall>u\<in>set ts. 0 < TradeRecord.quantity u" using Cons.prems(1) by simp
  from Cons.IH[OF tl p wp f] b show ?case
    by (simp add: totals_Cons[of t ts])
qed

lemma foldl_processTrade_meta:
  "foldl (processTrade now) (acc, gains, ws) ts = (acc', gains', ws') \<Longrightarrow>
     HoldingAccumulator.symbol acc' = HoldingAccumulator.symbol acc \<and>
     HoldingAccumulator.exchange acc' = HoldingAccumulator.exchange acc"
proof (induction ts arbitrary: acc gains ws)
  case Nil
  then show ?case by simp
next
  case (Cons t ts)
  obtain a g w where st: "processTrade now (acc, gains, ws) t = (a, g, w)"
    by (cases "processTrade now (acc, gains, ws) t") auto
  with Cons.prems have "foldl (processTrade now) (a, g, w) ts = (acc', gains', ws')" by simp
  from Cons.IH[OF this] processTrade_meta[OF st] show ?case by simp
qed

text \<open>What a group's run returns, in terms of the state the loop ends in.\<close>

lemma processTradesForHolding_cases:
  obtains (empty) "trades = []" "processTradesForHolding now trades =
        (\<lparr>accumulator = None, HoldingWithGains.realizedGains = []\<rparr>, [])"
  | (run) first rest acc g w where "sortTradesChronologically trades = first # rest"
      "foldl (processTrade now) (initAccumulator first, [], []) (first # rest) = (acc, g, w)"
      "processTradesForHolding now trades =
        (if HoldingAccumulator.lots acc = []
         then (\<lparr>accumulator = None, HoldingWithGains.realizedGains = g\<rparr>, w)
         else (\<lparr>accumulator = Some acc, HoldingWithGains.realizedGains = g\<rparr>, w))"
proof (cases "sortTradesChronologically trades")
  case Nil
  then have "trades = []"
    unfolding sortTradesChronologically_def by (metis length_0_conv length_sort)
  moreover have "processTradesForHolding now trades =
        (\<lparr>accumulator = None, HoldingWithGains.realizedGains = []\<rparr>, [])"
    unfolding processTradesForHolding_unfold Nil by simp
  ultimately show ?thesis by (rule empty)
next
  case (Cons first rest)
  obtain acc g w where f: "foldl (processTrade now) (initAccumulator first, [], []) (first # rest) = (acc, g, w)"
    by (cases "foldl (processTrade now) (initAccumulator first, [], []) (first # rest)") auto
  from run[OF Cons f processTradesForHolding_result[OF Cons f]] show ?thesis .
qed

lemma group_result:
  assumes "\<forall>u\<in>set trades. 0 < TradeRecord.quantity u"
    and "processTradesForHolding now trades = (r, ws)"
  shows "sum_list ws = 0 \<longleftrightarrow> ws = []"
    and "accumulator r = None \<Longrightarrow> totalBought trades - totalSold trades + sum_list ws = 0"
    and "accumulator r = Some acc \<Longrightarrow>
           HoldingAccumulator.lots acc \<noteq> [] \<and>
           (\<forall>l\<in>set (HoldingAccumulator.lots acc). 0 < HoldingLot.quantity l) \<and>
           sum_list (map HoldingLot.quantity (HoldingAccumulator.lots acc)) =
             totalBought trades - totalSold trades + sum_list ws \<and>
           (\<exists>first\<in>set trades. HoldingAccumulator.symbol acc = TradeRecord.symbol first \<and>
              HoldingAccumulator.exchange acc = TradeRecord.exchange first)"
proof -
  have all: "(sum_list ws = 0 \<longleftrightarrow> ws = []) \<and>
    (accumulator r = None \<longrightarrow> totalBought trades - totalSold trades + sum_list ws = 0) \<and>
    (accumulator r = Some acc \<longrightarrow>
           HoldingAccumulator.lots acc \<noteq> [] \<and>
           (\<forall>l\<in>set (HoldingAccumulator.lots acc). 0 < HoldingLot.quantity l) \<and>
           sum_list (map HoldingLot.quantity (HoldingAccumulator.lots acc)) =
             totalBought trades - totalSold trades + sum_list ws \<and>
           (\<exists>first\<in>set trades. HoldingAccumulator.symbol acc = TradeRecord.symbol first \<and>
              HoldingAccumulator.exchange acc = TradeRecord.exchange first))"
  proof (cases trades rule: processTradesForHolding_cases[where now = now])
    case empty
    with assms(2) show ?thesis by (auto simp: totalBought_def totalSold_def)
  next
    case (run first rest a g w)
    have sset: "set (first # rest) = set trades"
      using run(1) by (metis sortTradesChronologically_def set_sort)
    then have spos: "\<forall>u\<in>set (first # rest). 0 < TradeRecord.quantity u" using assms(1) by simp
    have bal: "sum_list (map HoldingLot.quantity (HoldingAccumulator.lots a)) - sum_list w =
         totalBought trades - totalSold trades" and wpos: "\<forall>x\<in>set w. 0 < x"
      using foldl_processTrade_balance[OF spos _ _ run(2)] totals_sorted[of trades]
      unfolding run(1) by (simp_all add: initAccumulator_def)
    have pos: "\<forall>l\<in>set (HoldingAccumulator.lots a). 0 < HoldingLot.quantity l"
      using foldl_processTrade_positive[OF spos _ run(2)] by (simp add: initAccumulator_def)
    have meta: "HoldingAccumulator.symbol a = TradeRecord.symbol first"
      "HoldingAccumulator.exchange a = TradeRecord.exchange first"
      using foldl_processTrade_meta[OF run(2)] by (simp_all add: initAccumulator_def)
    have fin: "first \<in> set trades" using sset by auto
    have wz: "sum_list w = 0 \<longleftrightarrow> w = []"
    proof
      assume z: "sum_list w = 0"
      show "w = []"
      proof (rule ccontr)
        assume "w \<noteq> []"
        then have "0 < sum_list w" using wpos by (rule sum_list_positive)
        with z show False by simp
      qed
    qed simp
    have ws: "ws = w" and r: "r = (if HoldingAccumulator.lots a = []
         then \<lparr>accumulator = None, HoldingWithGains.realizedGains = g\<rparr>
         else \<lparr>accumulator = Some a, HoldingWithGains.realizedGains = g\<rparr>)"
      using run(3) assms(2) by (auto split: if_splits)
    show ?thesis
    proof (cases "HoldingAccumulator.lots a = []")
      case True
      with r ws wz bal show ?thesis by simp
    next
      case False
      with r ws wz bal pos meta fin show ?thesis by auto
    qed
  qed
  from all show "sum_list ws = 0 \<longleftrightarrow> ws = []" by blast
  from all show "accumulator r = None \<Longrightarrow> totalBought trades - totalSold trades + sum_list ws = 0" by blast
  from all show "accumulator r = Some acc \<Longrightarrow>
           HoldingAccumulator.lots acc \<noteq> [] \<and>
           (\<forall>l\<in>set (HoldingAccumulator.lots acc). 0 < HoldingLot.quantity l) \<and>
           sum_list (map HoldingLot.quantity (HoldingAccumulator.lots acc)) =
             totalBought trades - totalSold trades + sum_list ws \<and>
           (\<exists>first\<in>set trades. HoldingAccumulator.symbol acc = TradeRecord.symbol first \<and>
              HoldingAccumulator.exchange acc = TradeRecord.exchange first)" by blast
qed

lemma pushToGroup_keys:
  "map fst (pushToGroup k t G) = (if k \<in> fst ` set G then map fst G else map fst G @ [k])"
  by (induction G) force+

lemma pushToGroup_distinct: "distinct (map fst G) \<Longrightarrow> distinct (map fst (pushToGroup k t G))"
  by (simp add: pushToGroup_keys)

lemma pushToGroup_map_of:
  "map_of (pushToGroup k t G) =
     (map_of G)(k \<mapsto> (case map_of G k of None \<Rightarrow> [t] | Some g \<Rightarrow> g @ [t]))"
  by (induction G) (auto simp: fun_eq_iff)

lemma groups_fold:
  assumes "distinct (map fst G)"
  shows "distinct (map fst (foldl (\<lambda>groups trade. pushToGroup (holdingKey trade) trade groups) G ts)) \<and>
     (\<forall>k. map_of (foldl (\<lambda>groups trade. pushToGroup (holdingKey trade) trade groups) G ts) k =
        (case map_of G k of
           None \<Rightarrow> (if groupOf k ts = [] then None else Some (groupOf k ts))
         | Some g \<Rightarrow> Some (g @ groupOf k ts)))"
  using assms
proof (induction ts arbitrary: G)
  case Nil
  then show ?case by (auto simp: groupOf_def split: option.splits)
next
  case (Cons t ts)
  have d: "distinct (map fst (pushToGroup (holdingKey t) t G))"
    by (rule pushToGroup_distinct[OF Cons.prems])
  show ?case
    unfolding foldl_Cons
    using Cons.IH[OF d]
    by (auto simp: pushToGroup_map_of groupOf_def split: option.splits)
qed

lemma groupTradesByHolding_char:
  "distinct (map fst (groupTradesByHolding trades))"
  "(k, g) \<in> set (groupTradesByHolding trades) \<longleftrightarrow> g = groupOf k trades \<and> g \<noteq> []"
proof -
  have eq: "groupTradesByHolding trades =
      foldl (\<lambda>groups trade. pushToGroup (holdingKey trade) trade groups) [] trades"
    by (simp add: groupTradesByHolding_def holdingKey_def)
  from groups_fold[of "[]" trades]
  have d: "distinct (map fst (groupTradesByHolding trades))"
    and m: "\<And>k. map_of (groupTradesByHolding trades) k =
       (if groupOf k trades = [] then None else Some (groupOf k trades))"
    unfolding eq by simp_all
  show "distinct (map fst (groupTradesByHolding trades))" by (rule d)
  show "(k, g) \<in> set (groupTradesByHolding trades) \<longleftrightarrow> g = groupOf k trades \<and> g \<noteq> []"
    using map_of_eq_Some_iff[OF d, of k g] m[of k] by (auto split: if_splits)
qed

lemma insertByCompare_set: "set (insertByCompare cmp x xs) = insert x (set xs)"
  by (induction xs) auto

lemma sortByCompare_set: "set (sortByCompare cmp xs) = set xs"
  unfolding sortByCompare_def by (induction xs) (simp_all add: insertByCompare_set)

lemma groupHolding_mem:
  "h \<in> set (groupHolding now g) \<longleftrightarrow>
     (\<exists>acc. accumulator (fst (processTradesForHolding now g)) = Some acc \<and> h = makeHolding now acc)"
  by (cases "accumulator (fst (processTradesForHolding now g))") (auto simp: groupHolding_def)

lemma processGroup_step:
  "processGroup now (hs, gs) g =
     (hs @ groupHolding now g,
      gs @ HoldingWithGains.realizedGains (fst (processTradesForHolding now g)))"
  by (simp add: processGroup_unfold groupHolding_def Let_def split: option.splits)

lemma processGroup_fold:
  "fst (foldl (processGroup now) (hs, gs) groups) = hs @ concat (map (groupHolding now) groups)"
proof (induction groups arbitrary: hs gs)
  case Nil
  show ?case by simp
next
  case (Cons g groups)
  show ?case
    unfolding foldl_Cons processGroup_step Cons.IH by simp
qed

lemma analyzePortfolio_holdings:
  "h \<in> set (holdings (analyzePortfolio localeCompare now trades)) \<longleftrightarrow>
     (\<exists>k acc. groupOf k trades \<noteq> [] \<and>
        accumulator (fst (processTradesForHolding now (groupOf k trades))) = Some acc \<and>
        h = makeHolding now acc)"
proof (cases "trades = []")
  case True
  then show ?thesis by (simp add: analyzePortfolio_unfold groupOf_def)
next
  case False
  obtain hs gs where f: "foldl (processGroup now) ([], []) (map snd (groupTradesByHolding trades)) = (hs, gs)"
    by (cases "foldl (processGroup now) ([], []) (map snd (groupTradesByHolding trades))") auto
  have hs: "hs = concat (map (groupHolding now) (map snd (groupTradesByHolding trades)))"
    using processGroup_fold[of now "[]" "[]" "map snd (groupTradesByHolding trades)"] f by simp
  have "holdings (analyzePortfolio localeCompare now trades) =
      sortByCompare (\<lambda>a b. localeCompare (Holding.symbol a) (Holding.symbol b)) hs"
    using False f by (simp add: analyzePortfolio_unfold)
  then have "set (holdings (analyzePortfolio localeCompare now trades)) =
      set (concat (map (groupHolding now) (map snd (groupTradesByHolding trades))))"
    unfolding hs by (simp only: sortByCompare_set)
  also have "\<dots> = (\<Union>g \<in> snd ` set (groupTradesByHolding trades). set (groupHolding now g))"
    by auto
  finally have "h \<in> set (holdings (analyzePortfolio localeCompare now trades)) \<longleftrightarrow>
      (\<exists>k g. (k, g) \<in> set (groupTradesByHolding trades) \<and> h \<in> set (groupHolding now g))"
    by force
  also have "\<dots> \<longleftrightarrow> (\<exists>k. groupOf k trades \<noteq> [] \<and> h \<in> set (groupHolding now (groupOf k trades)))"
    unfolding groupTradesByHolding_char(2) by auto
  also have "\<dots> \<longleftrightarrow> (\<exists>k acc. groupOf k trades \<noteq> [] \<and>
        accumulator (fst (processTradesForHolding now (groupOf k trades))) = Some acc \<and>
        h = makeHolding now acc)"
    unfolding groupHolding_mem by blast
  finally show ?thesis .
qed

lemma makeHolding_fields:
  "Holding.symbol (makeHolding now acc) = HoldingAccumulator.symbol acc"
  "Holding.exchange (makeHolding now acc) = HoldingAccumulator.exchange acc"
  "Holding.lots (makeHolding now acc) = HoldingAccumulator.lots acc"
  "totalQuantity (makeHolding now acc) = calculateTotalQuantity (HoldingAccumulator.lots acc)"
  "Holding.avgPurchasePrice (makeHolding now acc) = calculateAvgPurchasePrice (HoldingAccumulator.lots acc)"
  "Holding.oldestPurchaseDate (makeHolding now acc) = findOldestPurchaseDate now (HoldingAccumulator.lots acc)"
  "Holding.classification (makeHolding now acc) =
     classifyHolding now (findOldestPurchaseDate now (HoldingAccumulator.lots acc))"
  by (simp_all add: makeHolding_def)

lemma groupOf_positive:
  "\<forall>t\<in>set trades. 0 < TradeRecord.quantity t \<Longrightarrow> \<forall>t\<in>set (groupOf k trades). 0 < TradeRecord.quantity t"
  by (simp add: groupOf_def)

text \<open>A returned Holding, traced back to the group it was computed from.\<close>

lemma holding_origin:
  assumes "\<forall>t\<in>set trades. 0 < TradeRecord.quantity t"
    and "h \<in> set (holdings (analyzePortfolio localeCompare now trades))"
  shows "\<exists>k acc.
    accumulator (fst (processTradesForHolding now (groupOf k trades))) = Some acc \<and>
    h = makeHolding now acc \<and>
    createHoldingKey (Holding.symbol h) (Holding.exchange h) = k \<and>
    HoldingAccumulator.lots acc \<noteq> [] \<and>
    (\<forall>l\<in>set (HoldingAccumulator.lots acc). 0 < HoldingLot.quantity l) \<and>
    sum_list (map HoldingLot.quantity (HoldingAccumulator.lots acc)) =
       totalBought (groupOf k trades) - totalSold (groupOf k trades)
         + sum_list (snd (processTradesForHolding now (groupOf k trades))) \<and>
    (sum_list (snd (processTradesForHolding now (groupOf k trades))) = 0 \<longleftrightarrow>
       snd (processTradesForHolding now (groupOf k trades)) = [])"
proof -
  from assms(2) obtain k acc where g: "groupOf k trades \<noteq> []"
    and a: "accumulator (fst (processTradesForHolding now (groupOf k trades))) = Some acc"
    and h: "h = makeHolding now acc"
    unfolding analyzePortfolio_holdings by blast
  obtain r ws where p: "processTradesForHolding now (groupOf k trades) = (r, ws)"
    by (cases "processTradesForHolding now (groupOf k trades)") auto
  have ar: "accumulator r = Some acc" using a p by simp
  note gp = groupOf_positive[OF assms(1), of k]
  from group_result(3)[OF gp p ar] obtain first where
    ne: "HoldingAccumulator.lots acc \<noteq> []"
    and pos: "\<forall>l\<in>set (HoldingAccumulator.lots acc). 0 < HoldingLot.quantity l"
    and bal: "sum_list (map HoldingLot.quantity (HoldingAccumulator.lots acc)) =
       totalBought (groupOf k trades) - totalSold (groupOf k trades) + sum_list ws"
    and f: "first \<in> set (groupOf k trades)"
       "HoldingAccumulator.symbol acc = TradeRecord.symbol first"
       "HoldingAccumulator.exchange acc = TradeRecord.exchange first"
    by blast
  have key: "createHoldingKey (Holding.symbol h) (Holding.exchange h) = k"
    using f unfolding h makeHolding_fields by (simp add: groupOf_def holdingKey_def)
  have w: "ws = snd (processTradesForHolding now (groupOf k trades))" using p by simp
  note z = group_result(1)[OF gp p]
  show ?thesis
    using a h key ne pos bal[unfolded w] z[unfolded w] by blast
qed



section \<open>Properties of the holding-period classifier\<close>













section \<open>Properties of the per-lot split of the overlay\<close>

lemma sum_filter_split:
  "sum_list (map f (filter P xs)) + sum_list (map f (filter (\<lambda>x. \<not> P x) xs)) =
     sum_list (map (f :: 'a \<Rightarrow> rat) xs)"
  by (induction xs) simp_all

lemma classifyLots_fold:
  "foldl (\<lambda>(stQ, ltQ, stTotalCost, ltTotalCost) lot.
               (let holdingDays = differenceInDays now (HoldingLot.purchaseDate lot);
                    lotCost = HoldingLot.quantity lot * HoldingLot.purchasePrice lot
                in if holdingDays \<le> 365
                   then (stQ + HoldingLot.quantity lot, ltQ, stTotalCost + lotCost, ltTotalCost)
                   else (stQ, ltQ + HoldingLot.quantity lot, stTotalCost, ltTotalCost + lotCost)))
             (a, b, c, d) ls =
     (a + sum_list (map HoldingLot.quantity (filter (isShortTermLot now) ls)),
      b + sum_list (map HoldingLot.quantity (filter (\<lambda>l. \<not> isShortTermLot now l) ls)),
      c + sum_list (map lotCost (filter (isShortTermLot now) ls)),
      d + sum_list (map lotCost (filter (\<lambda>l. \<not> isShortTermLot now l) ls)))"
  by (induction ls arbitrary: a b c d) (simp_all add: isShortTermLot_def lotCost_def Let_def)

lemma avg_fold:
  "foldl (\<lambda>(totalValue, totalQty) lot.
                    (totalValue + HoldingLot.quantity lot * HoldingLot.purchasePrice lot,
                     totalQty + HoldingLot.quantity lot)) (a, b) ls =
     (a + sum_list (map lotCost ls), b + sum_list (map HoldingLot.quantity ls))"
  by (induction ls arbitrary: a b) (simp_all add: lotCost_def)

lemma calculateAvgPurchasePrice_eq:
  "calculateAvgPurchasePrice ls =
     (if 0 < sum_list (map HoldingLot.quantity ls)
      then sum_list (map lotCost ls) / sum_list (map HoldingLot.quantity ls) else 0)"
  by (cases ls) (simp_all add: calculateAvgPurchasePrice_def avg_fold del: foldl_Cons)

lemma classifyLotsByHoldingPeriod_eq:
  "classifyLotsByHoldingPeriod now ls (Number p) =
     (let stQ = sum_list (map HoldingLot.quantity (filter (isShortTermLot now) ls));
          ltQ = sum_list (map HoldingLot.quantity (filter (\<lambda>l. \<not> isShortTermLot now l) ls));
          stC = sum_list (map lotCost (filter (isShortTermLot now) ls));
          ltC = sum_list (map lotCost (filter (\<lambda>l. \<not> isShortTermLot now l) ls))
      in \<lparr>LotClassification.stQuantity = stQ,
          LotClassification.ltQuantity = ltQ,
          LotClassification.stAvgPrice = (if stQ > 0 then stC / stQ else 0),
          LotClassification.ltAvgPrice = (if ltQ > 0 then ltC / ltQ else 0),
          LotClassification.stPnl = Number (stQ * p - stC),
          LotClassification.ltPnl = Number (ltQ * p - ltC)\<rparr>)"
  unfolding classifyLotsByHoldingPeriod_def classifyLots_fold by (simp add: Let_def)

lemma positive_sum_cases:
  assumes "\<forall>l\<in>set ls. 0 < HoldingLot.quantity l"
  shows "0 < sum_list (map HoldingLot.quantity (filter P ls)) \<or> filter P ls = []"
proof (cases "filter P ls = []")
  case False
  then have "map HoldingLot.quantity (filter P ls) \<noteq> []" by simp
  moreover have "\<forall>w\<in>set (map HoldingLot.quantity (filter P ls)). 0 < w" using assms by auto
  ultimately have "0 < sum_list (map HoldingLot.quantity (filter P ls))"
    by (rule sum_list_positive)
  then show ?thesis ..
qed simp

lemma avg_times_quantity:
  assumes "\<forall>l\<in>set ls. 0 < HoldingLot.quantity l"
  shows "sum_list (map HoldingLot.quantity (filter P ls)) *
      (if 0 < sum_list (map HoldingLot.quantity (filter P ls))
       then sum_list (map lotCost (filter P ls)) / sum_list (map HoldingLot.quantity (filter P ls))
       else 0) = sum_list (map lotCost (filter P ls))"
  using positive_sum_cases[OF assms, of P] by auto

text \<open>What the overlay writes for a symbol that has a quote of its own.\<close>

lemma updateHoldingWithPrice_own:
  assumes "quotes (Holding.symbol holding) = Some quote"
  shows "updateHoldingWithPrice now quotes holding =
     (let price0 = lastPrice quote;
          totalCost = Holding.avgPurchasePrice holding * totalQuantity holding;
          pnl0 = price0 * totalQuantity holding - totalCost;
          pnlPercent0 = (if totalCost > 0 then (pnl0 / totalCost) * 100 else 0);
          lotClassification = classifyLotsByHoldingPeriod now (Holding.lots holding) (Number price0)
      in holding\<lparr>currentPrice := Some (Number price0),
           pnl := Some (Number pnl0),
           pnlPercent := Some (Number pnlPercent0),
           isLoss := Some (pnl0 < 0),
           Holding.stQuantity := Some (Number (LotClassification.stQuantity lotClassification)),
           Holding.ltQuantity := Some (Number (LotClassification.ltQuantity lotClassification)),
           Holding.stAvgPrice := Some (Number (LotClassification.stAvgPrice lotClassification)),
           Holding.ltAvgPrice := Some (Number (LotClassification.ltAvgPrice lotClassification)),
           Holding.stPnl := Some (LotClassification.stPnl lotClassification),
           Holding.ltPnl := Some (LotClassification.ltPnl lotClassification)\<rparr>)"
proof -
  have g: "getProperty quotes (Holding.symbol holding) = OwnQuote quote"
    using assms by (simp add: getProperty_def)
  show ?thesis
    unfolding updateHoldingWithPrice_def g QuoteLookup.case lastPriceOf.simps toNumber.simps
    by (simp add: Let_def)
qed

text \<open>
  C10.  For a Holding returned by the calculator (trades with positive quantities) whose
  symbol has a quote, the overlay fills in all the split fields; the short-term quantity
  is the sum over the lots held at most 365 days and the long-term quantity the sum over
  the others, so each lot is counted once; the two quantities add up to the total
  quantity, quantity times average price over the two buckets adds up to the cost of all
  the lots, and the two P&L figures add up to the Holding's P&L.
\<close>

theorem overlay_split_partitions:
  assumes "\<forall>t\<in>set trades. 0 < TradeRecord.quantity t"
    and "h \<in> set (holdings (analyzePortfolio localeCompare now trades))"
    and "quotes (Holding.symbol h) = Some quote"
  shows "\<exists>sq lq sa la sp lp p.
     Holding.stQuantity (updateHoldingWithPrice now' quotes h) = Some (Number sq) \<and>
     Holding.ltQuantity (updateHoldingWithPrice now' quotes h) = Some (Number lq) \<and>
     Holding.stAvgPrice (updateHoldingWithPrice now' quotes h) = Some (Number sa) \<and>
     Holding.ltAvgPrice (updateHoldingWithPrice now' quotes h) = Some (Number la) \<and>
     Holding.stPnl (updateHoldingWithPrice now' quotes h) = Some (Number sp) \<and>
     Holding.ltPnl (updateHoldingWithPrice now' quotes h) = Some (Number lp) \<and>
     pnl (updateHoldingWithPrice now' quotes h) = Some (Number p) \<and>
     sq = sum_list (map HoldingLot.quantity (filter (isShortTermLot now') (Holding.lots h))) \<and>
     lq = sum_list (map HoldingLot.quantity
            (filter (\<lambda>l. \<not> isShortTermLot now' l) (Holding.lots h))) \<and>
     sq + lq = totalQuantity (updateHoldingWithPrice now' quotes h) \<and>
     sq * sa + lq * la =
       sum_list (map lotCost (Holding.lots (updateHoldingWithPrice now' quotes h))) \<and>
     sp + lp = p"
proof -
  from holding_origin[OF assms(1,2)] obtain k acc where o:
      "accumulator (fst (processTradesForHolding now (groupOf k trades))) = Some acc \<and>
       h = makeHolding now acc \<and>
       createHoldingKey (Holding.symbol h) (Holding.exchange h) = k \<and>
       HoldingAccumulator.lots acc \<noteq> [] \<and>
       (\<forall>l\<in>set (HoldingAccumulator.lots acc). 0 < HoldingLot.quantity l) \<and>
       sum_list (map HoldingLot.quantity (HoldingAccumulator.lots acc)) =
         totalBought (groupOf k trades) - totalSold (groupOf k trades)
           + sum_list (snd (processTradesForHolding now (groupOf k trades))) \<and>
       (sum_list (snd (processTradesForHolding now (groupOf k trades))) = 0 \<longleftrightarrow>
         snd (processTradesForHolding now (groupOf k trades)) = [])"
      by (elim exE)
  define ls where "ls = HoldingAccumulator.lots acc"
  have h: "h = makeHolding now acc" using o by (elim conjE)
  have ne: "ls \<noteq> []" using o unfolding ls_def by (elim conjE)
  have pos: "\<forall>l\<in>set ls. 0 < HoldingLot.quantity l" using o unfolding ls_def by (elim conjE)
  have tq: "0 < sum_list (map HoldingLot.quantity ls)"
    using ne pos by (intro sum_list_positive) auto
  have f: "Holding.lots h = ls" "totalQuantity h = sum_list (map HoldingLot.quantity ls)"
    "Holding.avgPurchasePrice h = sum_list (map lotCost ls) / sum_list (map HoldingLot.quantity ls)"
    unfolding h makeHolding_fields ls_def[symmetric]
    using tq by (simp_all add: calculateTotalQuantity_sum calculateAvgPurchasePrice_eq)
  let ?P = "isShortTermLot now'"
  let ?N = "\<lambda>l. \<not> isShortTermLot now' l"
  define sq where "sq = sum_list (map HoldingLot.quantity (filter ?P ls))"
  define lq where "lq = sum_list (map HoldingLot.quantity (filter ?N ls))"
  define sc where "sc = sum_list (map lotCost (filter ?P ls))"
  define lc where "lc = sum_list (map lotCost (filter ?N ls))"
  define price0 where "price0 = lastPrice quote"
  have q: "sq + lq = sum_list (map HoldingLot.quantity ls)"
    unfolding sq_def lq_def by (rule sum_filter_split)
  have c: "sc + lc = sum_list (map lotCost ls)"
    unfolding sc_def lc_def by (rule sum_filter_split)
  have sa: "sq * (if 0 < sq then sc / sq else 0) = sc"
    unfolding sq_def sc_def by (rule avg_times_quantity[OF pos])
  have la: "lq * (if 0 < lq then lc / lq else 0) = lc"
    unfolding lq_def lc_def by (rule avg_times_quantity[OF pos])
  have pn: "(sq * price0 - sc) + (lq * price0 - lc) =
      price0 * sum_list (map HoldingLot.quantity ls) -
      sum_list (map lotCost ls) / sum_list (map HoldingLot.quantity ls) * sum_list (map HoldingLot.quantity ls)"
  proof -
    have "sum_list (map lotCost ls) / sum_list (map HoldingLot.quantity ls) *
        sum_list (map HoldingLot.quantity ls) = sum_list (map lotCost ls)"
      using tq by simp
    then show ?thesis unfolding q[symmetric] c[symmetric] by (simp add: algebra_simps)
  qed
  have u: "updateHoldingWithPrice now' quotes h =
     h\<lparr>currentPrice := Some (Number price0),
       pnl := Some (Number (price0 * sum_list (map HoldingLot.quantity ls) -
          sum_list (map lotCost ls) / sum_list (map HoldingLot.quantity ls) *
            sum_list (map HoldingLot.quantity ls))),
       pnlPercent := pnlPercent (updateHoldingWithPrice now' quotes h),
       isLoss := isLoss (updateHoldingWithPrice now' quotes h),
       Holding.stQuantity := Some (Number sq), Holding.ltQuantity := Some (Number lq),
       Holding.stAvgPrice := Some (Number (if 0 < sq then sc / sq else 0)),
       Holding.ltAvgPrice := Some (Number (if 0 < lq then lc / lq else 0)),
       Holding.stPnl := Some (Number (sq * price0 - sc)),
       Holding.ltPnl := Some (Number (lq * price0 - lc))\<rparr>"
    unfolding updateHoldingWithPrice_own[of quotes h quote, OF assms(3)]
      classifyLotsByHoldingPeriod_eq f
      sq_def lq_def sc_def lc_def price0_def
    by (simp add: Let_def)
  show ?thesis
    apply (rule exI[of _ sq], rule exI[of _ lq])
    apply (rule exI[of _ "if 0 < sq then sc / sq else 0"], rule exI[of _ "if 0 < lq then lc / lq else 0"])
    apply (rule exI[of _ "sq * price0 - sc"], rule exI[of _ "lq * price0 - lc"])
    apply (rule exI[of _ "price0 * sum_list (map HoldingLot.quantity ls) -
          sum_list (map lotCost ls) / sum_list (map HoldingLot.quantity ls) *
            sum_list (map HoldingLot.quantity ls)"])
    apply (subst (1 2 3 4 5 6 7 8 9) u)
    using q c sa la pn f by (simp add: sq_def lq_def)
qed

theorem overlay_split_partitions_witness:
  "infyHolding \<in> set (holdings (analyzePortfolio compareCodeUnits (20108 * msPerDay) [infyOld, infyNew])) \<and>
   infyQuotes (Holding.symbol infyHolding) = Some \<lparr>lastPrice = 1400\<rparr> \<and>
   Holding.stQuantity (updateHoldingWithPrice (20108 * msPerDay) infyQuotes infyHolding) = Some (Number 5) \<and>
   Holding.ltQuantity (updateHoldingWithPrice (20108 * msPerDay) infyQuotes infyHolding) = Some (Number 10) \<and>
   Holding.stAvgPrice (updateHoldingWithPrice (20108 * msPerDay) infyQuotes infyHolding) = Some (Number 1600) \<and>
   Holding.ltAvgPrice (updateHoldingWithPrice (20108 * msPerDay) infyQuotes infyHolding) = Some (Number 1500) \<and>
   Holding.stPnl (updateHoldingWithPrice (20108 * msPerDay) infyQuotes infyHolding) = Some (Number (- 1000)) \<and>
   Holding.ltPnl (updateHoldingWithPrice (20108 * msPerDay) infyQuotes infyHolding) = Some (Number (- 1000)) \<and>
   pnl (updateHoldingWithPrice (20108 * msPerDay) infyQuotes infyHolding) = Some (Number (- 1000 + - 1000)) \<and>
   totalQuantity (updateHoldingWithPrice (20108 * msPerDay) infyQuotes infyHolding) = 5 + 10 \<and>
   sum_list (map lotCost (Holding.lots (updateHoldingWithPrice (20108 * msPerDay) infyQuotes infyHolding)))
     = 5 * 1600 + 10 * 1500"
proof -
  have q: "TradeRecord.quantity infyOld = 10" "TradeRecord.quantity infyNew = 5" by code_simp+
  then have pos: "\<forall>t\<in>set [infyOld, infyNew]. 0 < TradeRecord.quantity t" by simp
  have m: "infyHolding \<in> set (holdings (analyzePortfolio compareCodeUnits (20108 * msPerDay) [infyOld, infyNew]))"
    by code_simp
  have qu: "infyQuotes (Holding.symbol infyHolding) = Some \<lparr>lastPrice = 1400\<rparr>" by code_simp
  have v: "Holding.stQuantity (updateHoldingWithPrice (20108 * msPerDay) infyQuotes infyHolding) = Some (Number 5)"
    "Holding.ltQuantity (updateHoldingWithPrice (20108 * msPerDay) infyQuotes infyHolding) = Some (Number 10)"
    "Holding.stAvgPrice (updateHoldingWithPrice (20108 * msPerDay) infyQuotes infyHolding) = Some (Number 1600)"
    "Holding.ltAvgPrice (updateHoldingWithPrice (20108 * msPerDay) infyQuotes infyHolding) = Some (Number 1500)"
    "Holding.stPnl (updateHoldingWithPrice (20108 * msPerDay) infyQuotes infyHolding) = Some (Number (- 1000))"
    "Holding.ltPnl (updateHoldingWithPrice (20108 * msPerDay) infyQuotes infyHolding) = Some (Number (- 1000))"
    by code_simp+
  from overlay_split_partitions[where trades = "[infyOld, infyNew]" and h = infyHolding
      and localeCompare = compareCodeUnits and now = "20108 * msPerDay" and quotes = infyQuotes
      and quote = "\<lparr>lastPrice = 1400\<rparr>" and now' = "20108 * msPerDay", OF pos m qu] v
  have "pnl (updateHoldingWithPrice (20108 * msPerDay) infyQuotes infyHolding) = Some (Number (- 1000 + - 1000))"
    and "totalQuantity (updateHoldingWithPrice (20108 * msPerDay) infyQuotes infyHolding) = 5 + 10"
    and "sum_list (map lotCost (Holding.lots (updateHoldingWithPrice (20108 * msPerDay) infyQuotes infyHolding)))
     = 5 * 1600 + 10 * 1500"
    by auto
  with m qu v show ?thesis by blast
qed


section \<open>Grouping by symbol and venue\<close>

text \<open>
  The key is the symbol, a colon and the venue.  Where no venue contains a colon, two
  pairs with the same key are the same pair, and the group of a key is the trades of
  exactly that pair.
\<close>

lemma takeWhile_until:
  "c \<notin> set xs \<Longrightarrow> takeWhile (\<lambda>x. x \<noteq> c) (xs @ c # ys) = xs"
  by (induction xs) auto

lemma createHoldingKey_inject:
  assumes "CHR '':'' \<notin> set e1" and "CHR '':'' \<notin> set e2"
    and "createHoldingKey s1 e1 = createHoldingKey s2 e2"
  shows "s1 = s2 \<and> e1 = e2"
proof -
  have r: "rev e1 @ CHR '':'' # rev s1 = rev e2 @ CHR '':'' # rev s2"
    using arg_cong[OF assms(3), of rev] by (simp add: createHoldingKey_def)
  have t1: "takeWhile (\<lambda>c. c \<noteq> CHR '':'') (rev e1 @ CHR '':'' # rev s1) = rev e1"
    using assms(1) by (intro takeWhile_until) simp
  have t2: "takeWhile (\<lambda>c. c \<noteq> CHR '':'') (rev e2 @ CHR '':'' # rev s2) = rev e2"
    using assms(2) by (intro takeWhile_until) simp
  from r t1 t2 have e: "rev e1 = rev e2" by simp
  with r have "rev s1 = rev s2" by simp
  with e show ?thesis by simp
qed

lemma venue_groups_exact:
  assumes "\<forall>t\<in>set trades. CHR '':'' \<notin> set (TradeRecord.exchange t)" and "CHR '':'' \<notin> set e"
  shows "groupOf (createHoldingKey s e) trades =
     filter (\<lambda>t. TradeRecord.symbol t = s \<and> TradeRecord.exchange t = e) trades"
  unfolding groupOf_def holdingKey_def
proof (rule filter_cong[OF refl])
  fix t assume "t \<in> set trades"
  then have "CHR '':'' \<notin> set (TradeRecord.exchange t)" using assms(1) by simp
  from createHoldingKey_inject[OF this assms(2)]
  show "(createHoldingKey (TradeRecord.symbol t) (TradeRecord.exchange t) = createHoldingKey s e) =
      (TradeRecord.symbol t = s \<and> TradeRecord.exchange t = e)" by auto
qed

text \<open>
  The Holdings returned have distinct keys, hence distinct (symbol, venue) pairs: at most
  one Holding per pair.  Where no venue contains a colon, each Holding is what the engine
  computes from the trades of exactly its own pair, whatever the other trades are.
\<close>

lemma insertByCompare_mset: "mset (insertByCompare cmp x xs) = add_mset x (mset xs)"
  by (induction xs) auto

lemma sortByCompare_mset: "mset (sortByCompare cmp xs) = mset xs"
  unfolding sortByCompare_def by (induction xs) (simp_all add: insertByCompare_mset)

lemma group_accumulator_key:
  assumes "accumulator (fst (processTradesForHolding now (groupOf k trades))) = Some acc"
  shows "keyOfHolding (makeHolding now acc) = k"
proof (cases "groupOf k trades" rule: processTradesForHolding_cases[where now = now])
  case empty
  with assms show ?thesis by simp
next
  case (run first rest a g w)
  have "set (first # rest) = set (groupOf k trades)"
    using run(1) by (metis sortTradesChronologically_def set_sort)
  then have "first \<in> set (groupOf k trades)" by auto
  then have fk: "holdingKey first = k" by (simp add: groupOf_def)
  have "acc = a" using run(3) assms by (auto split: if_splits)
  with foldl_processTrade_meta[OF run(2)] fk show ?thesis
    by (simp add: keyOfHolding_def makeHolding_fields initAccumulator_def holdingKey_def)
qed

lemma groupHolding_keys:
  "map keyOfHolding (groupHolding now (groupOf k trades)) =
     (if accumulator (fst (processTradesForHolding now (groupOf k trades))) = None then [] else [k])"
  by (cases "accumulator (fst (processTradesForHolding now (groupOf k trades)))")
     (simp_all add: groupHolding_def group_accumulator_key)

lemma groups_holding_keys:
  assumes "\<forall>(k, g)\<in>set G. g = groupOf k trades"
  shows "map keyOfHolding (concat (map (groupHolding now) (map snd G))) =
     map fst (filter (\<lambda>(k, g). accumulator (fst (processTradesForHolding now g)) \<noteq> None) G)"
  using assms
proof (induction G)
  case Nil
  show ?case by simp
next
  case (Cons kg G)
  obtain k g where kg: "kg = (k, g)" by (cases kg)
  have g: "g = groupOf k trades" using Cons.prems kg by simp
  have "\<forall>(k, g)\<in>set G. g = groupOf k trades" using Cons.prems by simp
  from Cons.IH[OF this] show ?case unfolding kg g by (simp add: groupHolding_keys)
qed

lemma portfolio_keys_distinct:
  "distinct (map keyOfHolding (holdings (analyzePortfolio localeCompare now trades)))"
proof (cases "trades = []")
  case True
  then show ?thesis by (simp add: analyzePortfolio_unfold)
next
  case False
  let ?G = "groupTradesByHolding trades"
  obtain hs gs where f: "foldl (processGroup now) ([], []) (map snd ?G) = (hs, gs)"
    by (cases "foldl (processGroup now) ([], []) (map snd ?G)") auto
  have hs: "hs = concat (map (groupHolding now) (map snd ?G))"
    using processGroup_fold[of now "[]" "[]" "map snd ?G"] f by simp
  have inv: "\<forall>(k, g)\<in>set ?G. g = groupOf k trades"
    using groupTradesByHolding_char(2)[of _ _ trades] by auto
  have "distinct (map fst (filter (\<lambda>(k, g). accumulator (fst (processTradesForHolding now g)) \<noteq> None) ?G))"
    by (rule distinct_map_filter[OF groupTradesByHolding_char(1)])
  then have d: "distinct (map keyOfHolding hs)"
    unfolding hs groups_holding_keys[OF inv] .
  have e: "holdings (analyzePortfolio localeCompare now trades) =
      sortByCompare (\<lambda>a b. localeCompare (Holding.symbol a) (Holding.symbol b)) hs"
    using False f by (simp add: analyzePortfolio_unfold)
  have "mset (map keyOfHolding (holdings (analyzePortfolio localeCompare now trades))) =
      mset (map keyOfHolding hs)"
    unfolding e by (simp add: sortByCompare_mset)
  with d show ?thesis by (metis distinct_count_atmost_1 set_mset_mset)
qed

lemma portfolio_pairs_distinct:
  "distinct (map (\<lambda>h. (Holding.symbol h, Holding.exchange h))
     (holdings (analyzePortfolio localeCompare now trades)))"
proof -
  have "map keyOfHolding (holdings (analyzePortfolio localeCompare now trades)) =
      map (\<lambda>p. createHoldingKey (fst p) (snd p))
        (map (\<lambda>h. (Holding.symbol h, Holding.exchange h))
          (holdings (analyzePortfolio localeCompare now trades)))"
    by (simp add: keyOfHolding_def)
  with portfolio_keys_distinct[of localeCompare now trades]
  have "distinct (map (\<lambda>p. createHoldingKey (fst p) (snd p))
        (map (\<lambda>h. (Holding.symbol h, Holding.exchange h))
          (holdings (analyzePortfolio localeCompare now trades))))" by simp
  then show ?thesis unfolding distinct_map[of "\<lambda>p. createHoldingKey (fst p) (snd p)"] by blast
qed

lemma holding_from_own_pair:
  assumes "\<forall>t\<in>set trades. CHR '':'' \<notin> set (TradeRecord.exchange t)"
    and "h \<in> set (holdings (analyzePortfolio localeCompare now trades))"
  shows "\<exists>acc. accumulator (fst (processTradesForHolding now
            (filter (\<lambda>t. TradeRecord.symbol t = Holding.symbol h \<and>
                          TradeRecord.exchange t = Holding.exchange h) trades))) = Some acc \<and>
          h = makeHolding now acc"
proof -
  from assms(2) obtain k acc where g: "groupOf k trades \<noteq> []"
    and a: "accumulator (fst (processTradesForHolding now (groupOf k trades))) = Some acc"
    and h: "h = makeHolding now acc"
    unfolding analyzePortfolio_holdings by blast
  have k: "k = createHoldingKey (Holding.symbol h) (Holding.exchange h)"
    using group_accumulator_key[OF a] unfolding h keyOfHolding_def by simp
  have ex: "CHR '':'' \<notin> set (Holding.exchange h)"
  proof -
    obtain first where "first \<in> set (groupOf k trades)"
      "HoldingAccumulator.exchange acc = TradeRecord.exchange first"
    proof (cases "groupOf k trades" rule: processTradesForHolding_cases[where now = now])
      case empty
      with a show ?thesis by simp
    next
      case (run f rest a' g' w')
      have "set (f # rest) = set (groupOf k trades)"
        using run(1) by (metis sortTradesChronologically_def set_sort)
      then have fin: "f \<in> set (groupOf k trades)" by auto
      have "acc = a'" using run(3) a by (auto split: if_splits)
      with foldl_processTrade_meta[OF run(2)]
      have "HoldingAccumulator.exchange acc = TradeRecord.exchange f"
        by (simp add: initAccumulator_def)
      with fin that show ?thesis by blast
    qed
    then show ?thesis using assms(1) unfolding h makeHolding_fields by (auto simp: groupOf_def)
  qed
  have "groupOf k trades = filter (\<lambda>t. TradeRecord.symbol t = Holding.symbol h \<and>
                          TradeRecord.exchange t = Holding.exchange h) trades"
    unfolding k by (rule venue_groups_exact[OF assms(1) ex])
  with a h show ?thesis by simp
qed

text \<open>
  C9.  The pairs (A:B, C) and (A, B:C) have the same key, so
  their trades form one group: the sell of 4 on venue B:C consumes the lot bought on
  venue C, and the one Holding returned has 6 of the 10 bought.
\<close>

theorem venue_key_collision:
  "createHoldingKey (TradeRecord.symbol colonBuy) (TradeRecord.exchange colonBuy) =
     createHoldingKey (TradeRecord.symbol colonSell) (TradeRecord.exchange colonSell) \<and>
   TradeRecord.exchange colonBuy \<noteq> TradeRecord.exchange colonSell \<and>
   map Holding.symbol (holdings (analyzePortfolio compareCodeUnits 0 [colonBuy, colonSell])) = [''A:B''] \<and>
   map Holding.exchange (holdings (analyzePortfolio compareCodeUnits 0 [colonBuy, colonSell])) = [''C''] \<and>
   map totalQuantity (holdings (analyzePortfolio compareCodeUnits 0 [colonBuy, colonSell])) = [6]"
  by code_simp

section \<open>Rounding to double precision\<close>

text \<open>
  The binary exponent is not above the magnitude; rounding keeps the sign; and a whole
  number up to \<open>2^53\<close> is a double.
\<close>

lemma binaryExponent_le:
  assumes "x \<noteq> 0"
  shows "2 powi (binaryExponent x) \<le> \<bar>x\<bar>"
proof -
  obtain a b where q: "quotient_of \<bar>x\<bar> = (a, b)" by (cases "quotient_of \<bar>x\<bar>") auto
  have b: "0 < b" using quotient_of_denom_pos[OF q] .
  have xa: "\<bar>x\<bar> = of_int a / of_int b" using quotient_of_div[OF q] .
  have "0 < \<bar>x\<bar>" using assms by simp
  then have a: "0 < a" using b unfolding xa by (simp add: zero_less_divide_iff)
  define e where "e = bitlen a - bitlen b"
  show ?thesis
  proof (cases "2 powi e \<le> \<bar>x\<bar>")
    case True
    then show ?thesis by (simp add: binaryExponent_def q e_def Let_def)
  next
    case False
    have la: "1 \<le> bitlen a" and lb: "1 \<le> bitlen b"
      using a b by (simp_all add: bitlen_alt_def)
    have ba: "(2::int) ^ nat (bitlen a - 1) \<le> a" and bb: "b < 2 ^ nat (bitlen b)"
      using bitlen_bounds[OF a] bitlen_bounds[OF b] by simp_all
    have ra: "(2::rat) powi (bitlen a - 1) \<le> of_int a"
    proof -
      have "(of_int ((2::int) ^ nat (bitlen a - 1)) :: rat) \<le> of_int a"
        using ba by (simp only: of_int_le_iff)
      moreover have "(2::rat) powi (bitlen a - 1) = 2 ^ nat (bitlen a - 1)"
        using la by (simp add: power_int_def)
      ultimately show ?thesis by simp
    qed
    have rb: "(of_int b :: rat) \<le> 2 powi (bitlen b)"
    proof -
      have "(of_int b :: rat) \<le> of_int ((2::int) ^ nat (bitlen b))"
        using bb by (simp only: of_int_le_iff less_imp_le)
      moreover have "(2::rat) powi (bitlen b) = 2 ^ nat (bitlen b)"
        using lb by (simp add: power_int_def)
      ultimately show ?thesis by simp
    qed
    have "(2::rat) powi (e - 1) = 2 powi (bitlen a - 1) / 2 powi (bitlen b)"
      unfolding e_def by (simp add: power_int_diff)
    also have "\<dots> \<le> of_int a / 2 powi (bitlen b)"
      using ra by (simp add: divide_right_mono)
    also have "\<dots> \<le> of_int a / of_int b"
      using rb a b by (simp add: divide_left_mono)
    finally have "(2::rat) powi (e - 1) \<le> \<bar>x\<bar>" unfolding xa .
    with False show ?thesis by (simp add: binaryExponent_def q e_def Let_def)
  qed
qed

lemma roundHalfEven_floor: "\<lfloor>y\<rfloor> \<le> roundHalfEven y"
  by (simp add: roundHalfEven_def Let_def)

lemma roundHalfEven_of_int: "roundHalfEven (of_int m) = m"
  by (simp add: roundHalfEven_def Let_def)

lemma roundDouble_pos:
  assumes "0 < x"
  shows "0 < roundDouble x"
proof -
  define e where "e = binaryExponent x"
  define u where "u = (2::rat) powi (e - 52)"
  have u: "0 < u" unfolding u_def by simp
  have "2 powi e \<le> x" using binaryExponent_le[of x] assms by (simp add: e_def)
  then have "2 powi e / u \<le> x / u" using u by (simp add: divide_right_mono)
  moreover have "2 powi e / u = (2::rat) ^ 52"
    unfolding u_def by (simp add: power_int_diff)
  ultimately have "(1::rat) \<le> x / u" by simp
  then have "1 \<le> \<lfloor>x / u\<rfloor>" by simp
  then have "1 \<le> roundHalfEven (x / u)" using roundHalfEven_floor[of "x / u"] by linarith
  then have "0 < (of_int (roundHalfEven (x / u)) :: rat) * u" using u by simp
  then show ?thesis using assms by (simp add: roundDouble_def Let_def e_def u_def)
qed

lemma roundDouble_nonneg: "0 \<le> x \<Longrightarrow> 0 \<le> roundDouble x"
  using roundDouble_pos[of x] by (cases "x = 0") (simp_all add: roundDouble_def less_imp_le)

lemma roundDouble_whole:
  assumes "0 \<le> n" and "n \<le> 2 ^ 53"
  shows "roundDouble (of_int n) = of_int n"
proof (cases "n = 0")
  case True
  then show ?thesis by (simp add: roundDouble_def)
next
  case False
  then have n: "0 < n" using assms(1) by simp
  define x where "x = (of_int n :: rat)"
  have x: "0 < x" "x \<noteq> 0" using n by (simp_all add: x_def)
  define e where "e = binaryExponent x"
  have le: "(2::rat) powi e \<le> x" using binaryExponent_le[OF x(2)] x(1) by (simp add: e_def)
  have xb: "x \<le> 2 ^ 53" using assms(2) unfolding x_def
    by (metis of_int_le_iff of_int_numeral of_int_power)
  have e53: "e \<le> 53"
  proof (rule ccontr)
    assume "\<not> e \<le> 53"
    then have "54 \<le> e" by simp
    then have "(2::rat) powi 54 \<le> 2 powi e" by (intro power_int_increasing) simp_all
    with le xb show False by simp
  qed
  have "of_int (roundHalfEven (x / 2 powi (e - 52))) * 2 powi (e - 52) = x"
  proof (cases "e = 53")
    case True
    have "(2::rat) ^ 53 \<le> x" using le unfolding True by simp
    with xb have xe: "x = 2 ^ 53" by simp
    have "x / 2 powi (e - 52) = of_int (2 ^ 52)" unfolding True xe by simp
    then show ?thesis unfolding True xe by (simp only: roundHalfEven_of_int) simp
  next
    case False
    with e53 have k: "0 \<le> 52 - e" by simp
    have p: "(2::rat) powi (e - 52) = 1 / 2 ^ nat (52 - e)"
    proof -
      have "(2::rat) powi (e - 52) = inverse (2 powi (52 - e))"
        by (metis minus_diff_eq power_int_minus)
      also have "\<dots> = 1 / 2 ^ nat (52 - e)" using k by (simp add: power_int_def inverse_eq_divide)
      finally show ?thesis .
    qed
    have "x / 2 powi (e - 52) = of_int (n * 2 ^ nat (52 - e))"
      unfolding p x_def by simp
    then show ?thesis by (simp only: roundHalfEven_of_int) (simp add: p x_def)
  qed
  then show ?thesis using x by (simp add: roundDouble_def Let_def e_def x_def)
qed

lemma roundDouble_wholeQuantity: "wholeQuantity q \<Longrightarrow> roundDouble q = q"
proof -
  assume w: "wholeQuantity q"
  then have q: "q = of_int \<lfloor>q\<rfloor>" and "0 \<le> q" and b: "q \<le> 2 ^ 53" by (simp_all add: wholeQuantity_def)
  then have "0 \<le> \<lfloor>q\<rfloor>" by simp
  moreover have "\<lfloor>q\<rfloor> \<le> 2 ^ 53"
  proof -
    have "\<lfloor>q\<rfloor> \<le> \<lfloor>(2::rat) ^ 53\<rfloor>" using b by (rule floor_mono)
    then show ?thesis by simp
  qed
  ultimately have "roundDouble (of_int \<lfloor>q\<rfloor>) = of_int \<lfloor>q\<rfloor>" by (rule roundDouble_whole)
  with q show ?thesis by simp
qed

lemma wholeQuantity_diff:
  assumes "wholeQuantity a" and "wholeQuantity b" and "b \<le> a"
  shows "wholeQuantity (a - b)"
proof -
  from assms(1,2) have a: "a = of_int \<lfloor>a\<rfloor>" and b: "b = of_int \<lfloor>b\<rfloor>"
    and ab: "a \<le> 2 ^ 53" and b0: "0 \<le> b"
    by (simp_all add: wholeQuantity_def)
  have "a - b = of_int (\<lfloor>a\<rfloor> - \<lfloor>b\<rfloor>)" using a b by simp
  then have "a - b = of_int \<lfloor>a - b\<rfloor>" by (metis floor_of_int)
  moreover have "0 \<le> a - b" using assms(3) by simp
  moreover have "a - b \<le> 2 ^ 53" using ab b0 by linarith
  ultimately show ?thesis by (simp add: wholeQuantity_def)
qed

lemma wholeQuantity_zero: "wholeQuantity 0"
  by (simp add: wholeQuantity_def)


section \<open>The engine for any rounding\<close>

lemma fifoLoopWith_nonpos: "r \<le> 0 \<Longrightarrow> fifoLoopWith rnd ls r = (ls, [], r)"
  by (cases ls) simp_all

lemma fifoLoopWith_exact: "fifoLoopWith (\<lambda>x. x) ls r = fifoLoop ls r"
  by (simp add: fifoLoop_def)

lemma fifoLoopWith_whole:
  assumes "\<forall>l\<in>set ls. wholeQuantity (HoldingLot.quantity l)" and "wholeQuantity r"
  shows "fifoLoopWith roundDouble ls r = fifoLoop ls r \<and>
         (\<forall>l\<in>set (fst (fifoLoop ls r)). wholeQuantity (HoldingLot.quantity l))"
  using assms
proof (induction ls arbitrary: r)
  case Nil
  then show ?case by simp
next
  case (Cons lot rest)
  have wl: "wholeQuantity (HoldingLot.quantity lot)" and wr: "\<forall>l\<in>set rest. wholeQuantity (HoldingLot.quantity l)"
    using Cons.prems(1) by simp_all
  show ?case
  proof (cases "r > 0")
    case False
    then show ?thesis using Cons.prems(1) by simp
  next
    case rpos: True
    show ?thesis
    proof (cases "HoldingLot.quantity lot \<le> r")
      case True
      have w: "wholeQuantity (r - HoldingLot.quantity lot)"
        by (rule wholeQuantity_diff[OF Cons.prems(2) wl True])
      have e: "roundDouble (r - HoldingLot.quantity lot) = r - HoldingLot.quantity lot"
        by (rule roundDouble_wholeQuantity[OF w])
      from Cons.IH[OF wr w] show ?thesis
        using rpos True e by (simp add: wholeQuantity_zero split: prod.splits)
    next
      case False
      then have le: "r \<le> HoldingLot.quantity lot" by simp
      have w: "wholeQuantity (HoldingLot.quantity lot - r)"
        by (rule wholeQuantity_diff[OF wl Cons.prems(2) le])
      have e: "roundDouble (HoldingLot.quantity lot - r) = HoldingLot.quantity lot - r"
        by (rule roundDouble_wholeQuantity[OF w])
      have z: "fifoLoopWith roundDouble rest 0 = (rest, [], 0)" "fifoLoop rest 0 = (rest, [], 0)"
        by (simp_all add: fifoLoopWith_nonpos fifoLoop_def)
      show ?thesis using rpos False e w wr z by simp
    qed
  qed
qed

lemma fifoLoopWith_sign:
  assumes rnd: "\<And>x. 0 \<le> x \<Longrightarrow> 0 \<le> rnd x"
    and "\<forall>l\<in>set ls. 0 \<le> HoldingLot.quantity l" and "0 \<le> r"
    and "fifoLoopWith rnd ls r = (ls', cs, r')"
  shows "(\<forall>l\<in>set ls'. 0 \<le> HoldingLot.quantity l) \<and> 0 \<le> r' \<and>
         ((\<forall>l\<in>set ls. 0 < HoldingLot.quantity l) \<longrightarrow> (\<forall>c\<in>set cs. 0 < HoldingLot.quantity c))"
  using assms(2-)
proof (induction ls arbitrary: r ls' cs r')
  case Nil
  then show ?case by auto
next
  case (Cons lot rest)
  show ?case
  proof (cases "r > 0")
    case False
    with Cons.prems show ?thesis by auto
  next
    case rpos: True
    show ?thesis
    proof (cases "HoldingLot.quantity lot \<le> r")
      case True
      obtain a b c where rec: "fifoLoopWith rnd rest (rnd (r - HoldingLot.quantity lot)) = (a, b, c)"
        by (cases "fifoLoopWith rnd rest (rnd (r - HoldingLot.quantity lot))") auto
      have "0 \<le> rnd (r - HoldingLot.quantity lot)" using True by (intro rnd) simp
      from Cons.IH[OF _ this rec] Cons.prems(1)
      have ih: "(\<forall>l\<in>set a. 0 \<le> HoldingLot.quantity l) \<and> 0 \<le> c \<and>
         ((\<forall>l\<in>set rest. 0 < HoldingLot.quantity l) \<longrightarrow> (\<forall>c\<in>set b. 0 < HoldingLot.quantity c))"
        by simp
      from Cons.prems(3) rpos True rec
      have eqs: "ls' = lot\<lparr>HoldingLot.quantity := 0\<rparr> # a"
        "cs = \<lparr>HoldingLot.quantity = HoldingLot.quantity lot,
                  HoldingLot.purchaseDate = HoldingLot.purchaseDate lot,
                  HoldingLot.purchasePrice = HoldingLot.purchasePrice lot\<rparr> # b" "r' = c"
        by simp_all
      show ?thesis using ih unfolding eqs by auto
    next
      case False
      have rec: "fifoLoopWith rnd rest 0 = (rest, [], 0)" by (simp add: fifoLoopWith_nonpos)
      from Cons.prems(3) rpos False rec
      have eqs: "ls' = lot\<lparr>HoldingLot.quantity := rnd (HoldingLot.quantity lot - r)\<rparr> # rest"
        "cs = [\<lparr>HoldingLot.quantity = r,
                  HoldingLot.purchaseDate = HoldingLot.purchaseDate lot,
                  HoldingLot.purchasePrice = HoldingLot.purchasePrice lot\<rparr>]" "r' = 0"
        by simp_all
      have "0 \<le> rnd (HoldingLot.quantity lot - r)" using False by (intro rnd) simp
      then show ?thesis using rpos Cons.prems(1) unfolding eqs by auto
    qed
  qed
qed


lemma applyFifoSellWith_parts:
  "fst (applyFifoSellWith rnd now ls q) = fst (fifoLoopWith rnd ls q)"
  "consumedLots (fst (snd (applyFifoSellWith rnd now ls q))) = fst (snd (fifoLoopWith rnd ls q))"
  "snd (snd (applyFifoSellWith rnd now ls q)) =
     (if snd (snd (fifoLoopWith rnd ls q)) > 0 then [snd (snd (fifoLoopWith rnd ls q))] else [])"
  by (simp_all add: applyFifoSellWith_def Let_def split: prod.splits)

lemma processTradeWith_buy:
  "tradeType t = Buy \<Longrightarrow> processTradeWith rnd now (acc, gains, ws) t = (acc', gains', ws') \<Longrightarrow>
     HoldingAccumulator.lots acc' = HoldingAccumulator.lots acc @
        [\<lparr>HoldingLot.quantity = TradeRecord.quantity t, HoldingLot.purchaseDate = tradeDate t,
          HoldingLot.purchasePrice = TradeRecord.price t\<rparr>] \<and> gains' = gains \<and> ws' = ws"
  by (auto simp: processTradeWith_def Let_def split: if_splits)

lemma processTradeWith_sell:
  "tradeType t = Sell \<Longrightarrow> processTradeWith rnd now (acc, gains, ws) t = (acc', gains', ws') \<Longrightarrow>
     HoldingAccumulator.lots acc' =
        removeEmptyLots (fst (fifoLoopWith rnd (HoldingAccumulator.lots acc) (TradeRecord.quantity t))) \<and>
     gains' = gains @ sellEntries t (fst (snd (fifoLoopWith rnd (HoldingAccumulator.lots acc) (TradeRecord.quantity t)))) \<and>
     ws' = ws @ (if snd (snd (fifoLoopWith rnd (HoldingAccumulator.lots acc) (TradeRecord.quantity t))) > 0
                 then [snd (snd (fifoLoopWith rnd (HoldingAccumulator.lots acc) (TradeRecord.quantity t)))] else [])"
  apply (simp add: processTradeWith_def Let_def split: prod.splits if_splits)
  apply (auto simp: applyFifoSellWith_def Let_def split: prod.splits if_splits)
  done

lemma processTradeWith_meta:
  "processTradeWith rnd now (acc, gains, ws) t = (acc', gains', ws') \<Longrightarrow>
     HoldingAccumulator.symbol acc' = HoldingAccumulator.symbol acc \<and>
     HoldingAccumulator.exchange acc' = HoldingAccumulator.exchange acc"
  by (cases "tradeType t") (auto simp: processTradeWith_def Let_def split: prod.splits if_splits)

text \<open>An invariant of the lots and a property of the entries, carried through the loop.\<close>

lemma foldl_processTradeWith_invariant:
  assumes "\<forall>l\<in>set (HoldingAccumulator.lots acc). L l" and "\<forall>e\<in>set gains. E e"
    and buy: "\<And>t. t \<in> set ts \<Longrightarrow> tradeType t = Buy \<Longrightarrow>
            L \<lparr>HoldingLot.quantity = TradeRecord.quantity t, HoldingLot.purchaseDate = tradeDate t,
               HoldingLot.purchasePrice = TradeRecord.price t\<rparr>"
    and sell: "\<And>t ls. t \<in> set ts \<Longrightarrow> tradeType t = Sell \<Longrightarrow> \<forall>l\<in>set ls. L l \<Longrightarrow>
            (\<forall>l\<in>set (removeEmptyLots (fst (fifoLoopWith rnd ls (TradeRecord.quantity t)))). L l) \<and>
            (\<forall>e\<in>set (sellEntries t (fst (snd (fifoLoopWith rnd ls (TradeRecord.quantity t))))). E e)"
    and "foldl (processTradeWith rnd now) (acc, gains, ws) ts = (acc', gains', ws')"
  shows "(\<forall>l\<in>set (HoldingAccumulator.lots acc'). L l) \<and> (\<forall>e\<in>set gains'. E e)"
  using assms
proof (induction ts arbitrary: acc gains ws)
  case Nil
  then show ?case by simp
next
  case (Cons t ts)
  obtain a g w where st: "processTradeWith rnd now (acc, gains, ws) t = (a, g, w)"
    by (cases "processTradeWith rnd now (acc, gains, ws) t") auto
  have step: "(\<forall>l\<in>set (HoldingAccumulator.lots a). L l) \<and> (\<forall>e\<in>set g. E e)"
  proof (cases "tradeType t")
    case Buy
    from processTradeWith_buy[OF Buy st] Cons.prems(1,2) Cons.prems(3)[of t, OF _ Buy]
    show ?thesis by auto
  next
    case Sell
    from processTradeWith_sell[OF Sell st] Cons.prems(2)
      Cons.prems(4)[of t "HoldingAccumulator.lots acc", OF _ Sell Cons.prems(1)]
    show ?thesis by auto
  qed
  have f: "foldl (processTradeWith rnd now) (a, g, w) ts = (acc', gains', ws')"
    using Cons.prems(5) st by simp
  have b': "L \<lparr>HoldingLot.quantity = TradeRecord.quantity u, HoldingLot.purchaseDate = tradeDate u,
               HoldingLot.purchasePrice = TradeRecord.price u\<rparr>"
    if "u \<in> set ts" "tradeType u = Buy" for u
    using Cons.prems(3)[of u] that by simp
  have s': "(\<forall>l\<in>set (removeEmptyLots (fst (fifoLoopWith rnd ls (TradeRecord.quantity u)))). L l) \<and>
            (\<forall>e\<in>set (sellEntries u (fst (snd (fifoLoopWith rnd ls (TradeRecord.quantity u))))). E e)"
    if "u \<in> set ts" "tradeType u = Sell" "\<forall>l\<in>set ls. L l" for u ls
    using Cons.prems(4)[of u ls] that by simp
  from step have s1: "\<forall>l\<in>set (HoldingAccumulator.lots a). L l" and s2: "\<forall>e\<in>set g. E e"
    by simp_all
  show ?case by (rule Cons.IH[OF s1 s2 b' s' f])
qed

lemma foldl_processTradeWith_meta:
  "foldl (processTradeWith rnd now) (acc, gains, ws) ts = (acc', gains', ws') \<Longrightarrow>
     HoldingAccumulator.symbol acc' = HoldingAccumulator.symbol acc \<and>
     HoldingAccumulator.exchange acc' = HoldingAccumulator.exchange acc"
proof (induction ts arbitrary: acc gains ws)
  case Nil
  then show ?case by simp
next
  case (Cons t ts)
  obtain a g w where st: "processTradeWith rnd now (acc, gains, ws) t = (a, g, w)"
    by (cases "processTradeWith rnd now (acc, gains, ws) t") auto
  with Cons.prems have "foldl (processTradeWith rnd now) (a, g, w) ts = (acc', gains', ws')" by simp
  from Cons.IH[OF this] processTradeWith_meta[OF st] show ?case by simp
qed

lemma processTradesForHoldingWith_result:
  assumes "sortTradesChronologically trades = first # rest"
    and "foldl (processTradeWith rnd now) (initAccumulator first, [], []) (first # rest) = (acc, g, w)"
  shows "processTradesForHoldingWith rnd now trades =
     (if HoldingAccumulator.lots acc = []
      then (\<lparr>accumulator = None, HoldingWithGains.realizedGains = g\<rparr>, w)
      else (\<lparr>accumulator = Some acc, HoldingWithGains.realizedGains = g\<rparr>, w))"
  unfolding processTradesForHoldingWith_def assms(1) list.case
  using assms(2) unfolding initAccumulator_def by (simp only: prod.case)

lemma processTradesForHoldingWith_cases:
  obtains (empty) "trades = []" "processTradesForHoldingWith rnd now trades =
        (\<lparr>accumulator = None, HoldingWithGains.realizedGains = []\<rparr>, [])"
  | (run) first rest acc g w where "sortTradesChronologically trades = first # rest"
      "foldl (processTradeWith rnd now) (initAccumulator first, [], []) (first # rest) = (acc, g, w)"
      "processTradesForHoldingWith rnd now trades =
        (if HoldingAccumulator.lots acc = []
         then (\<lparr>accumulator = None, HoldingWithGains.realizedGains = g\<rparr>, w)
         else (\<lparr>accumulator = Some acc, HoldingWithGains.realizedGains = g\<rparr>, w))"
proof (cases "sortTradesChronologically trades")
  case Nil
  then have "trades = []"
    unfolding sortTradesChronologically_def by (metis length_0_conv length_sort)
  moreover have "processTradesForHoldingWith rnd now trades =
        (\<lparr>accumulator = None, HoldingWithGains.realizedGains = []\<rparr>, [])"
    unfolding processTradesForHoldingWith_def Nil by simp
  ultimately show ?thesis by (rule empty)
next
  case (Cons first rest)
  obtain acc g w where f: "foldl (processTradeWith rnd now) (initAccumulator first, [], []) (first # rest) = (acc, g, w)"
    by (cases "foldl (processTradeWith rnd now) (initAccumulator first, [], []) (first # rest)") auto
  from run[OF Cons f processTradesForHoldingWith_result[OF Cons f]] show ?thesis .
qed

text \<open>
  What a group's run returns, for any rounding: an invariant of the lots that buys
  establish and sells keep holds of the lots of the accumulator, and a property that the
  entries of every sell have holds of all the gains.
\<close>

lemma groupWith_invariant:
  assumes buy: "\<And>t. t \<in> set trades \<Longrightarrow> tradeType t = Buy \<Longrightarrow>
            L \<lparr>HoldingLot.quantity = TradeRecord.quantity t, HoldingLot.purchaseDate = tradeDate t,
               HoldingLot.purchasePrice = TradeRecord.price t\<rparr>"
    and sell: "\<And>t ls. t \<in> set trades \<Longrightarrow> tradeType t = Sell \<Longrightarrow> \<forall>l\<in>set ls. L l \<Longrightarrow>
            (\<forall>l\<in>set (removeEmptyLots (fst (fifoLoopWith rnd ls (TradeRecord.quantity t)))). L l) \<and>
            (\<forall>e\<in>set (sellEntries t (fst (snd (fifoLoopWith rnd ls (TradeRecord.quantity t))))). E e)"
  shows "(\<forall>e\<in>set (HoldingWithGains.realizedGains (fst (processTradesForHoldingWith rnd now trades))). E e) \<and>
         (\<forall>acc. accumulator (fst (processTradesForHoldingWith rnd now trades)) = Some acc \<longrightarrow>
            HoldingAccumulator.lots acc \<noteq> [] \<and> (\<forall>l\<in>set (HoldingAccumulator.lots acc). L l) \<and>
            (\<exists>first\<in>set trades. HoldingAccumulator.symbol acc = TradeRecord.symbol first \<and>
               HoldingAccumulator.exchange acc = TradeRecord.exchange first))"
proof (cases trades rule: processTradesForHoldingWith_cases[where now = now and rnd = rnd])
  case empty
  then show ?thesis by simp
next
  case (run first rest a g w)
  have sset: "set (first # rest) = set trades"
    using run(1) by (metis sortTradesChronologically_def set_sort)
  have inv: "(\<forall>l\<in>set (HoldingAccumulator.lots a). L l) \<and> (\<forall>e\<in>set g. E e)"
  proof (rule foldl_processTradeWith_invariant[OF _ _ _ _ run(2)])
    show "\<forall>l\<in>set (HoldingAccumulator.lots (initAccumulator first)). L l"
      by (simp add: initAccumulator_def)
    show "\<forall>e\<in>set []. E e" by simp
    show "\<And>t. t \<in> set (first # rest) \<Longrightarrow> tradeType t = Buy \<Longrightarrow>
            L \<lparr>HoldingLot.quantity = TradeRecord.quantity t, HoldingLot.purchaseDate = tradeDate t,
               HoldingLot.purchasePrice = TradeRecord.price t\<rparr>"
      using buy unfolding sset by simp
    show "\<And>t ls. t \<in> set (first # rest) \<Longrightarrow> tradeType t = Sell \<Longrightarrow> \<forall>l\<in>set ls. L l \<Longrightarrow>
            (\<forall>l\<in>set (removeEmptyLots (fst (fifoLoopWith rnd ls (TradeRecord.quantity t)))). L l) \<and>
            (\<forall>e\<in>set (sellEntries t (fst (snd (fifoLoopWith rnd ls (TradeRecord.quantity t))))). E e)"
      using sell unfolding sset by simp
  qed
  have meta: "HoldingAccumulator.symbol a = TradeRecord.symbol first"
    "HoldingAccumulator.exchange a = TradeRecord.exchange first"
    using foldl_processTradeWith_meta[OF run(2)] by (simp_all add: initAccumulator_def)
  have fin: "first \<in> set trades" using sset by auto
  show ?thesis unfolding run(3) using inv meta fin by auto
qed

lemma groupHoldingWith_mem:
  "h \<in> set (groupHoldingWith rnd now g) \<longleftrightarrow>
     (\<exists>acc. accumulator (fst (processTradesForHoldingWith rnd now g)) = Some acc \<and> h = makeHolding now acc)"
  by (cases "accumulator (fst (processTradesForHoldingWith rnd now g))") (auto simp: groupHoldingWith_def)

lemma processGroupWith_step:
  "processGroupWith rnd now (hs, gs) g =
     (hs @ groupHoldingWith rnd now g,
      gs @ HoldingWithGains.realizedGains (fst (processTradesForHoldingWith rnd now g)))"
  by (simp add: processGroupWith_def groupHoldingWith_def Let_def split: option.splits)

lemma processGroupWith_fold:
  "fst (foldl (processGroupWith rnd now) (hs, gs) groups) = hs @ concat (map (groupHoldingWith rnd now) groups)"
proof (induction groups arbitrary: hs gs)
  case Nil
  show ?case by simp
next
  case (Cons g groups)
  show ?case
    unfolding foldl_Cons processGroupWith_step Cons.IH by simp
qed

lemma analyzePortfolioWith_holdings:
  "h \<in> set (holdings (analyzePortfolioWith rnd localeCompare now trades)) \<longleftrightarrow>
     (\<exists>k acc. groupOf k trades \<noteq> [] \<and>
        accumulator (fst (processTradesForHoldingWith rnd now (groupOf k trades))) = Some acc \<and>
        h = makeHolding now acc)"
proof (cases "trades = []")
  case True
  then show ?thesis by (simp add: analyzePortfolioWith_def groupOf_def)
next
  case False
  obtain hs gs where f: "foldl (processGroupWith rnd now) ([], []) (map snd (groupTradesByHolding trades)) = (hs, gs)"
    by (cases "foldl (processGroupWith rnd now) ([], []) (map snd (groupTradesByHolding trades))") auto
  have hs: "hs = concat (map (groupHoldingWith rnd now) (map snd (groupTradesByHolding trades)))"
    using processGroupWith_fold[of rnd now "[]" "[]" "map snd (groupTradesByHolding trades)"] f by simp
  have "holdings (analyzePortfolioWith rnd localeCompare now trades) =
      sortByCompare (\<lambda>a b. localeCompare (Holding.symbol a) (Holding.symbol b)) hs"
    using False f by (simp add: analyzePortfolioWith_def)
  then have "set (holdings (analyzePortfolioWith rnd localeCompare now trades)) =
      set (concat (map (groupHoldingWith rnd now) (map snd (groupTradesByHolding trades))))"
    unfolding hs by (simp only: sortByCompare_set)
  also have "\<dots> = (\<Union>g \<in> snd ` set (groupTradesByHolding trades). set (groupHoldingWith rnd now g))"
    by auto
  finally have "h \<in> set (holdings (analyzePortfolioWith rnd localeCompare now trades)) \<longleftrightarrow>
      (\<exists>k g. (k, g) \<in> set (groupTradesByHolding trades) \<and> h \<in> set (groupHoldingWith rnd now g))"
    by force
  also have "\<dots> \<longleftrightarrow> (\<exists>k. groupOf k trades \<noteq> [] \<and> h \<in> set (groupHoldingWith rnd now (groupOf k trades)))"
    unfolding groupTradesByHolding_char(2) by auto
  also have "\<dots> \<longleftrightarrow> (\<exists>k acc. groupOf k trades \<noteq> [] \<and>
        accumulator (fst (processTradesForHoldingWith rnd now (groupOf k trades))) = Some acc \<and>
        h = makeHolding now acc)"
    unfolding groupHoldingWith_mem by blast
  finally show ?thesis .
qed


section \<open>Whole quantities: double precision computes exactly\<close>

text \<open>
  On lots and sells of whole quantities every subtraction of the walk is exact, so the
  engine in double precision returns what the engine in exact arithmetic returns.
\<close>

lemma applyFifoSellWith_whole:
  assumes "\<forall>l\<in>set ls. wholeQuantity (HoldingLot.quantity l)" and "wholeQuantity q"
  shows "applyFifoSellWith roundDouble now ls q = applyFifoSell now ls q"
  using fifoLoopWith_whole[OF assms]
  by (simp add: applyFifoSellWith_def applyFifoSell_unfold)

lemma processTradeWith_whole:
  assumes "\<forall>l\<in>set (HoldingAccumulator.lots acc). wholeQuantity (HoldingLot.quantity l)"
    and "wholeQuantity (TradeRecord.quantity t)"
  shows "processTradeWith roundDouble now (acc, g, w) t = processTrade now (acc, g, w) t"
    and "\<forall>l\<in>set (HoldingAccumulator.lots (fst (processTrade now (acc, g, w) t))).
           wholeQuantity (HoldingLot.quantity l)"
proof -
  show e: "processTradeWith roundDouble now (acc, g, w) t = processTrade now (acc, g, w) t"
    using applyFifoSellWith_whole[OF assms, of now]
    by (cases "tradeType t") (simp_all add: processTradeWith_def processTrade_unfold Let_def)
  obtain a g' w' where st: "processTrade now (acc, g, w) t = (a, g', w')"
    by (cases "processTrade now (acc, g, w) t") auto
  have "\<forall>l\<in>set (HoldingAccumulator.lots a). wholeQuantity (HoldingLot.quantity l)"
  proof (cases "tradeType t")
    case Buy
    from processTrade_buy[OF Buy st] assms show ?thesis by auto
  next
    case Sell
    from processTrade_sell[OF Sell st] fifoLoopWith_whole[OF assms]
    show ?thesis by (simp add: removeEmptyLots_def)
  qed
  then show "\<forall>l\<in>set (HoldingAccumulator.lots (fst (processTrade now (acc, g, w) t))).
           wholeQuantity (HoldingLot.quantity l)" using st by simp
qed

lemma foldl_processTradeWith_whole:
  assumes "\<forall>l\<in>set (HoldingAccumulator.lots acc). wholeQuantity (HoldingLot.quantity l)"
    and "\<forall>t\<in>set ts. wholeQuantity (TradeRecord.quantity t)"
  shows "foldl (processTradeWith roundDouble now) (acc, g, w) ts = foldl (processTrade now) (acc, g, w) ts \<and>
         (\<forall>l\<in>set (HoldingAccumulator.lots (fst (foldl (processTrade now) (acc, g, w) ts))).
            wholeQuantity (HoldingLot.quantity l))"
  using assms
proof (induction ts arbitrary: acc g w)
  case Nil
  then show ?case by simp
next
  case (Cons t ts)
  have wt: "wholeQuantity (TradeRecord.quantity t)" using Cons.prems(2) by simp
  obtain a g' w' where st: "processTrade now (acc, g, w) t = (a, g', w')"
    by (cases "processTrade now (acc, g, w) t") auto
  have e: "processTradeWith roundDouble now (acc, g, w) t = (a, g', w')"
    using processTradeWith_whole(1)[OF Cons.prems(1) wt, of now g w] st by simp
  have wa: "\<forall>l\<in>set (HoldingAccumulator.lots a). wholeQuantity (HoldingLot.quantity l)"
    using processTradeWith_whole(2)[OF Cons.prems(1) wt, of now g w] st by simp
  have "\<forall>t\<in>set ts. wholeQuantity (TradeRecord.quantity t)" using Cons.prems(2) by simp
  from Cons.IH[OF wa this, of g' w'] show ?case by (simp add: e st)
qed

lemma processTradesForHoldingWith_whole:
  assumes "\<forall>t\<in>set trades. wholeQuantity (TradeRecord.quantity t)"
  shows "processTradesForHoldingWith roundDouble now trades = processTradesForHolding now trades"
proof (cases "sortTradesChronologically trades")
  case Nil
  then show ?thesis by (simp add: processTradesForHoldingWith_def processTradesForHolding_unfold)
next
  case (Cons first rest)
  have "set (first # rest) = set trades"
    using Cons by (metis sortTradesChronologically_def set_sort)
  then have w: "\<forall>t\<in>set (first # rest). wholeQuantity (TradeRecord.quantity t)" using assms by simp
  have "foldl (processTradeWith roundDouble now) (initAccumulator first, [], []) (first # rest) =
      foldl (processTrade now) (initAccumulator first, [], []) (first # rest)"
    using foldl_processTradeWith_whole[OF _ w, of "initAccumulator first" now "[]" "[]"]
    by (simp add: initAccumulator_def)
  then show ?thesis
    unfolding processTradesForHoldingWith_def processTradesForHolding_unfold Cons list.case
      initAccumulator_def by simp
qed

lemma foldl_processGroupWith_whole:
  assumes "\<forall>g\<in>set groups. \<forall>t\<in>set g. wholeQuantity (TradeRecord.quantity t)"
  shows "foldl (processGroupWith roundDouble now) st groups = foldl (processGroup now) st groups"
  using assms
proof (induction groups arbitrary: st)
  case Nil
  show ?case by simp
next
  case (Cons g groups)
  have "processTradesForHoldingWith roundDouble now g = processTradesForHolding now g"
    using Cons.prems by (intro processTradesForHoldingWith_whole) simp
  then have "processGroupWith roundDouble now st g = processGroup now st g"
    by (simp add: processGroupWith_def processGroup_unfold)
  moreover have "\<forall>g\<in>set groups. \<forall>t\<in>set g. wholeQuantity (TradeRecord.quantity t)"
    using Cons.prems by simp
  ultimately show ?case using Cons.IH by simp
qed

lemma analyzePortfolioWith_whole:
  assumes "\<forall>t\<in>set trades. wholeQuantity (TradeRecord.quantity t)"
  shows "analyzePortfolioWith roundDouble localeCompare now trades = analyzePortfolio localeCompare now trades"
proof -
  have "\<forall>g\<in>set (map snd (groupTradesByHolding trades)). \<forall>t\<in>set g. wholeQuantity (TradeRecord.quantity t)"
  proof
    fix g assume "g \<in> set (map snd (groupTradesByHolding trades))"
    then obtain k where "(k, g) \<in> set (groupTradesByHolding trades)" by auto
    then have "g = groupOf k trades" using groupTradesByHolding_char(2) by blast
    then show "\<forall>t\<in>set g. wholeQuantity (TradeRecord.quantity t)"
      using assms by (simp add: groupOf_def)
  qed
  from foldl_processGroupWith_whole[OF this]
  show ?thesis by (simp add: analyzePortfolioWith_def analyzePortfolio_unfold)
qed


section \<open>Sells and full consumption in double precision\<close>

lemma sell_step_exact:
  assumes "0 < TradeRecord.quantity t"
    and "\<forall>l\<in>set (HoldingAccumulator.lots acc). 0 < HoldingLot.quantity l"
    and "tradeType t = Sell"
    and "processTrade now (acc, gains, ws) t = (acc', gains', ws')"
  shows "\<exists>emitted. gains' = gains @ emitted \<and>
            sum_list (map RealizedGainEntry.quantity emitted) =
              min (TradeRecord.quantity t) (calculateTotalQuantity (HoldingAccumulator.lots acc))"
    and "calculateTotalQuantity (HoldingAccumulator.lots acc') =
           calculateTotalQuantity (HoldingAccumulator.lots acc) -
           min (TradeRecord.quantity t) (calculateTotalQuantity (HoldingAccumulator.lots acc))"
    and "ws' = ws @ (if calculateTotalQuantity (HoldingAccumulator.lots acc) < TradeRecord.quantity t
                     then [TradeRecord.quantity t - calculateTotalQuantity (HoldingAccumulator.lots acc)]
                     else [])"
proof -
  have nn: "\<forall>l\<in>set (HoldingAccumulator.lots acc). 0 \<le> HoldingLot.quantity l"
    using assms(2) by (simp add: less_imp_le)
  obtain ls' cs r' where loop:
    "fifoLoop (HoldingAccumulator.lots acc) (TradeRecord.quantity t) = (ls', cs, r')"
    by (cases "fifoLoop (HoldingAccumulator.lots acc) (TradeRecord.quantity t)") auto
  note facts = fifoLoop_facts[OF nn less_imp_le[OF assms(1)] loop]
  note step = processTrade_sell[OF assms(3) assms(4), unfolded loop, simplified]
  have e1: "gains' = gains @ sellEntries t cs" using step by simp
  have e3: "sum_list (map RealizedGainEntry.quantity (sellEntries t cs)) =
              min (TradeRecord.quantity t) (calculateTotalQuantity (HoldingAccumulator.lots acc))"
    using facts by (simp add: sellEntries_quantities calculateTotalQuantity_sum)
  from e1 e3 show "\<exists>emitted. gains' = gains @ emitted \<and>
            sum_list (map RealizedGainEntry.quantity emitted) =
              min (TradeRecord.quantity t) (calculateTotalQuantity (HoldingAccumulator.lots acc))"
    by blast
  show "calculateTotalQuantity (HoldingAccumulator.lots acc') =
           calculateTotalQuantity (HoldingAccumulator.lots acc) -
           min (TradeRecord.quantity t) (calculateTotalQuantity (HoldingAccumulator.lots acc))"
    using step facts by (simp add: calculateTotalQuantity_sum removeEmptyLots_sum)
  have r: "r' = TradeRecord.quantity t -
      min (TradeRecord.quantity t) (calculateTotalQuantity (HoldingAccumulator.lots acc))"
    using facts by (simp add: calculateTotalQuantity_sum)
  have w: "ws' = ws @ (if r' > 0 then [r'] else [])" using step by simp
  show "ws' = ws @ (if calculateTotalQuantity (HoldingAccumulator.lots acc) < TradeRecord.quantity t
                     then [TradeRecord.quantity t - calculateTotalQuantity (HoldingAccumulator.lots acc)]
                     else [])"
    unfolding w r by (simp add: min_def)
qed

lemma foldl_processTradeWith_positive:
  assumes "\<forall>u\<in>set ts. 0 < TradeRecord.quantity u"
    and "\<forall>l\<in>set (HoldingAccumulator.lots acc). 0 < HoldingLot.quantity l"
    and "foldl (processTradeWith rnd now) (acc, gains, ws) ts = (acc', gains', ws')"
  shows "\<forall>l\<in>set (HoldingAccumulator.lots acc'). 0 < HoldingLot.quantity l"
proof -
  have "(\<forall>l\<in>set (HoldingAccumulator.lots acc'). 0 < HoldingLot.quantity l) \<and> (\<forall>e\<in>set gains'. True)"
  proof (rule foldl_processTradeWith_invariant[OF assms(2) _ _ _ assms(3)])
    show "\<forall>e\<in>set gains. True" by simp
    show "\<And>t. t \<in> set ts \<Longrightarrow> tradeType t = Buy \<Longrightarrow>
       0 < HoldingLot.quantity \<lparr>HoldingLot.quantity = TradeRecord.quantity t,
             HoldingLot.purchaseDate = tradeDate t, HoldingLot.purchasePrice = TradeRecord.price t\<rparr>"
      using assms(1) by simp
    show "\<And>t ls. t \<in> set ts \<Longrightarrow> tradeType t = Sell \<Longrightarrow> \<forall>l\<in>set ls. 0 < HoldingLot.quantity l \<Longrightarrow>
       (\<forall>l\<in>set (removeEmptyLots (fst (fifoLoopWith rnd ls (TradeRecord.quantity t)))).
           0 < HoldingLot.quantity l) \<and>
       (\<forall>e\<in>set (sellEntries t (fst (snd (fifoLoopWith rnd ls (TradeRecord.quantity t))))). True)"
      by (simp add: removeEmptyLots_pos)
  qed
  then show ?thesis by simp
qed

lemma foldl_processTradeWith_wholeLots:
  assumes "\<forall>u\<in>set ts. wholeQuantity (TradeRecord.quantity u)"
    and "\<forall>l\<in>set (HoldingAccumulator.lots acc). wholeQuantity (HoldingLot.quantity l)"
    and "foldl (processTradeWith roundDouble now) (acc, gains, ws) ts = (acc', gains', ws')"
  shows "\<forall>l\<in>set (HoldingAccumulator.lots acc'). wholeQuantity (HoldingLot.quantity l)"
proof -
  have "foldl (processTrade now) (acc, gains, ws) ts = (acc', gains', ws')"
    using foldl_processTradeWith_whole[OF assms(2,1), of now gains ws] assms(3) by simp
  then have "fst (foldl (processTrade now) (acc, gains, ws) ts) = acc'" by simp
  with foldl_processTradeWith_whole[OF assms(2,1), of now gains ws] show ?thesis by simp
qed

text \<open>
  C2.  The engine as the program runs it, with double-precision subtraction, at a sell
  and from the state that the trades before it in the sorted group have produced
  (quantities positive, as the parser guarantees).  The walk returns for every input
  (the model has no failing branch); the lots it leaves are not negative and the lots
  kept after it are positive; the entries the sell emits have positive quantities; and
  at most one warning is written, for a positive unmatched quantity.  When the trade
  quantities are whole numbers up to \<open>2^53\<close>, so that every subtraction of the walk is
  exact, the emitted quantities add up to the minimum of the sell's quantity and the
  quantity held before it, the quantity held goes down by that minimum, and the warning
  is written exactly when the sell asks for more than is held and reports the excess.
\<close>

theorem fifo_sell_conservation:
  assumes "\<forall>u\<in>set trades. 0 < TradeRecord.quantity u"
    and "sortTradesChronologically trades = pre @ t # post"
    and "tradeType t = Sell"
    and "HoldingAccumulator.lots acc0 = []"
    and "foldl (processTradeWith roundDouble now) (acc0, [], []) pre = (acc, gains, ws)"
    and "processTradeWith roundDouble now (acc, gains, ws) t = (acc', gains', ws')"
  shows "(\<forall>l\<in>set (fst (applyFifoSellWith roundDouble now (HoldingAccumulator.lots acc)
                          (TradeRecord.quantity t))). 0 \<le> HoldingLot.quantity l) \<and>
         (\<forall>l\<in>set (HoldingAccumulator.lots acc'). 0 < HoldingLot.quantity l) \<and>
         (\<exists>emitted. gains' = gains @ emitted \<and>
            (\<forall>e\<in>set emitted. 0 < RealizedGainEntry.quantity e) \<and>
            ((\<forall>u\<in>set trades. wholeQuantity (TradeRecord.quantity u)) \<longrightarrow>
               sum_list (map RealizedGainEntry.quantity emitted) =
                 min (TradeRecord.quantity t) (calculateTotalQuantity (HoldingAccumulator.lots acc)))) \<and>
         (ws' = ws \<or> (\<exists>unmatched. 0 < unmatched \<and> ws' = ws @ [unmatched])) \<and>
         ((\<forall>u\<in>set trades. wholeQuantity (TradeRecord.quantity u)) \<longrightarrow>
            calculateTotalQuantity (HoldingAccumulator.lots acc') =
              calculateTotalQuantity (HoldingAccumulator.lots acc) -
              min (TradeRecord.quantity t) (calculateTotalQuantity (HoldingAccumulator.lots acc)) \<and>
            ws' = ws @ (if calculateTotalQuantity (HoldingAccumulator.lots acc) < TradeRecord.quantity t
                        then [TradeRecord.quantity t - calculateTotalQuantity (HoldingAccumulator.lots acc)]
                        else []))"
proof -
  have "set (pre @ t # post) = set trades"
    using assms(2) by (metis sortTradesChronologically_def set_sort)
  then have inpre: "set pre \<subseteq> set trades" and tin: "t \<in> set trades" by auto
  then have qpos: "0 < TradeRecord.quantity t" and prepos: "\<forall>u\<in>set pre. 0 < TradeRecord.quantity u"
    using assms(1) by auto
  have pos: "\<forall>l\<in>set (HoldingAccumulator.lots acc). 0 < HoldingLot.quantity l"
    using foldl_processTradeWith_positive[OF prepos _ assms(5)] assms(4) by simp
  then have nn: "\<forall>l\<in>set (HoldingAccumulator.lots acc). 0 \<le> HoldingLot.quantity l"
    by (simp add: less_imp_le)
  obtain ls' cs r' where loop:
    "fifoLoopWith roundDouble (HoldingAccumulator.lots acc) (TradeRecord.quantity t) = (ls', cs, r')"
    by (cases "fifoLoopWith roundDouble (HoldingAccumulator.lots acc) (TradeRecord.quantity t)") auto
  note sign = fifoLoopWith_sign[of roundDouble, OF roundDouble_nonneg nn less_imp_le[OF qpos] loop]
  note step = processTradeWith_sell[OF assms(3) assms(6), unfolded loop, simplified]
  have c1: "\<forall>l\<in>set (fst (applyFifoSellWith roundDouble now (HoldingAccumulator.lots acc)
                          (TradeRecord.quantity t))). 0 \<le> HoldingLot.quantity l"
    using sign by (simp add: applyFifoSellWith_parts loop)
  have c2: "\<forall>l\<in>set (HoldingAccumulator.lots acc'). 0 < HoldingLot.quantity l"
    using step by (simp add: removeEmptyLots_pos)
  have cpos: "\<forall>c\<in>set cs. 0 < HoldingLot.quantity c" using sign pos by simp
  have e1: "gains' = gains @ sellEntries t cs" using step by simp
  have e2: "\<forall>e\<in>set (sellEntries t cs). 0 < RealizedGainEntry.quantity e"
    using cpos by (simp add: sellEntries_def Let_def)
  have c4: "ws' = ws \<or> (\<exists>unmatched. 0 < unmatched \<and> ws' = ws @ [unmatched])"
    using step by auto
  have ex: "sum_list (map RealizedGainEntry.quantity (sellEntries t cs)) =
                 min (TradeRecord.quantity t) (calculateTotalQuantity (HoldingAccumulator.lots acc)) \<and>
            calculateTotalQuantity (HoldingAccumulator.lots acc') =
              calculateTotalQuantity (HoldingAccumulator.lots acc) -
              min (TradeRecord.quantity t) (calculateTotalQuantity (HoldingAccumulator.lots acc)) \<and>
            ws' = ws @ (if calculateTotalQuantity (HoldingAccumulator.lots acc) < TradeRecord.quantity t
                        then [TradeRecord.quantity t - calculateTotalQuantity (HoldingAccumulator.lots acc)]
                        else [])"
    if whole: "\<forall>u\<in>set trades. wholeQuantity (TradeRecord.quantity u)"
  proof -
    have wt: "wholeQuantity (TradeRecord.quantity t)" using whole tin by simp
    have wpre: "\<forall>u\<in>set pre. wholeQuantity (TradeRecord.quantity u)" using whole inpre by auto
    have wl: "\<forall>l\<in>set (HoldingAccumulator.lots acc). wholeQuantity (HoldingLot.quantity l)"
      using foldl_processTradeWith_wholeLots[OF wpre _ assms(5)] assms(4) by simp
    have st: "processTrade now (acc, gains, ws) t = (acc', gains', ws')"
      using processTradeWith_whole(1)[OF wl wt, of now gains ws] assms(6) by simp
    from sell_step_exact(1)[OF qpos pos assms(3) st] obtain emitted where
      em: "gains' = gains @ emitted" "sum_list (map RealizedGainEntry.quantity emitted) =
              min (TradeRecord.quantity t) (calculateTotalQuantity (HoldingAccumulator.lots acc))"
      by blast
    from em(1) e1 have "emitted = sellEntries t cs" by simp
    with em(2) sell_step_exact(2,3)[OF qpos pos assms(3) st] show ?thesis by simp
  qed
  have c3: "\<exists>emitted. gains' = gains @ emitted \<and>
            (\<forall>e\<in>set emitted. 0 < RealizedGainEntry.quantity e) \<and>
            ((\<forall>u\<in>set trades. wholeQuantity (TradeRecord.quantity u)) \<longrightarrow>
               sum_list (map RealizedGainEntry.quantity emitted) =
                 min (TradeRecord.quantity t) (calculateTotalQuantity (HoldingAccumulator.lots acc)))"
    using e1 e2 ex by blast
  from c1 c2 c3 c4 ex show ?thesis by blast
qed

theorem fifo_sell_conservation_witness:
  "TradeRecord.quantity sellOver = 120 \<and>
   wholeQuantity (TradeRecord.quantity buy1) \<and> wholeQuantity (TradeRecord.quantity buy2) \<and>
   wholeQuantity (TradeRecord.quantity sellOver) \<and>
   calculateTotalQuantity (HoldingAccumulator.lots
      (fst (foldl (processTradeWith roundDouble 0) (initAccumulator buy1, [], []) [buy1, buy2]))) = 100 \<and>
   sum_list (map RealizedGainEntry.quantity
      (fst (snd (processTradeWith roundDouble 0
         (foldl (processTradeWith roundDouble 0) (initAccumulator buy1, [], []) [buy1, buy2])
         sellOver)))) = 100 \<and>
   snd (snd (processTradeWith roundDouble 0
         (foldl (processTradeWith roundDouble 0) (initAccumulator buy1, [], []) [buy1, buy2])
         sellOver)) = [20] \<and>
   calculateTotalQuantity (HoldingAccumulator.lots
      (fst (processTradeWith roundDouble 0
         (foldl (processTradeWith roundDouble 0) (initAccumulator buy1, [], []) [buy1, buy2])
         sellOver))) = 0"
proof -
  obtain acc gains ws where f:
    "foldl (processTradeWith roundDouble 0) (initAccumulator buy1, [], []) [buy1, buy2] = (acc, gains, ws)"
    by (cases "foldl (processTradeWith roundDouble 0) (initAccumulator buy1, [], []) [buy1, buy2]") auto
  obtain acc' gains' ws' where s: "processTradeWith roundDouble 0 (acc, gains, ws) sellOver = (acc', gains', ws')"
    by (cases "processTradeWith roundDouble 0 (acc, gains, ws) sellOver") auto
  have g0: "gains = []" "ws = []"
    using f by (simp_all add: processTradeWith_def buy1_def buy2_def Let_def)
  have pos: "\<forall>u\<in>set [sellOver, buy2, buy1]. 0 < TradeRecord.quantity u" by code_simp
  have w: "wholeQuantity (TradeRecord.quantity buy1)" "wholeQuantity (TradeRecord.quantity buy2)"
    "wholeQuantity (TradeRecord.quantity sellOver)" by code_simp+
  then have whole: "\<forall>u\<in>set [sellOver, buy2, buy1]. wholeQuantity (TradeRecord.quantity u)" by simp
  have srt: "sortTradesChronologically [sellOver, buy2, buy1] = [buy1, buy2] @ sellOver # []"
    by code_simp
  have ty: "tradeType sellOver = Sell" by code_simp
  have l0: "HoldingAccumulator.lots (initAccumulator buy1) = []" by (simp add: initAccumulator_def)
  have q: "TradeRecord.quantity sellOver = 120" by code_simp
  have tot: "calculateTotalQuantity (HoldingAccumulator.lots
      (fst (foldl (processTradeWith roundDouble 0) (initAccumulator buy1, [], []) [buy1, buy2]))) = 100"
    by code_simp
  then have tot': "calculateTotalQuantity (HoldingAccumulator.lots acc) = 100" using f by simp
  from fifo_sell_conservation[OF pos srt ty l0 f s] whole g0 q tot'
  have "sum_list (map RealizedGainEntry.quantity gains') = 100"
    and "calculateTotalQuantity (HoldingAccumulator.lots acc') = 0"
    and "ws' = [20]"
    by auto
  then show ?thesis using q w tot f s by simp
qed

text \<open>
  A lot of 1 and a lot of \<open>2^53 + 2\<close>, and a sell of \<open>2^53 + 2\<close>: after the first lot is
  consumed, \<open>2^53 + 1\<close> remains to be sold, which rounds to \<open>2^53\<close>.  The entries have the
  quantities 1 and \<open>2^53\<close>, which do not add up to the sell's quantity, although more
  than that is held; no warning is written and a lot of 2 is left.
\<close>

theorem fifo_sell_conservation_counterexample:
  "sortTradesChronologically [roundSell1, roundBuy2, roundBuy1] = [roundBuy1, roundBuy2] @ roundSell1 # [] \<and>
   tradeType roundSell1 = Sell \<and> TradeRecord.quantity roundSell1 = 9007199254740994 \<and>
   map HoldingLot.quantity (HoldingAccumulator.lots
      (fst (foldl (processTradeWith roundDouble 0) (initAccumulator roundBuy1, [], [])
         [roundBuy1, roundBuy2]))) = [1, 9007199254740994] \<and>
   map RealizedGainEntry.quantity
      (fst (snd (processTradeWith roundDouble 0
         (foldl (processTradeWith roundDouble 0) (initAccumulator roundBuy1, [], []) [roundBuy1, roundBuy2])
         roundSell1))) = [1, 9007199254740992] \<and>
   sum_list (map RealizedGainEntry.quantity
      (fst (snd (processTradeWith roundDouble 0
         (foldl (processTradeWith roundDouble 0) (initAccumulator roundBuy1, [], []) [roundBuy1, roundBuy2])
         roundSell1)))) \<noteq>
     min (TradeRecord.quantity roundSell1)
       (calculateTotalQuantity (HoldingAccumulator.lots
          (fst (foldl (processTradeWith roundDouble 0) (initAccumulator roundBuy1, [], [])
             [roundBuy1, roundBuy2])))) \<and>
   snd (snd (processTradeWith roundDouble 0
         (foldl (processTradeWith roundDouble 0) (initAccumulator roundBuy1, [], []) [roundBuy1, roundBuy2])
         roundSell1)) = [] \<and>
   map HoldingLot.quantity (HoldingAccumulator.lots
      (fst (processTradeWith roundDouble 0
         (foldl (processTradeWith roundDouble 0) (initAccumulator roundBuy1, [], []) [roundBuy1, roundBuy2])
         roundSell1))) = [2]"
  by code_simp

lemma holdingsWith_positive:
  assumes "\<forall>t\<in>set trades. 0 < TradeRecord.quantity t"
    and "h \<in> set (holdings (analyzePortfolioWith rnd localeCompare now trades))"
  shows "0 < totalQuantity h \<and> Holding.lots h \<noteq> [] \<and>
         (\<forall>l\<in>set (Holding.lots h). 0 < HoldingLot.quantity l)"
proof -
  from assms(2) obtain k acc where
    a: "accumulator (fst (processTradesForHoldingWith rnd now (groupOf k trades))) = Some acc"
    and h: "h = makeHolding now acc"
    unfolding analyzePortfolioWith_holdings by blast
  have gp: "\<forall>t\<in>set (groupOf k trades). 0 < TradeRecord.quantity t"
    by (rule groupOf_positive[OF assms(1)])
  have "(\<forall>e\<in>set (HoldingWithGains.realizedGains (fst (processTradesForHoldingWith rnd now (groupOf k trades)))). True) \<and>
         (\<forall>acc. accumulator (fst (processTradesForHoldingWith rnd now (groupOf k trades))) = Some acc \<longrightarrow>
            HoldingAccumulator.lots acc \<noteq> [] \<and>
            (\<forall>l\<in>set (HoldingAccumulator.lots acc). 0 < HoldingLot.quantity l) \<and>
            (\<exists>first\<in>set (groupOf k trades). HoldingAccumulator.symbol acc = TradeRecord.symbol first \<and>
               HoldingAccumulator.exchange acc = TradeRecord.exchange first))"
  proof (rule groupWith_invariant)
    show "\<And>t. t \<in> set (groupOf k trades) \<Longrightarrow> tradeType t = Buy \<Longrightarrow>
       0 < HoldingLot.quantity \<lparr>HoldingLot.quantity = TradeRecord.quantity t,
             HoldingLot.purchaseDate = tradeDate t, HoldingLot.purchasePrice = TradeRecord.price t\<rparr>"
      using gp by simp
    show "\<And>t ls. t \<in> set (groupOf k trades) \<Longrightarrow> tradeType t = Sell \<Longrightarrow>
       \<forall>l\<in>set ls. 0 < HoldingLot.quantity l \<Longrightarrow>
       (\<forall>l\<in>set (removeEmptyLots (fst (fifoLoopWith rnd ls (TradeRecord.quantity t)))).
           0 < HoldingLot.quantity l) \<and>
       (\<forall>e\<in>set (sellEntries t (fst (snd (fifoLoopWith rnd ls (TradeRecord.quantity t))))). True)"
      by (simp add: removeEmptyLots_pos)
  qed
  with a have ne: "HoldingAccumulator.lots acc \<noteq> []"
    and pos: "\<forall>l\<in>set (HoldingAccumulator.lots acc). 0 < HoldingLot.quantity l" by simp_all
  have "0 < sum_list (map HoldingLot.quantity (HoldingAccumulator.lots acc))"
    using ne pos by (intro sum_list_positive) auto
  then show ?thesis
    unfolding h makeHolding_fields using ne pos by (simp add: calculateTotalQuantity_sum)
qed

lemma pair_fully_sold_exact:
  assumes "\<forall>t\<in>set trades. 0 < TradeRecord.quantity t"
    and "\<forall>t\<in>set trades. CHR '':'' \<notin> set (TradeRecord.exchange t)"
    and "snd (processTradesForHolding now (tradesOfPair s e trades)) = []"
    and "totalSold (tradesOfPair s e trades) = totalBought (tradesOfPair s e trades)"
    and "h \<in> set (holdings (analyzePortfolio localeCompare now trades))"
  shows "\<not> (Holding.symbol h = s \<and> Holding.exchange h = e)"
proof
  assume se: "Holding.symbol h = s \<and> Holding.exchange h = e"
  from holding_from_own_pair[OF assms(2,5)] obtain acc where
    a: "accumulator (fst (processTradesForHolding now (tradesOfPair s e trades))) = Some acc"
    unfolding tradesOfPair_def using se by auto
  obtain r ws where p: "processTradesForHolding now (tradesOfPair s e trades) = (r, ws)"
    by (cases "processTradesForHolding now (tradesOfPair s e trades)") auto
  have ar: "accumulator r = Some acc" using a p by simp
  have w: "ws = []" using assms(3) p by simp
  have gp: "\<forall>t\<in>set (tradesOfPair s e trades). 0 < TradeRecord.quantity t"
    using assms(1) by (simp add: tradesOfPair_def)
  from group_result(3)[OF gp p ar]
  have ne: "HoldingAccumulator.lots acc \<noteq> []"
    and pos: "\<forall>l\<in>set (HoldingAccumulator.lots acc). 0 < HoldingLot.quantity l"
    and bal: "sum_list (map HoldingLot.quantity (HoldingAccumulator.lots acc)) =
       totalBought (tradesOfPair s e trades) - totalSold (tradesOfPair s e trades) + sum_list ws"
    by blast+
  have "sum_list (map HoldingLot.quantity (HoldingAccumulator.lots acc)) = 0"
    using bal assms(4) w by simp
  moreover have "0 < sum_list (map HoldingLot.quantity (HoldingAccumulator.lots acc))"
    using ne pos by (intro sum_list_positive) auto
  ultimately show False by simp
qed

text \<open>
  C3.  The calculation as the program runs it.  For trades with positive quantities,
  every Holding returned has at least one lot, every lot quantity positive and a
  positive total quantity.  When moreover the quantities are whole numbers up to \<open>2^53\<close>
  and no venue contains a colon, a (symbol, venue) pair none of whose sells asked for
  more than was held (its trades run without a warning) and whose sold quantity equals
  its bought quantity has no Holding in the output.
\<close>

theorem full_consumption_without_oversell:
  assumes "\<forall>t\<in>set trades. 0 < TradeRecord.quantity t"
  shows "((\<forall>t\<in>set trades. wholeQuantity (TradeRecord.quantity t) \<and>
                           CHR '':'' \<notin> set (TradeRecord.exchange t)) \<and>
          snd (processTradesForHoldingWith roundDouble now (tradesOfPair s e trades)) = [] \<and>
          totalSold (tradesOfPair s e trades) = totalBought (tradesOfPair s e trades) \<longrightarrow>
            (\<forall>h\<in>set (holdings (analyzePortfolioWith roundDouble localeCompare now trades)).
                \<not> (Holding.symbol h = s \<and> Holding.exchange h = e))) \<and>
         (\<forall>h\<in>set (holdings (analyzePortfolioWith roundDouble localeCompare now trades)).
            0 < totalQuantity h \<and> Holding.lots h \<noteq> [] \<and>
            (\<forall>l\<in>set (Holding.lots h). 0 < HoldingLot.quantity l))"
proof (intro conjI impI ballI)
  fix h
  assume c: "(\<forall>t\<in>set trades. wholeQuantity (TradeRecord.quantity t) \<and>
                           CHR '':'' \<notin> set (TradeRecord.exchange t)) \<and>
          snd (processTradesForHoldingWith roundDouble now (tradesOfPair s e trades)) = [] \<and>
          totalSold (tradesOfPair s e trades) = totalBought (tradesOfPair s e trades)"
    and hin: "h \<in> set (holdings (analyzePortfolioWith roundDouble localeCompare now trades))"
  from c have whole: "\<forall>t\<in>set trades. wholeQuantity (TradeRecord.quantity t)"
    and colon: "\<forall>t\<in>set trades. CHR '':'' \<notin> set (TradeRecord.exchange t)"
    and nw: "snd (processTradesForHoldingWith roundDouble now (tradesOfPair s e trades)) = []"
    and eq: "totalSold (tradesOfPair s e trades) = totalBought (tradesOfPair s e trades)"
    by simp_all
  have wp: "\<forall>t\<in>set (tradesOfPair s e trades). wholeQuantity (TradeRecord.quantity t)"
    using whole by (simp add: tradesOfPair_def)
  have nw': "snd (processTradesForHolding now (tradesOfPair s e trades)) = []"
    using nw unfolding processTradesForHoldingWith_whole[OF wp] .
  have hin': "h \<in> set (holdings (analyzePortfolio localeCompare now trades))"
    using hin unfolding analyzePortfolioWith_whole[OF whole] .
  show "\<not> (Holding.symbol h = s \<and> Holding.exchange h = e)"
    by (rule pair_fully_sold_exact[OF assms colon nw' eq hin'])
next
  fix h
  assume hin: "h \<in> set (holdings (analyzePortfolioWith roundDouble localeCompare now trades))"
  note p = holdingsWith_positive[OF assms hin]
  show "0 < totalQuantity h" using p by simp
  show "Holding.lots h \<noteq> []" using p by simp
  fix l assume "l \<in> set (Holding.lots h)"
  then show "0 < HoldingLot.quantity l" using p by simp
qed

theorem full_consumption_without_oversell_witness:
  "TradeRecord.quantity buy1 = 50 \<and> TradeRecord.quantity buyTcs = 10 \<and>
   TradeRecord.quantity sellFirstLot = 50 \<and>
   TradeRecord.exchange buy1 = ''NSE'' \<and> TradeRecord.exchange buyTcs = ''BSE'' \<and>
   TradeRecord.exchange sellFirstLot = ''NSE'' \<and>
   snd (processTradesForHoldingWith roundDouble 0
     (tradesOfPair ''RELIANCE'' ''NSE'' [buy1, buyTcs, sellFirstLot])) = [] \<and>
   totalSold (tradesOfPair ''RELIANCE'' ''NSE'' [buy1, buyTcs, sellFirstLot]) =
     totalBought (tradesOfPair ''RELIANCE'' ''NSE'' [buy1, buyTcs, sellFirstLot]) \<and>
   map Holding.symbol (holdings (analyzePortfolioWith roundDouble compareCodeUnits 0
     [buy1, buyTcs, sellFirstLot])) = [''TCS''] \<and>
   \<not> (Holding.symbol (hd (holdings (analyzePortfolioWith roundDouble compareCodeUnits 0
          [buy1, buyTcs, sellFirstLot]))) = ''RELIANCE'' \<and>
      Holding.exchange (hd (holdings (analyzePortfolioWith roundDouble compareCodeUnits 0
          [buy1, buyTcs, sellFirstLot]))) = ''NSE'') \<and>
   0 < totalQuantity (hd (holdings (analyzePortfolioWith roundDouble compareCodeUnits 0
          [buy1, buyTcs, sellFirstLot])))"
proof -
  have q: "TradeRecord.quantity buy1 = 50" "TradeRecord.quantity buyTcs = 10"
    "TradeRecord.quantity sellFirstLot = 50" by code_simp+
  then have pos: "\<forall>t\<in>set [buy1, buyTcs, sellFirstLot]. 0 < TradeRecord.quantity t" by simp
  have x: "TradeRecord.exchange buy1 = ''NSE''" "TradeRecord.exchange buyTcs = ''BSE''"
    "TradeRecord.exchange sellFirstLot = ''NSE''" by code_simp+
  have wq: "wholeQuantity 50" "wholeQuantity 10" by code_simp+
  have wc: "\<forall>t\<in>set [buy1, buyTcs, sellFirstLot]. wholeQuantity (TradeRecord.quantity t) \<and>
                           CHR '':'' \<notin> set (TradeRecord.exchange t)"
    using q x wq by simp
  have w: "snd (processTradesForHoldingWith roundDouble 0
     (tradesOfPair ''RELIANCE'' ''NSE'' [buy1, buyTcs, sellFirstLot])) = []"
    by code_simp
  have e: "totalSold (tradesOfPair ''RELIANCE'' ''NSE'' [buy1, buyTcs, sellFirstLot]) =
     totalBought (tradesOfPair ''RELIANCE'' ''NSE'' [buy1, buyTcs, sellFirstLot])" by code_simp
  have s: "map Holding.symbol (holdings (analyzePortfolioWith roundDouble compareCodeUnits 0
     [buy1, buyTcs, sellFirstLot])) = [''TCS'']" by code_simp
  then have "holdings (analyzePortfolioWith roundDouble compareCodeUnits 0 [buy1, buyTcs, sellFirstLot]) \<noteq> []"
    by auto
  then have m: "hd (holdings (analyzePortfolioWith roundDouble compareCodeUnits 0 [buy1, buyTcs, sellFirstLot]))
      \<in> set (holdings (analyzePortfolioWith roundDouble compareCodeUnits 0 [buy1, buyTcs, sellFirstLot]))"
    by simp
  from full_consumption_without_oversell[OF pos, of 0 "''RELIANCE''" "''NSE''" compareCodeUnits] wc w e m
  have "\<not> (Holding.symbol (hd (holdings (analyzePortfolioWith roundDouble compareCodeUnits 0
          [buy1, buyTcs, sellFirstLot]))) = ''RELIANCE'' \<and>
      Holding.exchange (hd (holdings (analyzePortfolioWith roundDouble compareCodeUnits 0
          [buy1, buyTcs, sellFirstLot]))) = ''NSE'') \<and>
   0 < totalQuantity (hd (holdings (analyzePortfolioWith roundDouble compareCodeUnits 0
          [buy1, buyTcs, sellFirstLot])))"
    by blast
  with q x w e s show ?thesis by blast
qed

text \<open>
  Three inputs for which sold equals bought and a Holding is returned.  A sell of 50
  before the only buy of 50: the early sell finds no lot and is dropped with a warning,
  and a Holding of 50 is returned.  Buys of 1 and \<open>2^53 + 2\<close> followed by sells of
  \<open>2^53 + 2\<close> and 1: no warning is written, and rounding leaves a Holding of 1.  A buy
  and a sell of 10 of the pair (A:B, C) and a buy of 5 of the pair (A, B:C), whose key
  is the same: the Holding returned for the group carries the first pair's symbol and
  venue, with a quantity of 5.
\<close>

theorem full_consumption_counterexample:
  "totalSold (tradesOfPair ''RELIANCE'' ''NSE'' [sellEarly, buy1]) =
     totalBought (tradesOfPair ''RELIANCE'' ''NSE'' [sellEarly, buy1]) \<and>
   map Holding.symbol (holdings (analyzePortfolioWith roundDouble compareCodeUnits 0 [sellEarly, buy1])) =
     [''RELIANCE''] \<and>
   map Holding.exchange (holdings (analyzePortfolioWith roundDouble compareCodeUnits 0 [sellEarly, buy1])) =
     [''NSE''] \<and>
   map totalQuantity (holdings (analyzePortfolioWith roundDouble compareCodeUnits 0 [sellEarly, buy1])) =
     [50] \<and>
   totalSold (tradesOfPair ''RELIANCE'' ''NSE'' [roundBuy1, roundBuy2, roundSell1, roundSell2]) =
     totalBought (tradesOfPair ''RELIANCE'' ''NSE'' [roundBuy1, roundBuy2, roundSell1, roundSell2]) \<and>
   snd (processTradesForHoldingWith roundDouble 0
     (tradesOfPair ''RELIANCE'' ''NSE'' [roundBuy1, roundBuy2, roundSell1, roundSell2])) = [] \<and>
   map Holding.symbol (holdings (analyzePortfolioWith roundDouble compareCodeUnits 0
     [roundBuy1, roundBuy2, roundSell1, roundSell2])) = [''RELIANCE''] \<and>
   map Holding.exchange (holdings (analyzePortfolioWith roundDouble compareCodeUnits 0
     [roundBuy1, roundBuy2, roundSell1, roundSell2])) = [''NSE''] \<and>
   map totalQuantity (holdings (analyzePortfolioWith roundDouble compareCodeUnits 0
     [roundBuy1, roundBuy2, roundSell1, roundSell2])) = [1] \<and>
   totalSold (tradesOfPair ''A:B'' ''C'' [colonBuy, colonSellAll, colonBuyOther]) =
     totalBought (tradesOfPair ''A:B'' ''C'' [colonBuy, colonSellAll, colonBuyOther]) \<and>
   snd (processTradesForHoldingWith roundDouble 0
     (tradesOfPair ''A:B'' ''C'' [colonBuy, colonSellAll, colonBuyOther])) = [] \<and>
   map Holding.symbol (holdings (analyzePortfolioWith roundDouble compareCodeUnits 0
     [colonBuy, colonSellAll, colonBuyOther])) = [''A:B''] \<and>
   map Holding.exchange (holdings (analyzePortfolioWith roundDouble compareCodeUnits 0
     [colonBuy, colonSellAll, colonBuyOther])) = [''C''] \<and>
   map totalQuantity (holdings (analyzePortfolioWith roundDouble compareCodeUnits 0
     [colonBuy, colonSellAll, colonBuyOther])) = [5]"
  by code_simp


section \<open>The holding-period rule\<close>





end
